(* ===== verification/Prelude.thy ===== *)
theory Prelude
  imports Main "HOL-Library.Word" "HOL-Library.Signed_Division" "HOL-Library.Sublist"
    "HOL-Library.List_Lexorder" "HOL-Library.Char_ord"
begin

text \<open>
  Shared vocabulary of the development: the fixed-width integers of the Go code, the text
  functions of its standard library that several components call, the collections of
  simplification rules, and generic lemmas on lists, maps and words.

  A Go \<open>string\<close> is the list of its bytes (type \<open>string\<close>, whose characters are bytes),
  a Go \<open>int64\<close> or \<open>time.Duration\<close> is a \<open>64 word\<close> read with \<open>sint\<close>, and a Go \<open>int32\<close>
  is a \<open>32 word\<close>. A point in time, which the code only compares and subtracts, is an
  \<open>int\<close> number of nanoseconds on the monotonic clock.
\<close>

section \<open>Types and rule collections\<close>

type_synonym int64 = "64 word"
type_synonym int32 = "32 word"
type_synonym instant = int

named_theorems i64_simps "signed reading of int64 operations"
named_theorems err_simps "the wrapping structure of Go errors"
named_theorems guard_simps "facts of the namespace guard"
named_theorems json_simps "equations of the JSON decoders"

section \<open>Signed 64-bit arithmetic\<close>

definition int64_min :: int where
  "int64_min = - (2 ^ 63)"

definition int64_max :: int where
  "int64_max = 2 ^ 63 - 1"

definition wrap64 :: "int \<Rightarrow> int" where
  "wrap64 x = (x + 2 ^ 63) mod 2 ^ 64 - 2 ^ 63"

lemma signed_take_bit_63: "signed_take_bit 63 (x :: int) = wrap64 x"
  by (simp add: wrap64_def signed_take_bit_eq_take_bit_shift take_bit_eq_mod)

lemma sint_word_of_int_64: "sint (word_of_int x :: int64) = wrap64 x"
  by (simp add: sint_sbintrunc' signed_take_bit_63)

lemma sint_range_64: "- (2 ^ 63) \<le> sint (x :: int64)" "sint (x :: int64) < 2 ^ 63"
  using sint_greater_eq [of x] sint_less [of x] by simp_all

lemma wrap64_id: "- (2 ^ 63) \<le> x \<Longrightarrow> x < 2 ^ 63 \<Longrightarrow> wrap64 x = x"
  by (simp add: wrap64_def)

lemma sint_add_64: "sint ((x :: int64) + y) = wrap64 (sint x + sint y)"
  using sint_word_ariths(1) [of x y] by (simp add: signed_take_bit_63)

lemma sint_sub_64: "sint ((x :: int64) - y) = wrap64 (sint x - sint y)"
  using sint_word_ariths(2) [of x y] by (simp add: signed_take_bit_63)

lemma sint_mult_64: "sint ((x :: int64) * y) = wrap64 (sint x * sint y)"
  using sint_word_ariths(3) [of x y] by (simp add: signed_take_bit_63)

lemma sless_64: "((x :: int64) <s y) = (sint x < sint y)"
  by (simp add: word_sless_alt)

lemma sle_64: "((x :: int64) \<le>s y) = (sint x \<le> sint y)"
  by (simp add: word_sle_eq)

lemma sint_eq_64: "((x :: int64) = y) = (sint x = sint y)"
  by (metis signed_word_eqI)

lemmas i64_arith [i64_simps] =
  sint_add_64 sint_sub_64 sint_mult_64 sless_64 sle_64

section \<open>Time\<close>

text \<open>
  \<open>time.Time.Sub\<close> returns a \<open>Duration\<close> and saturates at the limits of \<open>int64\<close>.
\<close>

definition time_sub :: "instant \<Rightarrow> instant \<Rightarrow> int" where
  "time_sub t u = max int64_min (min int64_max (t - u))"

definition nanosecond :: int where "nanosecond = 1"
definition millisecond :: int where "millisecond = 1000000"
definition second :: int where "second = 1000000000"
definition minute :: int where "minute = 60 * second"

lemma time_sub_gt:
  "time_sub t u > d \<Longrightarrow> 0 \<le> d \<Longrightarrow> t - u > d"
  by (auto simp: time_sub_def int64_min_def int64_max_def)

lemma time_sub_le:
  "time_sub t u \<le> d \<Longrightarrow> d < int64_max \<Longrightarrow> t - u \<le> d"
  by (auto simp: time_sub_def int64_min_def int64_max_def)

section \<open>Lists and maps\<close>

lemma map_le_graph: "finite (dom m) \<Longrightarrow> k \<notin> dom m \<Longrightarrow> card (dom (m(k \<mapsto> v))) = Suc (card (dom m))"
  by simp

lemma finite_dom_restrict [simp]: "finite (dom m) \<Longrightarrow> finite (dom (\<lambda>k. if P k then m k else None))"
  by (rule finite_subset [of _ "dom m"]) (auto split: if_splits)

lemma card_dom_restrict: "finite (dom m) \<Longrightarrow> card (dom (\<lambda>k. if P k then m k else None)) \<le> card (dom m)"
  by (rule card_mono) (auto split: if_splits)

end
