(* ===== verification/Replay.thy ===== *)
theory Replay
  imports Prelude "HOL-Library.Mapping" "HOL-Library.AList_Mapping"
begin

text \<open>
  Replay protection of the gateway client (\<open>claimCommand\<close> in \<open>internal/gateway/client.go\<close>): the
  map \<open>seenCommands\<close> from command ids to the time they were claimed, which is purged of entries
  older than the time to live and refuses new ids once it is full. The mutex around it makes a
  claim one step; the time is read before the mutex is taken, so the times of successive claims
  need not increase across goroutines, but the read loop is the only caller and they do.

  The locale \<open>replay_window\<close> states the contract of such a memory and derives from it that two
  accepted claims of one id lie more than the time to live apart; it is interpreted on
  \<open>claimCommand\<close>.
\<close>

section \<open>Claiming a command\<close>

type_synonym seen_commands = "(string, instant) mapping"

definition commandReplayTTL :: int where
  "commandReplayTTL = 10 * minute"

definition maxRememberedCommands :: nat where
  "maxRememberedCommands = 4096"

definition purge_expired :: "instant \<Rightarrow> seen_commands \<Rightarrow> seen_commands" where
  "purge_expired now seen = Mapping.filter (\<lambda>commandID seenAt. \<not> time_sub now seenAt > commandReplayTTL) seen"

definition claimCommand :: "instant \<Rightarrow> seen_commands \<Rightarrow> string \<Rightarrow> bool \<times> seen_commands" where
  "claimCommand now seen cid =
     (let seen' = purge_expired now seen in
      if Mapping.lookup seen' cid \<noteq> None then (False, seen')
      else if Mapping.size seen' \<ge> maxRememberedCommands then (False, seen')
      else (True, Mapping.update cid now seen'))"

text \<open>A sequence of claims, each with its time, from a given memory.\<close>

fun run_claims :: "(instant \<Rightarrow> 's \<Rightarrow> string \<Rightarrow> bool \<times> 's) \<Rightarrow> 's \<Rightarrow> (instant \<times> string) list \<Rightarrow> bool list \<times> 's" where
  "run_claims claim s [] = ([], s)"
| "run_claims claim s ((t, i) # cs) =
     (let (b, s1) = claim t s i; (bs, s2) = run_claims claim s1 cs in (b # bs, s2))"

abbreviation claim_results :: "(instant \<times> string) list \<Rightarrow> bool list" where
  "claim_results cs \<equiv> fst (run_claims claimCommand Mapping.empty cs)"

section \<open>The contract of a replay memory\<close>

locale replay_window =
  fixes claim :: "instant \<Rightarrow> 's \<Rightarrow> string \<Rightarrow> bool \<times> 's"
    and claimed_at :: "'s \<Rightarrow> string \<Rightarrow> instant option"
    and ttl :: int
  assumes claim_accepts: "claim t s i = (True, s') \<Longrightarrow> claimed_at s' i = Some t"
    and claim_fresh: "claim t s i = (True, s') \<Longrightarrow> claimed_at s i = Some u \<Longrightarrow> ttl < t - u"
    and claim_keeps: "claim t s i = (b, s') \<Longrightarrow> claimed_at s j = Some u \<Longrightarrow> \<not> ttl < t - u \<Longrightarrow>
      claimed_at s' j = Some u"
begin

text \<open>While an entry is remembered, an accepted claim of its id comes after its time to live.\<close>

lemma accepted_after_ttl:
  "claimed_at s i = Some u \<Longrightarrow> sorted (map fst cs) \<Longrightarrow> k < length cs \<Longrightarrow> snd (cs ! k) = i \<Longrightarrow>
    fst (run_claims claim s cs) ! k \<Longrightarrow> ttl < fst (cs ! k) - u"
proof (induction cs arbitrary: s k)
  case Nil
  then show ?case by simp
next
  case (Cons c cs)
  obtain t j where c: "c = (t, j)" by (cases c)
  obtain b s1 where b: "claim t s j = (b, s1)" by (cases "claim t s j")
  show ?case
  proof (cases k)
    case 0
    with Cons.prems b c have "claim t s i = (True, s1)" by (simp split: prod.splits)
    then show ?thesis using claim_fresh Cons.prems(1) c 0 by simp
  next
    case (Suc m)
    show ?thesis
    proof (cases "ttl < t - u")
      case True
      moreover have "t \<le> fst (cs ! m)" using Cons.prems(2,3) c Suc by simp
      ultimately show ?thesis using Suc by simp
    next
      case False
      then have "claimed_at s1 i = Some u" using claim_keeps [OF b Cons.prems(1)] by simp
      moreover have "fst (run_claims claim s1 cs) ! m" using Cons.prems(5) b c Suc
        by (simp split: prod.splits)
      ultimately show ?thesis using Cons.IH [of s1 m] Cons.prems Suc by simp
    qed
  qed
qed

lemma accepted_spacing:
  "sorted (map fst cs) \<Longrightarrow> k < l \<Longrightarrow> l < length cs \<Longrightarrow> snd (cs ! k) = snd (cs ! l) \<Longrightarrow>
    fst (run_claims claim s cs) ! k \<Longrightarrow> fst (run_claims claim s cs) ! l \<Longrightarrow>
    ttl < fst (cs ! l) - fst (cs ! k)"
proof (induction cs arbitrary: s k l)
  case Nil
  then show ?case by simp
next
  case (Cons c cs)
  obtain t j where c: "c = (t, j)" by (cases c)
  obtain b s1 where b: "claim t s j = (b, s1)" by (cases "claim t s j")
  obtain m where l: "l = Suc m" using Cons.prems(2) by (cases l) auto
  have R: "fst (run_claims claim s1 cs) ! m" using Cons.prems(6) b c l by (simp split: prod.splits)
  show ?case
  proof (cases k)
    case 0
    with Cons.prems(5) b c have "claim t s j = (True, s1)" by (simp split: prod.splits)
    then have "claimed_at s1 j = Some t" by (rule claim_accepts)
    then show ?thesis using accepted_after_ttl [of s1 j t cs m] R Cons.prems c l 0 by simp
  next
    case (Suc n)
    have "fst (run_claims claim s1 cs) ! n" using Cons.prems(5) b c Suc by (simp split: prod.splits)
    then show ?thesis using Cons.IH [of n m s1] R Cons.prems c l Suc by simp
  qed
qed

end

section \<open>The memory of the client keeps the contract\<close>

lemma commandReplayTTL_bounds: "0 \<le> commandReplayTTL" "commandReplayTTL < int64_max"
  by (simp_all add: commandReplayTTL_def minute_def second_def int64_max_def)

lemma time_sub_ttl_iff: "time_sub t u > commandReplayTTL \<longleftrightarrow> t - u > commandReplayTTL"
  using time_sub_gt [of commandReplayTTL t u] time_sub_le [of t u commandReplayTTL] commandReplayTTL_bounds
  by linarith

lemma lookup_purge_expired:
  "Mapping.lookup (purge_expired now seen) i =
     (case Mapping.lookup seen i of
        None \<Rightarrow> None | Some u \<Rightarrow> if now - u > commandReplayTTL then None else Some u)"
  by (simp add: purge_expired_def lookup_filter time_sub_ttl_iff split: option.split)

interpretation memory: replay_window claimCommand Mapping.lookup commandReplayTTL
  by unfold_locales
    (auto simp: claimCommand_def Let_def lookup_purge_expired lookup_update lookup_update'
      split: if_splits option.splits)

section \<open>Bounds and acceptance\<close>

definition seen_ok :: "seen_commands \<Rightarrow> bool" where
  "seen_ok seen \<longleftrightarrow> finite (Mapping.keys seen) \<and> Mapping.size seen \<le> maxRememberedCommands"

lemma keys_purge_expired: "Mapping.keys (purge_expired now seen) \<subseteq> Mapping.keys seen"
  by (auto simp: keys_is_none_rep lookup_purge_expired split: option.splits if_splits)

lemma size_purge_expired:
  "finite (Mapping.keys seen) \<Longrightarrow> Mapping.size (purge_expired now seen) \<le> Mapping.size seen"
  using keys_purge_expired by (simp add: Mapping.size_def card_mono)

lemma claimCommand_ok: "seen_ok seen \<Longrightarrow> seen_ok (snd (claimCommand now seen i))"
proof -
  assume ok: "seen_ok seen"
  let ?p = "purge_expired now seen"
  have fin: "finite (Mapping.keys ?p)"
    using ok keys_purge_expired by (auto simp: seen_ok_def intro: finite_subset)
  have "Mapping.size ?p \<le> maxRememberedCommands"
    using ok size_purge_expired [of seen now] by (auto simp: seen_ok_def)
  moreover have "Mapping.size (Mapping.update i now ?p) \<le> Suc (Mapping.size ?p)"
    using fin by (simp add: Mapping.size_def card_insert_le_m1 card_insert_if)
  ultimately show ?thesis
    using fin by (auto simp: claimCommand_def Let_def seen_ok_def)
qed

lemma run_claims_ok: "seen_ok seen \<Longrightarrow> seen_ok (snd (run_claims claimCommand seen cs))"
proof (induction cs arbitrary: seen)
  case Nil
  then show ?case by simp
next
  case (Cons c cs)
  obtain t j where c: "c = (t, j)" by (cases c)
  show ?case
    using Cons.IH [OF claimCommand_ok [OF Cons.prems, of t j]] c
    by (cases "claimCommand t seen j") (auto split: prod.splits)
qed

lemma seen_ok_empty: "seen_ok Mapping.empty"
  by (simp add: seen_ok_def Mapping.size_def)

text \<open>
  A claim is refused only for a live entry of the same id or a full memory of live entries.
\<close>

lemma claimCommand_accepts_iff:
  "fst (claimCommand now seen i) \<longleftrightarrow>
     (\<forall>u. Mapping.lookup seen i = Some u \<longrightarrow> now - u > commandReplayTTL) \<and>
     Mapping.size (purge_expired now seen) < maxRememberedCommands"
  by (auto simp: claimCommand_def Let_def lookup_purge_expired split: option.splits if_splits)

section \<open>The abstract replay window\<close>

text \<open>
  What the memory promises, without a memory: over the whole history of accepted claims, an id is live for
  the time to live after it was accepted, and a claim is accepted exactly when its id is not live and fewer
  than the maximum of ids are.
\<close>

definition live_ids :: "instant \<Rightarrow> (instant \<times> string) list \<Rightarrow> string list" where
  "live_ids now history = remdups (map snd (filter (\<lambda>(t, i). now - t \<le> commandReplayTTL) history))"

definition window_claim :: "instant \<Rightarrow> (instant \<times> string) list \<Rightarrow> string \<Rightarrow> bool \<times> (instant \<times> string) list" where
  "window_claim now history i =
     (if i \<in> set (live_ids now history) \<or> maxRememberedCommands \<le> length (live_ids now history)
      then (False, history)
      else (True, history @ [(now, i)]))"

text \<open>A memory stands for a history from a time on, when both have the same live ids at every later time.\<close>

definition stands_for :: "instant \<Rightarrow> seen_commands \<Rightarrow> (instant \<times> string) list \<Rightarrow> bool" where
  "stands_for now seen history \<longleftrightarrow>
     (\<forall>later\<ge>now. Mapping.keys (purge_expired later seen) = set (live_ids later history))"

lemma live_ids_iff: "i \<in> set (live_ids now history) \<longleftrightarrow> (\<exists>t. (t, i) \<in> set history \<and> now - t \<le> commandReplayTTL)"
  by (force simp: live_ids_def)

lemma keys_purge_iff:
  "i \<in> Mapping.keys (purge_expired now seen) \<longleftrightarrow>
     (\<exists>u. Mapping.lookup seen i = Some u \<and> now - u \<le> commandReplayTTL)"
  by (auto simp: keys_is_none_rep lookup_purge_expired split: option.splits if_splits)

lemma stands_forD: "stands_for t seen history \<Longrightarrow> t \<le> now \<Longrightarrow>
    Mapping.keys (purge_expired now seen) = set (live_ids now history)"
  by (simp add: stands_for_def)

lemma stands_for_later: "stands_for t seen history \<Longrightarrow> t \<le> now \<Longrightarrow> stands_for now seen history"
  by (simp add: stands_for_def)

lemma stands_for_size:
  "stands_for t seen history \<Longrightarrow> t \<le> now \<Longrightarrow>
    Mapping.size (purge_expired now seen) = length (live_ids now history)"
  using distinct_card [of "live_ids now history"]
  by (simp add: Mapping.size_def stands_forD live_ids_def)

lemma purge_purge: "now \<le> later \<Longrightarrow>
    Mapping.keys (purge_expired later (purge_expired now seen)) = Mapping.keys (purge_expired later seen)"
  by (auto simp: keys_purge_iff lookup_purge_expired split: option.splits if_splits)

lemma keys_purge_update: "now \<le> later \<Longrightarrow>
    Mapping.keys (purge_expired later (Mapping.update i now (purge_expired now seen))) =
      (if later - now \<le> commandReplayTTL then insert i (Mapping.keys (purge_expired later seen))
       else Mapping.keys (purge_expired later seen) - {i})"
  by (auto simp: keys_purge_iff lookup_update' lookup_purge_expired split: option.splits if_splits)

lemma claimCommand_keys:
  "claimCommand now seen i =
     (let p = purge_expired now seen in
      if i \<in> Mapping.keys p \<or> maxRememberedCommands \<le> Mapping.size p then (False, p)
      else (True, Mapping.update i now p))"
  by (auto simp: claimCommand_def Let_def keys_is_none_rep)

lemma window_step:
  assumes "stands_for t seen history" and "t \<le> now"
    and "claimCommand now seen i = (b, seen')" and "window_claim now history i = (b', history')"
  shows "b = b' \<and> stands_for now seen' history'"
proof (cases "i \<in> set (live_ids now history) \<or> maxRememberedCommands \<le> length (live_ids now history)")
  case True
  with assms have "b = False" "b' = False" "seen' = purge_expired now seen" "history' = history"
    using stands_forD [OF assms(1,2)] stands_for_size [OF assms(1,2)]
    by (auto simp: claimCommand_keys window_claim_def Let_def)
  then show ?thesis using assms(1,2) by (simp add: stands_for_def purge_purge)
next
  case False
  with assms have r: "b = True" "b' = True" "history' = history @ [(now, i)]"
      "seen' = Mapping.update i now (purge_expired now seen)"
    using stands_forD [OF assms(1,2)] stands_for_size [OF assms(1,2)]
    by (auto simp: claimCommand_keys window_claim_def Let_def)
  have "Mapping.keys (purge_expired later seen') = set (live_ids later history')" if "now \<le> later" for later
  proof -
    have "i \<notin> set (live_ids later history)" using False that by (auto simp: live_ids_iff)
    then show ?thesis using stands_forD [OF assms(1), of later] that assms(2)
      by (auto simp: r keys_purge_update live_ids_iff)
  qed
  then show ?thesis using r by (simp add: stands_for_def)
qed

lemma window_runs:
  "stands_for t seen history \<Longrightarrow> sorted (t # map fst cs) \<Longrightarrow>
    fst (run_claims claimCommand seen cs) = fst (run_claims window_claim history cs)"
proof (induction cs arbitrary: t seen history)
  case Nil
  then show ?case by simp
next
  case (Cons c cs)
  obtain now i where c: "c = (now, i)" by (cases c)
  obtain b seen' b' history' where r: "claimCommand now seen i = (b, seen')" "window_claim now history i = (b', history')"
    by (metis surj_pair)
  have "t \<le> now" using Cons.prems(2) c by simp
  from window_step [OF Cons.prems(1) this r] have "b = b'" "stands_for now seen' history'" by simp_all
  then show ?case using Cons.IH [of now seen' history'] Cons.prems(2) c r by (auto split: prod.splits)
qed

lemma stands_for_start: "stands_for t Mapping.empty []"
  by (auto simp: stands_for_def keys_purge_iff live_ids_def)

section \<open>Properties\<close>

text \<open>
  C26: two claims of one command id that are both accepted lie more than the ten minutes of the
  replay window apart, whatever was claimed between them.
\<close>

theorem replay_spacing:
  assumes "sorted (map fst cs)" and "k < l" and "l < length cs" and "snd (cs ! k) = snd (cs ! l)"
    and "claim_results cs ! k" and "claim_results cs ! l"
  shows "commandReplayTTL < fst (cs ! l) - fst (cs ! k)"
  by (rule memory.accepted_spacing [OF assms])

text \<open>The replay memory never holds more than 4096 ids, from an empty memory on.\<close>

theorem replay_memory_bounded: "Mapping.size (snd (run_claims claimCommand Mapping.empty cs)) \<le> maxRememberedCommands"
  using run_claims_ok [OF seen_ok_empty, of cs] by (simp add: seen_ok_def)

text \<open>
  A claim is refused exactly for a live entry of the same id or a memory full of live entries;
  so an id whose entry has expired can be claimed again, and a full memory refuses new ids.
\<close>

theorem claim_accepted_iff:
  "fst (claimCommand now seen i) \<longleftrightarrow>
     (case Mapping.lookup seen i of None \<Rightarrow> True | Some u \<Rightarrow> now - u > commandReplayTTL) \<and>
     Mapping.size (purge_expired now seen) < maxRememberedCommands"
  by (auto simp: claimCommand_accepts_iff split: option.split)

theorem replay_spacing_witness:
  "claim_results [(0, ''a''), (1, ''b''), (700000000000, ''a'')] ! 0 \<and>
   claim_results [(0, ''a''), (1, ''b''), (700000000000, ''a'')] ! 2 \<and>
   commandReplayTTL < 700000000000"
proof -
  let ?cs = "[(0, ''a''), (1, ''b''), (700000000000, ''a'')] :: (instant \<times> string) list"
  have "claim_results ?cs = [True, True, True]" by code_simp
  then have r: "claim_results ?cs ! 0" "claim_results ?cs ! 2" by simp_all
  from replay_spacing [of ?cs 0 2, OF _ _ _ _ r] r show ?thesis by simp
qed

text \<open>
  C27: the memory, which is purged and bounded, answers every sequence of claims in the order of time exactly as the
  window over the full history of accepted claims does: forgetting never changes an answer.
\<close>

theorem replay_refines_window:
  assumes "sorted (map fst cs)"
  shows "claim_results cs = fst (run_claims window_claim [] cs)"
proof (cases cs)
  case (Cons c cs')
  with assms show ?thesis using window_runs [OF stands_for_start, of "fst c" cs] by simp
qed simp

theorem replay_refines_window_witness:
  "claim_results [(0, ''a''), (1, ''a''), (700000000000, ''a'')] = [True, False, True]"
proof -
  have "fst (run_claims window_claim [] [(0, ''a''), (1, ''a''), (700000000000, ''a'')]) = [True, False, True]"
    by code_simp
  with replay_refines_window [of "[(0, ''a''), (1, ''a''), (700000000000, ''a'')]"] show ?thesis by simp
qed

end
