(* ===== verification/GoErrors.thy ===== *)
theory GoErrors
  imports GoText
begin

text \<open>
  Go errors as values: the sentinels the source compares with, its own error types, the
  wrapping of \<open>fmt.Errorf("... %w ...")\<close>, and \<open>errors.Is\<close> and \<open>errors.As\<close>, which
  search the chain of wrapped errors.

  An error of code that is not part of the repository (the Kubernetes client, the network
  stack, the WebSocket package) is an \<open>ExternalError\<close>: its text, the sentinels for which
  its \<open>Is\<close> method answers true, and the error it wraps. The WebSocket close error has its
  own constructor because the client reads its code.
\<close>

datatype sentinel = Canceled | DeadlineExceeded | AccessRevoked | FlagHelp

datatype go_error =
    ErrorString string
  | WrapError string go_error
  | CodedError string go_error
  | RegistrationHTTPError int
  | JsonSyntaxError
  | JsonTypeError string string
  | CloseError int string
  | ExternalError string "sentinel list" "go_error option"
  | Sentinel sentinel

type_synonym 'a go_result = "go_error + 'a"

text \<open>The text of an error, its \<open>Error()\<close> method.\<close>

fun error_text :: "go_error \<Rightarrow> string" where
  "error_text (ErrorString s) = s"
| "error_text (WrapError s e) = s"
| "error_text (CodedError c e) = error_text e"
| "error_text (RegistrationHTTPError n) = ''registration failed with HTTP '' @ int_dec n"
| "error_text JsonSyntaxError = ''invalid JSON''"
| "error_text (JsonTypeError v t) = ''json: cannot unmarshal '' @ v @ '' into Go value of type '' @ t"
| "error_text (CloseError n s) = s"
| "error_text (ExternalError s is e) = s"
| "error_text (Sentinel Canceled) = ''context canceled''"
| "error_text (Sentinel DeadlineExceeded) = ''context deadline exceeded''"
| "error_text (Sentinel AccessRevoked) = ''agent gateway access revoked''"
| "error_text (Sentinel FlagHelp) = ''flag: help requested''"

text \<open>\<open>fmt.Errorf("prefix: %w", err)\<close>.\<close>

definition wrapf :: "string \<Rightarrow> go_error \<Rightarrow> go_error" where
  "wrapf pre e = WrapError (pre @ '': '' @ error_text e) e"

fun unwrap :: "go_error \<Rightarrow> go_error option" where
  "unwrap (WrapError s e) = Some e"
| "unwrap (CodedError c e) = Some e"
| "unwrap (ExternalError s is e) = e"
| "unwrap _ = None"

text \<open>The error itself and everything it wraps, outermost first.\<close>

fun error_chain :: "go_error \<Rightarrow> go_error list" where
  "error_chain (WrapError s e) = WrapError s e # error_chain e"
| "error_chain (CodedError c e) = CodedError c e # error_chain e"
| "error_chain (ExternalError s is (Some e)) = ExternalError s is (Some e) # error_chain e"
| "error_chain e = [e]"

fun matches_sentinel :: "sentinel \<Rightarrow> go_error \<Rightarrow> bool" where
  "matches_sentinel s (Sentinel s') = (s = s')"
| "matches_sentinel s (ExternalError t is e) = (s \<in> set is)"
| "matches_sentinel s _ = False"

definition errors_is :: "go_error \<Rightarrow> sentinel \<Rightarrow> bool" where
  "errors_is e s = list_ex (matches_sentinel s) (error_chain e)"

text \<open>The first coded error, registration HTTP error and close error of the chain.\<close>

fun as_coded :: "go_error \<Rightarrow> (string \<times> go_error) option" where
  "as_coded (CodedError c e) = Some (c, e)"
| "as_coded (WrapError s e) = as_coded e"
| "as_coded (ExternalError s is (Some e)) = as_coded e"
| "as_coded _ = None"

fun as_registration_http :: "go_error \<Rightarrow> int option" where
  "as_registration_http (RegistrationHTTPError n) = Some n"
| "as_registration_http (CodedError c e) = as_registration_http e"
| "as_registration_http (WrapError s e) = as_registration_http e"
| "as_registration_http (ExternalError s is (Some e)) = as_registration_http e"
| "as_registration_http _ = None"

fun as_close_error :: "go_error \<Rightarrow> int option" where
  "as_close_error (CloseError n s) = Some n"
| "as_close_error (CodedError c e) = as_close_error e"
| "as_close_error (WrapError s e) = as_close_error e"
| "as_close_error (ExternalError s is (Some e)) = as_close_error e"
| "as_close_error _ = None"

section \<open>Facts\<close>

lemma errors_is_simps [simp, err_simps]:
  "errors_is (ErrorString t) s = False"
  "errors_is (WrapError t e) s = errors_is e s"
  "errors_is (CodedError c e) s = errors_is e s"
  "errors_is (RegistrationHTTPError n) s = False"
  "errors_is JsonSyntaxError s = False"
  "errors_is (JsonTypeError v ty) s = False"
  "errors_is (CloseError n t) s = False"
  "errors_is (ExternalError t is None) s = (s \<in> set is)"
  "errors_is (ExternalError t is (Some e)) s = (s \<in> set is \<or> errors_is e s)"
  "errors_is (Sentinel s') s = (s = s')"
  by (simp_all add: errors_is_def)

lemma wrapf_simps [simp, err_simps]:
  "errors_is (wrapf p e) s = errors_is e s"
  "as_coded (wrapf p e) = as_coded e"
  "as_registration_http (wrapf p e) = as_registration_http e"
  "as_close_error (wrapf p e) = as_close_error e"
  "error_text (wrapf p e) = p @ '': '' @ error_text e"
  by (simp_all add: wrapf_def)

lemma error_chain_unwrap:
  "error_chain e = e # (case unwrap e of None \<Rightarrow> [] | Some e' \<Rightarrow> error_chain e')"
  by (induction e rule: error_chain.induct) simp_all

end
