(* ===== verification/Security.thy ===== *)
theory Security
  imports GoErrors
begin

text \<open>
  The package \<open>internal/security\<close>: the namespace guard (\<open>allowlist.go\<close>), the log limits
  (\<open>limits.go\<close>) and the redaction of secrets (\<open>redaction.go\<close>). The guard's two maps with
  empty values are sets; a nil \<open>denied\<close> slice, which selects the built-in list, is \<open>None\<close>.

  The locale \<open>namespace_guard\<close> is what the command router relies on; it is interpreted on
  \<open>Check\<close> and \<open>AllowedNamespaces\<close> below.
\<close>

section \<open>The namespace guard\<close>

definition defaultDeniedNamespaces :: "string list" where
  "defaultDeniedNamespaces = [''kube-system'', ''kube-public'', ''kube-node-lease'']"

record NamespaceGuard =
  allowlist :: "string set"
  denylist :: "string set"

text \<open>The loop that inserts the non-empty names of a slice into a map.\<close>

fun insert_names :: "string list \<Rightarrow> string set \<Rightarrow> string set" where
  "insert_names [] m = m"
| "insert_names (n # ns) m = insert_names ns (if n \<noteq> [] then insert n m else m)"

definition NewNamespaceGuard :: "string list \<Rightarrow> string list option \<Rightarrow> NamespaceGuard" where
  "NewNamespaceGuard allowed denied =
     (let denied' = (case denied of None \<Rightarrow> defaultDeniedNamespaces | Some d \<Rightarrow> d)
      in \<lparr>allowlist = insert_names allowed {}, denylist = insert_names denied' {}\<rparr>)"

definition Check :: "NamespaceGuard \<Rightarrow> string \<Rightarrow> go_error option" where
  "Check g namespace =
     (if namespace = [] then None
      else if namespace \<in> denylist g
        then Some (ErrorString (''namespace '' @ go_quote namespace @ '' is denied''))
      else if allowlist g = {} then None
      else if namespace \<notin> allowlist g
        then Some (ErrorString (''namespace '' @ go_quote namespace @ '' is not allowed''))
      else None)"

definition Filter_namespaces :: "NamespaceGuard \<Rightarrow> string list \<Rightarrow> string list" where
  "Filter_namespaces g namespaces = filter (\<lambda>n. Check g n = None) namespaces"

text \<open>
  \<open>AllowedNamespaces\<close> ranges over the allowlist map in an order that Go leaves open, keeps
  the names that pass \<open>Check\<close> and sorts them. \<open>AllowedNamespaces_in\<close> takes that order as an
  argument; \<open>AllowedNamespaces\<close> is its value, which does not depend on it
  (\<open>AllowedNamespaces_order\<close>).
\<close>

definition AllowedNamespaces_in :: "string list \<Rightarrow> NamespaceGuard \<Rightarrow> string list" where
  "AllowedNamespaces_in order g = sort (filter (\<lambda>n. Check g n = None) order)"

definition AllowedNamespaces :: "NamespaceGuard \<Rightarrow> string list" where
  "AllowedNamespaces g = AllowedNamespaces_in (sorted_list_of_set (allowlist g)) g"

subsection \<open>Facts of the guard\<close>

lemma insert_names_set: "insert_names ns m = m \<union> {n \<in> set ns. n \<noteq> []}"
  by (induction ns arbitrary: m) auto

lemma allowlist_New [simp, guard_simps]:
  "allowlist (NewNamespaceGuard a d) = {n \<in> set a. n \<noteq> []}"
  by (simp add: NewNamespaceGuard_def insert_names_set)

lemma denylist_New [simp, guard_simps]:
  "denylist (NewNamespaceGuard a d) =
     {n \<in> set (case d of None \<Rightarrow> defaultDeniedNamespaces | Some x \<Rightarrow> x). n \<noteq> []}"
  by (simp add: NewNamespaceGuard_def insert_names_set)

lemma Check_None_iff [guard_simps]:
  "Check g n = None \<longleftrightarrow> n = [] \<or> n \<notin> denylist g \<and> (allowlist g = {} \<or> n \<in> allowlist g)"
  by (simp add: Check_def)

lemma Check_empty [simp]: "Check g [] = None"
  by (simp add: Check_def)

lemma AllowedNamespaces_order:
  assumes "distinct order" and "set order = allowlist g"
  shows "AllowedNamespaces_in order g = AllowedNamespaces g"
proof -
  have "finite (allowlist g)" using assms(2) by (metis List.finite_set)
  with assms show ?thesis
    unfolding AllowedNamespaces_def AllowedNamespaces_in_def
    by (intro sorted_distinct_set_unique) auto
qed

lemma set_AllowedNamespaces [guard_simps]:
  "finite (allowlist g) \<Longrightarrow> set (AllowedNamespaces g) = {n \<in> allowlist g. Check g n = None}"
  by (auto simp: AllowedNamespaces_def AllowedNamespaces_in_def)

lemma AllowedNamespaces_sorted: "sorted (AllowedNamespaces g)" "distinct (AllowedNamespaces g)"
  by (simp_all add: AllowedNamespaces_def AllowedNamespaces_in_def)

lemma finite_allowlist_New [simp, intro]: "finite (allowlist (NewNamespaceGuard a d))"
  by simp

subsection \<open>The interface the router uses\<close>

text \<open>
  A request names a namespace, or the empty string for every namespace of the inventory. The
  namespaces it reaches are then the named one or the whole inventory; \<open>permitted\<close> ones pass
  the guard and have a name.
\<close>

definition fan_out :: "string list \<Rightarrow> string \<Rightarrow> string list" where
  "fan_out inventory namespace = (if namespace = [] then inventory else [namespace])"

definition permitted :: "(string \<Rightarrow> go_error option) \<Rightarrow> string \<Rightarrow> bool" where
  "permitted check namespace \<longleftrightarrow> namespace \<noteq> [] \<and> check namespace = None"

locale namespace_guard =
  fixes check :: "string \<Rightarrow> go_error option"
    and inventory :: "string list"
  assumes check_all: "check [] = None"
    and inventory_checked: "n \<in> set inventory \<Longrightarrow> check n = None"
    and inventory_named: "n \<in> set inventory \<Longrightarrow> n \<noteq> []"
    and inventory_distinct: "distinct inventory"
begin

lemma fan_out_permitted:
  "check namespace = None \<Longrightarrow> n \<in> set (fan_out inventory namespace) \<Longrightarrow> permitted check n"
  by (auto simp: fan_out_def permitted_def inventory_checked inventory_named split: if_splits)

lemma fan_out_distinct: "distinct (fan_out inventory namespace)"
  by (simp add: fan_out_def inventory_distinct)

lemma named_permitted: "namespace \<noteq> [] \<Longrightarrow> check namespace = None \<Longrightarrow> permitted check namespace"
  by (simp add: permitted_def)

end

interpretation guard: namespace_guard
  "Check (NewNamespaceGuard a d)" "AllowedNamespaces (NewNamespaceGuard a d)" for a d
proof
  fix n
  assume "n \<in> set (AllowedNamespaces (NewNamespaceGuard a d))"
  then have "n \<noteq> [] \<and> Check (NewNamespaceGuard a d) n = None"
    by (simp add: set_AllowedNamespaces)
  then show "Check (NewNamespaceGuard a d) n = None" and "n \<noteq> []" by simp_all
qed (simp_all add: AllowedNamespaces_sorted)

section \<open>The log limits\<close>

record Limits =
  DefaultTailLines :: int64
  MaxTailLines :: int64
  MaxLogBytes :: int64

definition TailLines :: "Limits \<Rightarrow> int64 \<Rightarrow> int64" where
  "TailLines l requested =
     (if requested \<le>s 0 then DefaultTailLines l
      else if MaxTailLines l <s requested then MaxTailLines l
      else requested)"

definition TruncateLog :: "Limits \<Rightarrow> string \<Rightarrow> string \<times> bool" where
  "TruncateLog l logs =
     (if MaxLogBytes l \<le>s 0 \<or> int (length logs) \<le> sint (MaxLogBytes l) then (logs, False)
      else (take (nat (sint (MaxLogBytes l))) logs, True))"

text \<open>The limits that the configuration accepts (\<open>Config.Validate\<close>).\<close>

definition limits_ok :: "Limits \<Rightarrow> bool" where
  "limits_ok l \<longleftrightarrow> 0 <s MaxTailLines l \<and> 0 <s DefaultTailLines l \<and>
     DefaultTailLines l \<le>s MaxTailLines l \<and> 0 <s MaxLogBytes l"

lemma TailLines_bounds:
  assumes "limits_ok l"
  shows "0 < sint (TailLines l r)" and "sint (TailLines l r) \<le> sint (MaxTailLines l)"
  using assms by (auto simp: TailLines_def limits_ok_def i64_simps)

lemma TruncateLog_bound:
  assumes "0 <s MaxLogBytes l"
  shows "int (length (fst (TruncateLog l s))) \<le> sint (MaxLogBytes l)"
  using assms by (auto simp: TruncateLog_def i64_simps)

lemma TruncateLog_flag: "snd (TruncateLog l s) \<longleftrightarrow> fst (TruncateLog l s) \<noteq> s"
  by (auto simp: TruncateLog_def i64_simps)

section \<open>Redaction\<close>

definition redacted :: string where
  "redacted = ''[REDACTED]''"

fun Redact :: "string \<Rightarrow> string list \<Rightarrow> string" where
  "Redact out [] = out"
| "Redact out (secret # secrets) =
     (if secret = [] then Redact out secrets
      else Redact (ReplaceAll secret redacted out) secrets)"

subsection \<open>No redacted text comes back\<close>

text \<open>
  The replacement text contains brackets. A text without brackets therefore lies inside one of
  the pieces between the replacement marks, or inside the word \<open>REDACTED\<close>.
\<close>

definition redactable :: "string \<Rightarrow> bool" where
  "redactable s \<longleftrightarrow> s \<noteq> [] \<and> CHR ''['' \<notin> set s \<and> CHR '']'' \<notin> set s \<and> \<not> sublist s ''REDACTED''"

lemma sublist_separator:
  assumes "c \<notin> set s"
  shows "sublist s (xs @ c # ys) \<longleftrightarrow> sublist s xs \<or> sublist s ys"
proof
  assume "sublist s (xs @ c # ys)"
  then obtain ps ss where E: "xs @ c # ys = ps @ s @ ss" by (auto simp: sublist_def)
  from E consider us where "xs = ps @ us" "us @ c # ys = s @ ss"
    | us where "ps = xs @ us" "c # ys = us @ s @ ss"
    by (auto simp: append_eq_append_conv2)
  then show "sublist s xs \<or> sublist s ys"
  proof cases
    case 1
    then consider vs where "us = s @ vs" | vs where "s = us @ vs" "c # ys = vs @ ss"
      by (auto simp: append_eq_append_conv2)
    then show ?thesis
    proof cases
      case 1
      with \<open>xs = ps @ us\<close> show ?thesis by (auto simp: sublist_def)
    next
      case 2
      with assms have "vs = []" by (cases vs) auto
      with 2 \<open>xs = ps @ us\<close> have "sublist s xs" by (simp add: suffix_imp_sublist)
      then show ?thesis ..
    qed
  next
    case 2
    show ?thesis
    proof (cases us)
      case Nil
      with 2 assms have "s = []" by (cases s) auto
      then show ?thesis by simp
    next
      case (Cons u us')
      with 2 have "sublist s ys" by (auto simp: sublist_def)
      then show ?thesis ..
    qed
  qed
next
  assume "sublist s xs \<or> sublist s ys"
  then show "sublist s (xs @ c # ys)"
    by (metis append_Cons append_Nil sublist_appendI sublist_append_leftI sublist_append_rightI sublist_order.order_trans)
qed

lemma redacted_split: "redacted @ xs = CHR ''['' # ''REDACTED'' @ CHR '']'' # xs"
  by (simp add: redacted_def)

lemma sublist_redacted:
  assumes "redactable s"
  shows "sublist s (p @ redacted @ xs) \<longleftrightarrow> sublist s p \<or> sublist s xs"
proof -
  have "sublist s (p @ redacted @ xs) \<longleftrightarrow> sublist s p \<or> sublist s (''REDACTED'' @ CHR '']'' # xs)"
    using assms unfolding redacted_split by (intro sublist_separator) (simp add: redactable_def)
  also have "sublist s (''REDACTED'' @ CHR '']'' # xs) \<longleftrightarrow> sublist s ''REDACTED'' \<or> sublist s xs"
    using assms by (intro sublist_separator) (simp add: redactable_def)
  finally show ?thesis using assms by (simp add: redactable_def)
qed

lemma ReplaceAll_keeps_absent:
  assumes "redactable s"
  shows "new = redacted \<Longrightarrow> sublist s (p @ ReplaceAll old new v) \<Longrightarrow> sublist s (p @ v)"
proof (induction old new v arbitrary: p rule: ReplaceAll.induct)
  case (1 old new)
  then show ?case by simp
next
  case (2 old new c cs)
  let ?rest = "drop (length old) (c # cs)"
  show ?case
  proof (cases "old \<noteq> [] \<and> prefix old (c # cs)")
    case True
    with "2.prems" have "sublist s p \<or> sublist s (ReplaceAll old new ?rest)"
      by (simp add: sublist_redacted [OF assms])
    then have "sublist s p \<or> sublist s ?rest"
      using "2.IH"(1) [OF True "2.prems"(1), of "[]"] by auto
    moreover have "sublist ?rest (p @ c # cs)" "sublist p (p @ c # cs)"
      by (meson sublist_append_leftI sublist_drop sublist_order.order_trans) simp
    ultimately show ?thesis using sublist_order.order_trans by blast
  next
    case False
    with "2.prems" have "sublist s ((p @ [c]) @ ReplaceAll old new cs)" by simp
    from "2.IH"(2) [OF False "2.prems"(1) this] show ?thesis by simp
  qed
qed

lemma ReplaceAll_removes:
  assumes "redactable s"
  shows "old = s \<Longrightarrow> new = redacted \<Longrightarrow>
    (\<And>q. q \<noteq> [] \<Longrightarrow> suffix q p \<Longrightarrow> \<not> prefix s (q @ v)) \<Longrightarrow>
    \<not> sublist s (p @ ReplaceAll old new v)"
proof (induction old new v arbitrary: p rule: ReplaceAll.induct)
  case (1 old new)
  have "\<not> prefix s q" if "suffix q p" for q
    using that "1.prems"(3) [of q] assms by (cases q) (auto simp: redactable_def)
  then show ?case by (auto simp: sublist_altdef')
next
  case (2 old new c cs)
  have no_p: "\<not> sublist s p"
  proof
    assume "sublist s p"
    then obtain q where q: "suffix q p" "prefix s q" by (auto simp: sublist_altdef')
    then have "q \<noteq> []" using assms by (auto simp: redactable_def)
    with q "2.prems"(3) [of q] show False by simp
  qed
  show ?case
  proof (cases "old \<noteq> [] \<and> prefix old (c # cs)")
    case True
    from "2.IH"(1) [OF True "2.prems"(1,2), of "[]"]
    have "\<not> sublist s ([] @ ReplaceAll old new (drop (length old) (c # cs)))" by simp
    with True no_p "2.prems"(2) show ?thesis by (simp add: sublist_redacted [OF assms])
  next
    case False
    have "\<not> prefix s (q @ cs)" if q: "q \<noteq> []" "suffix q (p @ [c])" for q
    proof -
      from q obtain q' where "q = q' @ [c]" "suffix q' p" by (auto simp: suffix_snoc)
      then show ?thesis
        using "2.prems"(1) "2.prems"(3) [of q'] False assms
        by (cases "q' = []") (auto simp: redactable_def)
    qed
    then have "\<not> sublist s ((p @ [c]) @ ReplaceAll old new cs)"
      using "2.IH"(2) [OF False "2.prems"(1,2), of "p @ [c]"] by blast
    with False show ?thesis by auto
  qed
qed

lemma Redact_keeps_absent: "redactable s \<Longrightarrow> sublist s (Redact v secrets) \<Longrightarrow> sublist s v"
proof (induction v secrets rule: Redact.induct)
  case (1 out)
  then show ?case by simp
next
  case (2 out secret secrets)
  then show ?case
    using ReplaceAll_keeps_absent [of s redacted "[]" secret out] by (auto split: if_splits)
qed

lemma Redact_removes: "redactable s \<Longrightarrow> s \<in> set secrets \<Longrightarrow> \<not> sublist s (Redact v secrets)"
proof (induction v secrets rule: Redact.induct)
  case (1 out)
  then show ?case by simp
next
  case (2 out secret secrets)
  show ?case
  proof (cases "s = secret")
    case True
    then have "\<not> sublist s (ReplaceAll s redacted out)"
      using ReplaceAll_removes [OF "2.prems"(1), of s redacted "[]" out] by simp
    then show ?thesis
      using True "2.prems"(1) Redact_keeps_absent by (auto simp: redactable_def)
  next
    case False
    with 2 show ?thesis by (auto split: if_splits)
  qed
qed

section \<open>Properties\<close>


text \<open>
  The inventory does not depend on the order in which Go ranges over the allowlist map. It is
  sorted, without duplicates, and holds exactly the permitted names of the configured allowlist.
\<close>

theorem allowed_namespaces_inventory:
  assumes "distinct order" and "set order = allowlist (NewNamespaceGuard a d)"
  shows "AllowedNamespaces_in order (NewNamespaceGuard a d) = AllowedNamespaces (NewNamespaceGuard a d) \<and>
    sorted (AllowedNamespaces (NewNamespaceGuard a d)) \<and>
    distinct (AllowedNamespaces (NewNamespaceGuard a d)) \<and>
    set (AllowedNamespaces (NewNamespaceGuard a d)) = {n \<in> set a. permitted (Check (NewNamespaceGuard a d)) n}"
  using AllowedNamespaces_order [OF assms]
  by (auto simp: AllowedNamespaces_sorted set_AllowedNamespaces permitted_def)

theorem allowed_namespaces_inventory_witness:
  "AllowedNamespaces_in [''shop'', ''kube-system'', ''api'']
      (NewNamespaceGuard [''shop'', [], ''kube-system'', ''api'', ''shop''] None) =
    AllowedNamespaces (NewNamespaceGuard [''shop'', [], ''kube-system'', ''api'', ''shop''] None)"
proof -
  have "set [''shop'', ''kube-system'', ''api''] =
      allowlist (NewNamespaceGuard [''shop'', [], ''kube-system'', ''api'', ''shop''] None)"
    by (auto simp: guard_simps)
  from allowed_namespaces_inventory [OF _ this] show ?thesis by simp
qed

text \<open>
  Under limits that the configuration accepts, the number of log lines asked of the cluster is
  positive and at most the configured maximum, whatever the command requests, and is the
  requested number when that is within these bounds.
\<close>

theorem tail_lines_bounded:
  assumes "limits_ok l"
  shows "0 < sint (TailLines l r) \<and> sint (TailLines l r) \<le> sint (MaxTailLines l) \<and>
    (TailLines l r = r \<or> sint r \<le> 0 \<or> sint (MaxTailLines l) < sint r)"
  using TailLines_bounds [OF assms, of r] by (auto simp: TailLines_def i64_simps)

theorem tail_lines_bounded_witness:
  "0 < sint (TailLines \<lparr>DefaultTailLines = 200, MaxTailLines = 1000, MaxLogBytes = 524288\<rparr> 5000)"
  using tail_lines_bounded [of "\<lparr>DefaultTailLines = 200, MaxTailLines = 1000, MaxLogBytes = 524288\<rparr>" 5000]
  by (simp add: limits_ok_def word_sless_alt word_sle_eq)

text \<open>
  A log cut by \<open>TruncateLog\<close> is a prefix of the log, has at most \<open>MaxLogBytes\<close> bytes, and the
  flag says whether bytes were dropped.
\<close>

theorem truncate_log_cuts:
  assumes "0 <s MaxLogBytes l"
  shows "prefix (fst (TruncateLog l s)) s \<and>
    int (length (fst (TruncateLog l s))) \<le> sint (MaxLogBytes l) \<and>
    (snd (TruncateLog l s) \<longleftrightarrow> sint (MaxLogBytes l) < int (length s))"
  using TruncateLog_bound [OF assms, of s] assms
  by (auto simp: TruncateLog_def i64_simps take_is_prefix)

theorem truncate_log_cuts_witness:
  "snd (TruncateLog \<lparr>DefaultTailLines = 1, MaxTailLines = 1, MaxLogBytes = 3\<rparr> ''abcd'')"
  using truncate_log_cuts [of "\<lparr>DefaultTailLines = 1, MaxTailLines = 1, MaxLogBytes = 3\<rparr>" "''abcd''"]
  by (simp add: word_sless_alt)

text \<open>
  A secret in the list given to \<open>Redact\<close> does not occur in the result, and neither does a text
  that did not occur before: redaction never builds a secret from its pieces. This is for texts
  without brackets that are not part of the word \<open>REDACTED\<close>; for others it is false, since the
  replacement itself contains them.
\<close>

theorem redact_removes_secrets:
  assumes "redactable s" and "s \<in> set secrets \<or> \<not> sublist s v"
  shows "\<not> sublist s (Redact v secrets)"
  using assms Redact_removes Redact_keeps_absent by blast

theorem redact_removes_secrets_witness:
  "\<not> sublist ''tok1'' (Redact ''a tok1 b tok12'' [''tok12'', ''tok1''])"
  by (rule redact_removes_secrets) (simp_all add: redactable_def sublist_code)

end
