(* ===== verification/GoJson.thy ===== *)
theory GoJson
  imports GoErrors
begin

text \<open>
  The part of \<open>encoding/json\<close> the source uses. \<open>parse_json\<close> reads the bytes of a message
  into a tree, with the scanner's grammar, its limit of 10000 nested values, the escapes of
  strings and the replacement of invalid UTF-8. The decoders then store a tree into Go
  variables with the rules of \<open>Unmarshal\<close>: keys match the field names of a struct up to case
  folding, a later key overwrites an earlier one, \<open>null\<close> leaves the variable as it is, a value
  of the wrong type is skipped, and the first such mismatch is the error that is returned in
  the end.

  The text of a syntax error and the names of the struct and the field in the text of a type
  error are not modelled. A raw message (\<open>json.RawMessage\<close>) is the tree of its bytes.
\<close>

datatype json =
    JNull
  | JBool bool
  | JNum string
  | JStr string
  | JArr "json list"
  | JObj "(string \<times> json) list"

section \<open>Scanning text\<close>

definition is_ws :: "char \<Rightarrow> bool" where
  "is_ws c \<longleftrightarrow> c = CHR 0x20 \<or> c = CHR 0x09 \<or> c = CHR 0x0A \<or> c = CHR 0x0D"

definition skip_ws :: "string \<Rightarrow> string" where
  "skip_ws s = dropWhile is_ws s"

subsection \<open>Numbers\<close>

text \<open>The digits of a number part: at least one.\<close>

definition take_digits :: "string \<Rightarrow> (string \<times> string) option" where
  "take_digits s =
     (let ds = takeWhile is_digit s in
      if ds = [] then None else Some (ds, dropWhile is_digit s))"

definition take_int :: "string \<Rightarrow> (string \<times> string) option" where
  "take_int s =
     (case s of
        [] \<Rightarrow> None
      | c # cs \<Rightarrow> if c = CHR ''0'' then Some ([c], cs) else take_digits s)"

definition take_frac :: "string \<Rightarrow> (string \<times> string) option" where
  "take_frac s =
     (case s of
        [] \<Rightarrow> Some ([], s)
      | c # cs \<Rightarrow>
          if c = CHR ''.'' then map_option (\<lambda>(ds, r). (c # ds, r)) (take_digits cs)
          else Some ([], s))"

definition take_exp :: "string \<Rightarrow> (string \<times> string) option" where
  "take_exp s =
     (case s of
        [] \<Rightarrow> Some ([], s)
      | c # cs \<Rightarrow>
          if c = CHR ''e'' \<or> c = CHR ''E''
          then (case cs of
                  [] \<Rightarrow> None
                | d # ds \<Rightarrow>
                    if d = CHR ''+'' \<or> d = CHR ''-''
                    then map_option (\<lambda>(es, r). (c # d # es, r)) (take_digits ds)
                    else map_option (\<lambda>(es, r). (c # es, r)) (take_digits cs))
          else Some ([], s))"

definition parse_number :: "string \<Rightarrow> (string \<times> string) option" where
  "parse_number s =
     (let (sign, body) = (if s \<noteq> [] \<and> hd s = CHR ''-'' then ([CHR ''-''], tl s) else ([], s))
      in case take_int body of
           None \<Rightarrow> None
         | Some (i, r1) \<Rightarrow>
             (case take_frac r1 of
                None \<Rightarrow> None
              | Some (f, r2) \<Rightarrow>
                  (case take_exp r2 of
                     None \<Rightarrow> None
                   | Some (x, r3) \<Rightarrow> Some (sign @ i @ f @ x, r3))))"

subsection \<open>Strings\<close>

definition hex_val :: "char \<Rightarrow> nat option" where
  "hex_val c =
     (if CHR ''0'' \<le> c \<and> c \<le> CHR ''9'' then Some (of_char c - 48)
      else if CHR ''a'' \<le> c \<and> c \<le> CHR ''f'' then Some (of_char c - 87)
      else if CHR ''A'' \<le> c \<and> c \<le> CHR ''F'' then Some (of_char c - 55)
      else None)"

fun hex4 :: "string \<Rightarrow> (nat \<times> string) option" where
  "hex4 (a # b # c # d # r) =
     (case (hex_val a, hex_val b, hex_val c, hex_val d) of
        (Some w, Some x, Some y, Some z) \<Rightarrow> Some (4096 * w + 256 * x + 16 * y + z, r)
      | _ \<Rightarrow> None)"
| "hex4 _ = None"

definition encode_rune :: "nat \<Rightarrow> string" where
  "encode_rune n =
     (if n < 128 then [char_of n]
      else if n < 2048 then [char_of (192 + n div 64), char_of (128 + n mod 64)]
      else if n < 65536 then
        [char_of (224 + n div 4096), char_of (128 + n div 64 mod 64), char_of (128 + n mod 64)]
      else [char_of (240 + n div 262144), char_of (128 + n div 4096 mod 64),
            char_of (128 + n div 64 mod 64), char_of (128 + n mod 64)])"

definition replacement :: string where
  "replacement = [CHR 0xEF, CHR 0xBF, CHR 0xBD]"

definition cont :: "char \<Rightarrow> bool" where
  "cont c \<longleftrightarrow> CHR 0x80 \<le> c \<and> c \<le> CHR 0xBF"

definition between :: "char \<Rightarrow> char \<Rightarrow> char \<Rightarrow> bool" where
  "between lo hi c \<longleftrightarrow> lo \<le> c \<and> c \<le> hi"

text \<open>
  The number of bytes of the valid UTF-8 sequence at the front, 0 where there is none
  (\<open>utf8.DecodeRune\<close> then reports an error of width 1).
\<close>

fun utf8_width :: "string \<Rightarrow> nat" where
  "utf8_width [] = 0"
| "utf8_width (a # s) =
     (if a < CHR 0x80 then 1
      else if between (CHR 0xC2) (CHR 0xDF) a
        then (case s of b # _ \<Rightarrow> if cont b then 2 else 0 | _ \<Rightarrow> 0)
      else if between (CHR 0xE0) (CHR 0xEF) a
        then (case s of
                b # c # _ \<Rightarrow>
                  if cont b \<and> cont c \<and> (a = CHR 0xE0 \<longrightarrow> CHR 0xA0 \<le> b) \<and> (a = CHR 0xED \<longrightarrow> b \<le> CHR 0x9F)
                  then 3 else 0
              | _ \<Rightarrow> 0)
      else if between (CHR 0xF0) (CHR 0xF4) a
        then (case s of
                b # c # d # _ \<Rightarrow>
                  if cont b \<and> cont c \<and> cont d \<and> (a = CHR 0xF0 \<longrightarrow> CHR 0x90 \<le> b) \<and> (a = CHR 0xF4 \<longrightarrow> b \<le> CHR 0x8F)
                  then 4 else 0
              | _ \<Rightarrow> 0)
      else 0)"

definition simple_escape :: "char \<Rightarrow> char option" where
  "simple_escape e =
     (if e = CHR 0x22 \<or> e = CHR 0x5C \<or> e = CHR ''/'' then Some e
      else if e = CHR ''b'' then Some (CHR 0x08)
      else if e = CHR ''f'' then Some (CHR 0x0C)
      else if e = CHR ''n'' then Some (CHR 0x0A)
      else if e = CHR ''r'' then Some (CHR 0x0D)
      else if e = CHR ''t'' then Some (CHR 0x09)
      else None)"

definition is_surrogate :: "nat \<Rightarrow> bool" where
  "is_surrogate n \<longleftrightarrow> 0xD800 \<le> n \<and> n < 0xE000"

text \<open>
  The character of a \<open>u\<close> escape with value \<open>u\<close> and the text after it: a surrogate pair is
  joined, a lone surrogate becomes the replacement character.
\<close>

definition unicode_escape :: "nat \<Rightarrow> string \<Rightarrow> string \<times> string" where
  "unicode_escape u r =
     (if is_surrogate u
      then (case (if prefix [CHR 0x5C, CHR ''u''] r then hex4 (drop 2 r) else None) of
              Some (v, r') \<Rightarrow>
                if u < 0xDC00 \<and> 0xDC00 \<le> v \<and> v < 0xE000
                then (encode_rune (0x10000 + (u - 0xD800) * 1024 + (v - 0xDC00)), r')
                else (replacement, r)
            | None \<Rightarrow> (replacement, r))
      else (encode_rune u, r))"

lemma hex4_shorter: "hex4 s = Some (n, r) \<Longrightarrow> length r < length s"
  by (induction s rule: hex4.induct) (auto split: option.splits)

lemma unicode_escape_shorter: "length (snd (unicode_escape u r)) \<le> length r"
proof -
  have "hex4 (drop 2 r) = Some (v, r') \<Longrightarrow> length r' \<le> length r" for v r'
    using hex4_shorter [of "drop 2 r" v r'] by simp
  then show ?thesis by (auto simp: unicode_escape_def split: option.splits)
qed

text \<open>The rest of a string after its opening quote: its value and the text after it.\<close>

function parse_string :: "string \<Rightarrow> (string \<times> string) option" where
  "parse_string [] = None"
| "parse_string (c # cs) =
     (if c = CHR 0x22 then Some ([], cs)
      else if c = CHR 0x5C
        then (case cs of
                [] \<Rightarrow> None
              | e # es \<Rightarrow>
                  if e = CHR ''u''
                  then (case hex4 es of
                          None \<Rightarrow> None
                        | Some ur \<Rightarrow>
                            map_option (\<lambda>(v, r). (fst (unicode_escape (fst ur) (snd ur)) @ v, r))
                              (parse_string (snd (unicode_escape (fst ur) (snd ur)))))
                  else (case simple_escape e of
                          None \<Rightarrow> None
                        | Some x \<Rightarrow> map_option (\<lambda>(v, r). (x # v, r)) (parse_string es)))
      else if c < CHR 0x20 then None
      else if utf8_width (c # cs) = 0
        then map_option (\<lambda>(v, r). (replacement @ v, r)) (parse_string cs)
      else map_option (\<lambda>(v, r). (take (utf8_width (c # cs)) (c # cs) @ v, r))
             (parse_string (drop (utf8_width (c # cs)) (c # cs))))"
  by pat_completeness auto
termination
proof (relation "measure length", goal_cases)
  case (2 c cs e es ur)
  then have "length (snd ur) < length es"
    using hex4_shorter [of es "fst ur" "snd ur"] by simp
  then show ?case
    using 2 unicode_escape_shorter [of "fst ur" "snd ur"] by simp
qed auto

declare parse_string.simps(2) [simp del]

subsection \<open>Values\<close>

definition max_nesting :: nat where
  "max_nesting = 10000"

fun parse_value :: "nat \<Rightarrow> nat \<Rightarrow> string \<Rightarrow> (json \<times> string) option"
  and parse_elems :: "nat \<Rightarrow> nat \<Rightarrow> string \<Rightarrow> (json list \<times> string) option"
  and parse_members :: "nat \<Rightarrow> nat \<Rightarrow> string \<Rightarrow> ((string \<times> json) list \<times> string) option"
where
  "parse_value 0 d s = None"
| "parse_value (Suc f) d s =
     (case s of
        [] \<Rightarrow> None
      | c # cs \<Rightarrow>
          if c = CHR 0x22 then map_option (\<lambda>(v, r). (JStr v, r)) (parse_string cs)
          else if c = CHR ''{'' then
            (if d = 0 then None
             else (case skip_ws cs of
                     [] \<Rightarrow> None
                   | x # xs \<Rightarrow>
                       if x = CHR ''}'' then Some (JObj [], xs)
                       else map_option (\<lambda>(ms, r). (JObj ms, r)) (parse_members f (d - 1) (x # xs))))
          else if c = CHR ''['' then
            (if d = 0 then None
             else (case skip_ws cs of
                     [] \<Rightarrow> None
                   | x # xs \<Rightarrow>
                       if x = CHR '']'' then Some (JArr [], xs)
                       else map_option (\<lambda>(es, r). (JArr es, r)) (parse_elems f (d - 1) (x # xs))))
          else if prefix ''null'' s then Some (JNull, drop 4 s)
          else if prefix ''true'' s then Some (JBool True, drop 4 s)
          else if prefix ''false'' s then Some (JBool False, drop 5 s)
          else map_option (\<lambda>(n, r). (JNum n, r)) (parse_number s))"
| "parse_elems 0 d s = None"
| "parse_elems (Suc f) d s =
     (case parse_value f d s of
        None \<Rightarrow> None
      | Some (v, r) \<Rightarrow>
          (case skip_ws r of
             [] \<Rightarrow> None
           | c # cs \<Rightarrow>
               if c = CHR '']'' then Some ([v], cs)
               else if c = CHR '',''
                 then map_option (\<lambda>(vs, r'). (v # vs, r')) (parse_elems f d (skip_ws cs))
               else None))"
| "parse_members 0 d s = None"
| "parse_members (Suc f) d s =
     (case s of
        [] \<Rightarrow> None
      | q # qs \<Rightarrow>
          if q \<noteq> CHR 0x22 then None
          else (case parse_string qs of
                  None \<Rightarrow> None
                | Some (k, r) \<Rightarrow>
                    (case skip_ws r of
                       [] \<Rightarrow> None
                     | c # cs \<Rightarrow>
                         if c \<noteq> CHR '':'' then None
                         else (case parse_value f d (skip_ws cs) of
                                 None \<Rightarrow> None
                               | Some (v, r2) \<Rightarrow>
                                   (case skip_ws r2 of
                                      [] \<Rightarrow> None
                                    | e # es \<Rightarrow>
                                        if e = CHR ''}'' then Some ([(k, v)], es)
                                        else if e = CHR '',''
                                          then map_option (\<lambda>(ms, r'). ((k, v) # ms, r'))
                                                 (parse_members f d (skip_ws es))
                                        else None)))))"

text \<open>
  Two calls at most happen between two bytes of the input, so twice the length is enough fuel
  (\<open>parse_value_enough\<close>).
\<close>

definition parse_json :: "string \<Rightarrow> json option" where
  "parse_json s =
     (case parse_value (2 * length s + 2) max_nesting (skip_ws s) of
        None \<Rightarrow> None
      | Some (j, r) \<Rightarrow> if skip_ws r = [] then Some j else None)"

subsection \<open>Enough fuel\<close>

lemma take_digits_shorter: "take_digits s = Some (ds, r) \<Longrightarrow> length r < length s"
proof -
  assume "take_digits s = Some (ds, r)"
  then have "takeWhile is_digit s \<noteq> []" "r = dropWhile is_digit s"
    by (auto simp: take_digits_def Let_def split: if_splits)
  then show ?thesis
    by (metis length_append length_greater_0_conv less_add_same_cancel2 takeWhile_dropWhile_id)
qed

lemma take_int_shorter: "take_int s = Some (i, r) \<Longrightarrow> length r < length s"
  by (auto simp: take_int_def dest: take_digits_shorter split: list.splits if_splits)

lemma take_frac_length: "take_frac s = Some (i, r) \<Longrightarrow> length r \<le> length s"
  by (auto simp: take_frac_def dest!: take_digits_shorter split: list.splits if_splits)

lemma take_exp_length: "take_exp s = Some (i, r) \<Longrightarrow> length r \<le> length s"
  by (auto simp: take_exp_def dest!: take_digits_shorter split: list.splits if_splits)

lemma parse_number_shorter: "parse_number s = Some (n, r) \<Longrightarrow> length r < length s"
  by (cases s)
    (auto simp: parse_number_def dest!: take_int_shorter take_frac_length take_exp_length
      split: if_splits option.splits)

lemma parse_string_shorter: "parse_string s = Some (v, r) \<Longrightarrow> length r < length s"
proof (induction s arbitrary: v rule: parse_string.induct)
  case 1
  then show ?case by simp
next
  case (2 c cs)
  consider "c = CHR 0x22" | e es where "c = CHR 0x5C" "cs = e # es" | "c = CHR 0x5C" "cs = []"
    | "c \<noteq> CHR 0x22" "c \<noteq> CHR 0x5C" by (cases cs) auto
  then show ?case
  proof cases
    case 1
    with "2.prems" show ?thesis by (simp add: parse_string.simps(2))
  next
    case (2 e es)
    show ?thesis
    proof (cases "e = CHR ''u''")
      case True
      with 2 \<open>parse_string (c # cs) = Some (v, r)\<close> obtain ur v' where
        ur: "hex4 es = Some ur" and v': "parse_string (snd (unicode_escape (fst ur) (snd ur))) = Some (v', r)"
        by (auto simp: parse_string.simps(2) split: option.splits)
      have "length r < length (snd (unicode_escape (fst ur) (snd ur)))"
        using "2.IH"(1) [of e es ur v'] 2 True ur v' by simp
      also have "\<dots> \<le> length (snd ur)" by (rule unicode_escape_shorter)
      also have "\<dots> < length es" using ur hex4_shorter [of es "fst ur" "snd ur"] by simp
      finally show ?thesis using 2 by simp
    next
      case False
      with 2 \<open>parse_string (c # cs) = Some (v, r)\<close> obtain x v' where
        "simple_escape e = Some x" "parse_string es = Some (v', r)"
        by (auto simp: parse_string.simps(2) split: option.splits)
      then show ?thesis using "2.IH"(2) [of e es x v'] 2 False by simp
    qed
  next
    case 3
    with "2.prems" show ?thesis by (simp add: parse_string.simps(2))
  next
    case 4
    show ?thesis
    proof (cases "utf8_width (c # cs) = 0")
      case True
      with 4 "2.prems" obtain v' where "parse_string cs = Some (v', r)" "\<not> c < CHR 0x20"
        by (auto simp: parse_string.simps(2) split: if_splits)
      then show ?thesis using "2.IH"(3) [of v'] 4 True by simp
    next
      case False
      with 4 "2.prems" obtain v' where "parse_string (drop (utf8_width (c # cs)) (c # cs)) = Some (v', r)"
        "\<not> c < CHR 0x20"
        by (auto simp: parse_string.simps(2) split: if_splits)
      then show ?thesis using "2.IH"(4) [of v'] 4 False by simp
    qed
  qed
qed

lemma skip_ws_length: "length (skip_ws s) \<le> length s"
  by (simp add: skip_ws_def length_dropWhile_le)

lemma skip_ws_Cons_length: "skip_ws s = c # cs \<Longrightarrow> length cs < length s"
  using skip_ws_length [of s] by simp

lemma parse_shorter:
  "parse_value f d s = Some (j, r) \<Longrightarrow> length r < length s"
  "parse_elems f d s = Some (es, r) \<Longrightarrow> length r < length s"
  "parse_members f d s = Some (ms, r) \<Longrightarrow> length r < length s"
proof (induction f d s and f d s and f d s arbitrary: j r and es r and ms r
    rule: parse_value_parse_elems_parse_members.induct)
  case (2 f d s)
  from "2.prems" obtain c cs where s: "s = c # cs" by (cases s) auto
  show ?case
  proof (cases "c = CHR ''{'' \<or> c = CHR ''[''")
    case False
    with "2.prems" s show ?thesis
      by (auto dest: parse_string_shorter parse_number_shorter simp: prefix_def split: if_splits)
  next
    case True
    with "2.prems" s obtain x xs where x: "skip_ws cs = x # xs" and d: "d \<noteq> 0"
      by (auto split: if_splits list.splits)
    have le: "length xs < length cs" using x by (rule skip_ws_Cons_length)
    from True show ?thesis
    proof
      assume c: "c = CHR ''{''"
      show ?thesis
      proof (cases "x = CHR ''}''")
        case True
        then show ?thesis using "2.prems" s c x d le by simp
      next
        case False
        with "2.prems" s c x d obtain ms where "parse_members f (d - 1) (x # xs) = Some (ms, r)"
          by auto
        then have "length r < length (x # xs)" using "2.IH"(1) [OF s] c x d False by simp
        then show ?thesis using le s by simp
      qed
    next
      assume c: "c = CHR ''[''"
      show ?thesis
      proof (cases "x = CHR '']''")
        case True
        then show ?thesis using "2.prems" s c x d le by simp
      next
        case False
        with "2.prems" s c x d obtain es where "parse_elems f (d - 1) (x # xs) = Some (es, r)"
          by auto
        then have "length r < length (x # xs)" using "2.IH"(2) [OF s] c x d False by simp
        then show ?thesis using le s by simp
      qed
    qed
  qed
next
  case (4 f d s)
  from "4.prems" obtain v r1 c cs where v: "parse_value f d s = Some (v, r1)" "skip_ws r1 = c # cs"
    by (auto split: option.splits list.splits)
  then have "length r1 < length s" "length cs < length r1"
    using "4.IH"(1) by (auto dest: skip_ws_Cons_length)
  moreover have "length r \<le> length cs"
  proof (cases "c = CHR '']''")
    case True
    then show ?thesis using "4.prems" v by simp
  next
    case False
    with "4.prems" v obtain vs where "c = CHR '',''" "parse_elems f d (skip_ws cs) = Some (vs, r)"
      by (auto split: if_splits)
    then have "length r < length (skip_ws cs)" using "4.IH"(2) [of "(v, r1)" v r1 c cs] v by simp
    then show ?thesis using skip_ws_length [of cs] by simp
  qed
  ultimately show ?case by simp
next
  case (6 f d s)
  from "6.prems" obtain qs k r1 cs v r2 e es where
    q: "s = CHR 0x22 # qs" "parse_string qs = Some (k, r1)" "skip_ws r1 = CHR '':'' # cs"
    "parse_value f d (skip_ws cs) = Some (v, r2)" "skip_ws r2 = e # es"
    by (auto split: list.splits option.splits if_splits)
  have "length r1 < length qs" using q(2) by (rule parse_string_shorter)
  moreover have "length cs < length r1" using q(3) by (rule skip_ws_Cons_length)
  moreover have "length r2 < length (skip_ws cs)" using "6.IH"(1) q by simp
  moreover have "length (skip_ws cs) \<le> length cs" by (rule skip_ws_length)
  moreover have "length es < length r2" using q(5) by (rule skip_ws_Cons_length)
  moreover have "length r \<le> length es"
  proof (cases "e = CHR ''}''")
    case True
    then show ?thesis using "6.prems" q by simp
  next
    case False
    with "6.prems" q obtain ms' where "e = CHR '',''" "parse_members f d (skip_ws es) = Some (ms', r)"
      by (auto split: if_splits)
    then have "length r < length (skip_ws es)" using "6.IH"(2) q by simp
    then show ?thesis using skip_ws_length [of es] by simp
  qed
  ultimately show ?case using q(1) by simp
qed simp_all

declare parse_value.simps(2) [simp del] parse_elems.simps(2) [simp del] parse_members.simps(2) [simp del]

lemma parse_fuel_step:
  "2 * length s < f \<Longrightarrow> parse_value (Suc f) d s = parse_value f d s"
  "2 * length s + 1 < f \<Longrightarrow> parse_elems (Suc f) d s = parse_elems f d s"
  "2 * length s + 1 < f \<Longrightarrow> parse_members (Suc f) d s = parse_members f d s"
proof (induction f d s and f d s and f d s rule: parse_value_parse_elems_parse_members.induct)
  case (2 f d s)
  note unfold = parse_value.simps(2) [of "Suc f" d s] parse_value.simps(2) [of f d s]
  show ?case
  proof (cases s)
    case (Cons c cs)
    have arg: "2 * length (x # xs) + 1 < f" if "skip_ws cs = x # xs" for x xs
      using skip_ws_length [of cs] that "2.prems" Cons by simp
    show ?thesis
    proof (cases "skip_ws cs")
      case Nil
      then show ?thesis unfolding unfold using \<open>s = c # cs\<close> by simp
    next
      case (Cons x xs)
      note c = \<open>s = c # cs\<close>
      have "parse_members (Suc f) (d - 1) (x # xs) = parse_members f (d - 1) (x # xs)"
        if "c = CHR ''{''" "d \<noteq> 0" "x \<noteq> CHR ''}''"
        using "2.IH"(1) [OF c _ _ _ Cons] that arg [OF Cons] by simp
      moreover have "parse_elems (Suc f) (d - 1) (x # xs) = parse_elems f (d - 1) (x # xs)"
        if "c = CHR ''[''" "d \<noteq> 0" "x \<noteq> CHR '']''"
        using "2.IH"(2) [OF c _ _ _ _ Cons] that arg [OF Cons] by simp
      ultimately show ?thesis unfolding unfold using c Cons by simp
    qed
  next
    case Nil
    then show ?thesis unfolding unfold by simp
  qed
next
  case (4 f d s)
  note unfold = parse_elems.simps(2) [of "Suc f" d s] parse_elems.simps(2) [of f d s]
  from 4 have V: "parse_value (Suc f) d s = parse_value f d s" by simp
  show ?case
  proof (cases "\<exists>v r c cs. parse_value f d s = Some (v, r) \<and> skip_ws r = c # cs")
    case False
    then show ?thesis unfolding unfold V by (auto split: option.split list.split)
  next
    case True
    then obtain v r c cs where P: "parse_value f d s = Some (v, r)" "skip_ws r = c # cs" by blast
    have "length r < length s" "length cs < length r" "length (skip_ws cs) \<le> length cs"
      using P parse_shorter(1) skip_ws_Cons_length skip_ws_length by auto
    then have "parse_elems (Suc f) d (skip_ws cs) = parse_elems f d (skip_ws cs)"
      if "c = CHR '',''"
      using "4.IH"(2) [OF P(1) refl P(2)] that "4.prems" by simp
    then show ?thesis unfolding unfold V using P by simp
  qed
next
  case (6 f d s)
  note unfold = parse_members.simps(2) [of "Suc f" d s] parse_members.simps(2) [of f d s]
  show ?case
  proof (cases "\<exists>qs k r cs. s = CHR 0x22 # qs \<and> parse_string qs = Some (k, r) \<and> skip_ws r = CHR '':'' # cs")
    case False
    then show ?thesis unfolding unfold by (auto split: list.split option.split)
  next
    case True
    then obtain qs k r cs where q: "s = CHR 0x22 # qs" "parse_string qs = Some (k, r)"
      "skip_ws r = CHR '':'' # cs" by auto
    have len: "length r < length qs" "length cs < length r" "length (skip_ws cs) \<le> length cs"
      using q parse_string_shorter skip_ws_Cons_length skip_ws_length by auto
    then have V: "parse_value (Suc f) d (skip_ws cs) = parse_value f d (skip_ws cs)"
      using "6.IH"(1) q "6.prems" by simp
    show ?thesis
    proof (cases "\<exists>v r2 e es. parse_value f d (skip_ws cs) = Some (v, r2) \<and> skip_ws r2 = e # es")
      case False
      then show ?thesis unfolding unfold using q V by (auto split: list.split option.split)
    next
      case True
      then obtain v r2 e es where P: "parse_value f d (skip_ws cs) = Some (v, r2)" "skip_ws r2 = e # es"
        by blast
      have "length r2 < length (skip_ws cs)" "length es < length r2" "length (skip_ws es) \<le> length es"
        using P parse_shorter(1) skip_ws_Cons_length skip_ws_length by auto
      then have "parse_members (Suc f) d (skip_ws es) = parse_members f d (skip_ws es)"
        if "e = CHR '',''"
        using "6.IH"(2) q P that "6.prems" len by simp
      then show ?thesis unfolding unfold using q V P by simp
    qed
  qed
qed simp_all

lemma parse_value_enough:
  "2 * length s < f \<Longrightarrow> parse_value (f + k) d s = parse_value f d s"
proof (induction k)
  case (Suc k)
  then have "parse_value (Suc (f + k)) d s = parse_value (f + k) d s"
    by (intro parse_fuel_step(1)) simp
  with Suc show ?case by (simp only: add_Suc_right)
qed simp

section \<open>Decoding into Go variables\<close>

text \<open>
  A decoder stores a value into a variable and reports the first mismatch it meets, if any.
\<close>

type_synonym 's decoder = "json \<Rightarrow> 's \<Rightarrow> go_error option \<times> 's"

text \<open>
  Keys are compared after folding: ASCII letters to upper case, and the two characters outside
  ASCII that fold to an ASCII letter, the long s and the Kelvin sign. Other characters fold to
  characters outside ASCII, which no field name of the source has.
\<close>

fun fold_name :: "string \<Rightarrow> string" where
  "fold_name [] = []"
| "fold_name (c # cs) =
     (if CHR ''a'' \<le> c \<and> c \<le> CHR ''z'' then char_of (of_char c - (32::nat)) # fold_name cs
      else if c = CHR 0xC5 \<and> cs \<noteq> [] \<and> hd cs = CHR 0xBF then CHR ''S'' # fold_name (tl cs)
      else if c = CHR 0xE2 \<and> prefix [CHR 0x84, CHR 0xAA] cs then CHR ''K'' # fold_name (drop 2 cs)
      else c # fold_name cs)"

definition first_error :: "go_error option \<Rightarrow> go_error option \<Rightarrow> go_error option" where
  "first_error e1 e2 = (case e1 of None \<Rightarrow> e2 | Some e \<Rightarrow> Some e)"

fun kind_name :: "json \<Rightarrow> string" where
  "kind_name JNull = ''null''"
| "kind_name (JBool b) = ''bool''"
| "kind_name (JNum n) = ''number''"
| "kind_name (JStr s) = ''string''"
| "kind_name (JArr es) = ''array''"
| "kind_name (JObj ms) = ''object''"

fun dec_string :: "string decoder" where
  "dec_string JNull x = (None, x)"
| "dec_string (JStr s) x = (None, s)"
| "dec_string j x = (Some (JsonTypeError (kind_name j) ''string''), x)"

fun dec_bool :: "bool decoder" where
  "dec_bool JNull x = (None, x)"
| "dec_bool (JBool b) x = (None, b)"
| "dec_bool j x = (Some (JsonTypeError (kind_name j) ''bool''), x)"

fun dec_int64 :: "int64 decoder" where
  "dec_int64 JNull x = (None, x)"
| "dec_int64 (JNum n) x =
     (case parse_int64 n of
        Some i \<Rightarrow> (None, i)
      | None \<Rightarrow> (Some (JsonTypeError (''number '' @ n) ''int64''), x))"
| "dec_int64 j x = (Some (JsonTypeError (kind_name j) ''int64''), x)"

text \<open>
  A slice keeps its backing array: decoding a second array into the same variable stores into
  the old elements, so a \<open>null\<close> element shows the old element at its index. The pair holds the
  slice and the rest of the backing array.
\<close>

fun dec_elems :: "json list \<Rightarrow> string list \<Rightarrow> go_error option \<times> string list" where
  "dec_elems [] old = (None, [])"
| "dec_elems (j # js) old =
     (let (e1, x) = dec_string j (case old of [] \<Rightarrow> [] | o1 # _ \<Rightarrow> o1);
          (e2, xs) = dec_elems js (tl old)
      in (first_error e1 e2, x # xs))"

fun dec_strings :: "(string list \<times> string list) decoder" where
  "dec_strings JNull x = (None, ([], []))"
| "dec_strings (JArr js) (xs, spare) =
     (if js = [] then (None, ([], []))
      else let (e, ys) = dec_elems js (xs @ spare)
           in (e, (ys, drop (length js) (xs @ spare))))"
| "dec_strings j x = (Some (JsonTypeError (kind_name j) ''[]string''), x)"

text \<open>The members of an object, in the order of the text.\<close>

definition field_decoder :: "(string \<times> 's decoder) list \<Rightarrow> string \<Rightarrow> 's decoder option" where
  "field_decoder fields key =
     map_option snd (find (\<lambda>(name, d). fold_name name = fold_name key) fields)"

fun dec_members :: "(string \<times> 's decoder) list \<Rightarrow> (string \<times> json) list \<Rightarrow> 's \<Rightarrow> go_error option \<times> 's" where
  "dec_members fields [] s = (None, s)"
| "dec_members fields ((k, v) # ms) s =
     (let (e1, s1) = (case field_decoder fields k of None \<Rightarrow> (None, s) | Some d \<Rightarrow> d v s);
          (e2, s2) = dec_members fields ms s1
      in (first_error e1 e2, s2))"

fun dec_struct :: "string \<Rightarrow> (string \<times> 's decoder) list \<Rightarrow> 's decoder" where
  "dec_struct ty fields JNull s = (None, s)"
| "dec_struct ty fields (JObj ms) s = dec_members fields ms s"
| "dec_struct ty fields j s = (Some (JsonTypeError (kind_name j) ty), s)"

text \<open>A decoder for one field of a record, from the field's own decoder.\<close>

definition on_field :: "('s \<Rightarrow> 'a) \<Rightarrow> ('a \<Rightarrow> 's \<Rightarrow> 's) \<Rightarrow> 'a decoder \<Rightarrow> 's decoder" where
  "on_field get put d j s = (let (e, x) = d j (get s) in (e, put x s))"

text \<open>\<open>json.Unmarshal\<close> into a zero variable.\<close>

definition unmarshal_value :: "'s decoder \<Rightarrow> 's \<Rightarrow> json \<Rightarrow> 's go_result" where
  "unmarshal_value d zero j = (case d j zero of (None, s) \<Rightarrow> Inr s | (Some e, s) \<Rightarrow> Inl e)"

definition unmarshal :: "'s decoder \<Rightarrow> 's \<Rightarrow> string \<Rightarrow> 's go_result" where
  "unmarshal d zero s =
     (case parse_json s of None \<Rightarrow> Inl JsonSyntaxError | Some j \<Rightarrow> unmarshal_value d zero j)"

subsection \<open>Facts of the decoders\<close>

lemma first_error_None_iff [simp, json_simps]:
  "first_error e1 e2 = None \<longleftrightarrow> e1 = None \<and> e2 = None"
  by (auto simp: first_error_def split: option.splits)

text \<open>
  Two structs that share a field: what decoding stores in it does not depend on the other
  fields. \<open>sim\<close> relates the two variables, and the second struct knows every key of the first.
\<close>

definition simulates :: "('s \<Rightarrow> 't \<Rightarrow> bool) \<Rightarrow> (string \<times> 's decoder) list \<Rightarrow> (string \<times> 't decoder) list \<Rightarrow> bool" where
  "simulates sim fs gs \<longleftrightarrow>
     (\<forall>k j s t. sim s t \<longrightarrow>
        (case field_decoder gs k of
           None \<Rightarrow> (case field_decoder fs k of None \<Rightarrow> True | Some d \<Rightarrow> fst (d j s) = None \<and> sim (snd (d j s)) t)
         | Some d' \<Rightarrow>
             (case field_decoder fs k of
                None \<Rightarrow> sim s (snd (d' j t))
              | Some d \<Rightarrow> (fst (d' j t) = None \<longrightarrow> fst (d j s) = None) \<and> sim (snd (d j s)) (snd (d' j t)))))"

lemma dec_members_sim:
  assumes sim: "simulates R fs gs"
  shows "R s t \<Longrightarrow> fst (dec_members gs ms t) = None \<Longrightarrow>
    fst (dec_members fs ms s) = None \<and> R (snd (dec_members fs ms s)) (snd (dec_members gs ms t))"
proof (induction ms arbitrary: s t)
  case Nil
  then show ?case by simp
next
  case (Cons m ms)
  obtain k v where m: "m = (k, v)" by (cases m)
  define stepf where "stepf = (case field_decoder fs k of None \<Rightarrow> (None, s) | Some d \<Rightarrow> d v s)"
  define stepg where "stepg = (case field_decoder gs k of None \<Rightarrow> (None, t) | Some d \<Rightarrow> d v t)"
  have F: "dec_members fs (m # ms) s =
      (first_error (fst stepf) (fst (dec_members fs ms (snd stepf))), snd (dec_members fs ms (snd stepf)))"
    and G: "dec_members gs (m # ms) t =
      (first_error (fst stepg) (fst (dec_members gs ms (snd stepg))), snd (dec_members gs ms (snd stepg)))"
    by (simp_all add: m stepf_def stepg_def split: prod.split)
  from sim Cons.prems(1) have "(fst stepg = None \<longrightarrow> fst stepf = None) \<and> R (snd stepf) (snd stepg)"
    unfolding simulates_def stepf_def stepg_def
    by (fastforce split: option.splits)
  with Cons.prems(2) Cons.IH [of "snd stepf" "snd stepg"] show ?case by (simp add: F G)
qed

lemma dec_struct_sim:
  assumes "simulates R fs gs" and "R s t" and "fst (dec_struct ty gs j t) = None"
  shows "fst (dec_struct ty' fs j s) = None \<and> R (snd (dec_struct ty' fs j s)) (snd (dec_struct ty gs j t))"
  using assms dec_members_sim [OF assms(1,2)] by (cases j) auto

end
