(* ===== verification/ApiV1.thy ===== *)
theory ApiV1
  imports GoJson
begin

text \<open>
  The wire types of \<open>pkg/api/v1\<close>: commands with their access policy, the parameter structs of
  the actions, and responses. The JSON tags of the structs are the field lists of the decoders
  here; a slice field carries the rest of its backing array, which only decoding looks at.

  The payload of a response (\<open>Data any\<close>) is a type parameter, with \<open>None\<close> for nil.
\<close>

section \<open>Commands\<close>

definition MessageTypeCommand :: string where
  "MessageTypeCommand = ''command''"

definition MessageTypeResponse :: string where
  "MessageTypeResponse = ''response''"

record AccessPolicy =
  policy_NamespaceMode :: string
  policy_Namespaces :: "string list"
  policy_Namespaces_spare :: "string list"
  policy_PodLogsEnabled :: bool
  policy_Version :: int64

record Command =
  cmd_ID :: string
  cmd_Type :: string
  cmd_Action :: string
  cmd_Params :: "json option"
  cmd_Traceparent :: string
  cmd_Tracestate :: string
  cmd_AccessPolicy :: "AccessPolicy option"

definition zero_policy :: AccessPolicy where
  "zero_policy = \<lparr>policy_NamespaceMode = [], policy_Namespaces = [], policy_Namespaces_spare = [],
     policy_PodLogsEnabled = False, policy_Version = 0\<rparr>"

definition zero_command :: Command where
  "zero_command = \<lparr>cmd_ID = [], cmd_Type = [], cmd_Action = [], cmd_Params = None,
     cmd_Traceparent = [], cmd_Tracestate = [], cmd_AccessPolicy = None\<rparr>"

definition policy_fields :: "(string \<times> AccessPolicy decoder) list" where
  "policy_fields =
     [(''namespace_mode'',
        on_field policy_NamespaceMode (\<lambda>x s. s\<lparr>policy_NamespaceMode := x\<rparr>) dec_string),
      (''namespaces'',
        on_field (\<lambda>s. (policy_Namespaces s, policy_Namespaces_spare s))
          (\<lambda>(xs, sp) s. s\<lparr>policy_Namespaces := xs, policy_Namespaces_spare := sp\<rparr>) dec_strings),
      (''pod_logs_enabled'',
        on_field policy_PodLogsEnabled (\<lambda>x s. s\<lparr>policy_PodLogsEnabled := x\<rparr>) dec_bool),
      (''version'', on_field policy_Version (\<lambda>x s. s\<lparr>policy_Version := x\<rparr>) dec_int64)]"

text \<open>A pointer field: \<open>null\<close> makes it nil, anything else is stored behind the pointer.\<close>

definition dec_pointer :: "'s decoder \<Rightarrow> 's \<Rightarrow> 's option decoder" where
  "dec_pointer d zero j p =
     (if j = JNull then (None, None)
      else let (e, x) = d j (case p of None \<Rightarrow> zero | Some x \<Rightarrow> x) in (e, Some x))"

text \<open>A raw message takes any value as it is, \<open>null\<close> included.\<close>

definition dec_raw :: "json option decoder" where
  "dec_raw j p = (None, Some j)"

definition command_fields :: "(string \<times> Command decoder) list" where
  "command_fields =
     [(''id'', on_field cmd_ID (\<lambda>x s. s\<lparr>cmd_ID := x\<rparr>) dec_string),
      (''type'', on_field cmd_Type (\<lambda>x s. s\<lparr>cmd_Type := x\<rparr>) dec_string),
      (''action'', on_field cmd_Action (\<lambda>x s. s\<lparr>cmd_Action := x\<rparr>) dec_string),
      (''params'', on_field cmd_Params (\<lambda>x s. s\<lparr>cmd_Params := x\<rparr>) dec_raw),
      (''traceparent'', on_field cmd_Traceparent (\<lambda>x s. s\<lparr>cmd_Traceparent := x\<rparr>) dec_string),
      (''tracestate'', on_field cmd_Tracestate (\<lambda>x s. s\<lparr>cmd_Tracestate := x\<rparr>) dec_string),
      (''access_policy'', on_field cmd_AccessPolicy (\<lambda>x s. s\<lparr>cmd_AccessPolicy := x\<rparr>)
        (dec_pointer (dec_struct ''v1.AccessPolicy'' policy_fields) zero_policy))]"

section \<open>Parameters of the actions\<close>

text \<open>
  The parameter structs. \<open>ListPodsParams\<close>, \<open>ListEventsParams\<close>, \<open>ListDeploymentsParams\<close> and
  \<open>ListServicesParams\<close> have the fields and tags of \<open>NamespaceParams\<close>, and \<open>DescribePodParams\<close>
  those of \<open>GetPodParams\<close>. The tag option \<open>omitempty\<close> has no effect on decoding.
\<close>

record NamespaceParams =
  np_Namespace :: string

record GetPodParams =
  gp_Namespace :: string
  gp_Pod :: string

record GetPodLogsParams =
  gl_Namespace :: string
  gl_Pod :: string
  gl_Container :: string
  gl_TailLines :: int64

record GetRolloutStatusParams =
  gr_Namespace :: string
  gr_Deployment :: string

type_synonym ListPodsParams = NamespaceParams
type_synonym ListEventsParams = NamespaceParams
type_synonym ListDeploymentsParams = NamespaceParams
type_synonym ListServicesParams = NamespaceParams
type_synonym DescribePodParams = GetPodParams

definition namespace_params :: "NamespaceParams decoder" where
  "namespace_params = dec_struct ''v1.NamespaceParams''
     [(''namespace'', on_field np_Namespace (\<lambda>x s. s\<lparr>np_Namespace := x\<rparr>) dec_string)]"

definition get_pod_params :: "GetPodParams decoder" where
  "get_pod_params = dec_struct ''v1.GetPodParams''
     [(''namespace'', on_field gp_Namespace (\<lambda>x s. s\<lparr>gp_Namespace := x\<rparr>) dec_string),
      (''pod'', on_field gp_Pod (\<lambda>x s. s\<lparr>gp_Pod := x\<rparr>) dec_string)]"

definition get_pod_logs_params :: "GetPodLogsParams decoder" where
  "get_pod_logs_params = dec_struct ''v1.GetPodLogsParams''
     [(''namespace'', on_field gl_Namespace (\<lambda>x s. s\<lparr>gl_Namespace := x\<rparr>) dec_string),
      (''pod'', on_field gl_Pod (\<lambda>x s. s\<lparr>gl_Pod := x\<rparr>) dec_string),
      (''container'', on_field gl_Container (\<lambda>x s. s\<lparr>gl_Container := x\<rparr>) dec_string),
      (''tail_lines'', on_field gl_TailLines (\<lambda>x s. s\<lparr>gl_TailLines := x\<rparr>) dec_int64)]"

definition rollout_params :: "GetRolloutStatusParams decoder" where
  "rollout_params = dec_struct ''v1.GetRolloutStatusParams''
     [(''namespace'', on_field gr_Namespace (\<lambda>x s. s\<lparr>gr_Namespace := x\<rparr>) dec_string),
      (''deployment'', on_field gr_Deployment (\<lambda>x s. s\<lparr>gr_Deployment := x\<rparr>) dec_string)]"

definition zero_np :: NamespaceParams where
  "zero_np = \<lparr>np_Namespace = []\<rparr>"

definition zero_gp :: GetPodParams where
  "zero_gp = \<lparr>gp_Namespace = [], gp_Pod = []\<rparr>"

definition zero_gl :: GetPodLogsParams where
  "zero_gl = \<lparr>gl_Namespace = [], gl_Pod = [], gl_Container = [], gl_TailLines = 0\<rparr>"

definition zero_gr :: GetRolloutStatusParams where
  "zero_gr = \<lparr>gr_Namespace = [], gr_Deployment = []\<rparr>"

section \<open>Responses\<close>

definition StatusSuccess :: string where "StatusSuccess = ''success''"
definition StatusError :: string where "StatusError = ''error''"

definition ErrInvalidCommand :: string where "ErrInvalidCommand = ''INVALID_COMMAND''"
definition ErrUnsupportedAction :: string where "ErrUnsupportedAction = ''UNSUPPORTED_ACTION''"
definition ErrInvalidParams :: string where "ErrInvalidParams = ''INVALID_PARAMS''"
definition ErrNamespaceDenied :: string where "ErrNamespaceDenied = ''NAMESPACE_DENIED''"
definition ErrRBACDenied :: string where "ErrRBACDenied = ''RBAC_DENIED''"
definition ErrNotFound :: string where "ErrNotFound = ''NOT_FOUND''"
definition ErrTimeout :: string where "ErrTimeout = ''TIMEOUT''"
definition ErrInternal :: string where "ErrInternal = ''INTERNAL_ERROR''"
definition ErrDuplicateCommand :: string where "ErrDuplicateCommand = ''DUPLICATE_COMMAND''"
definition ErrPolicyDenied :: string where "ErrPolicyDenied = ''POLICY_DENIED''"

lemmas code_defs =
  ErrInvalidCommand_def ErrUnsupportedAction_def ErrInvalidParams_def ErrNamespaceDenied_def
  ErrRBACDenied_def ErrNotFound_def ErrTimeout_def ErrInternal_def ErrDuplicateCommand_def
  ErrPolicyDenied_def

record ErrorBody =
  eb_Code :: string
  eb_Message :: string

record 'd Response =
  resp_ID :: string
  resp_Type :: string
  resp_Status :: string
  resp_Data :: "'d option"
  resp_Error :: "ErrorBody option"

definition Success :: "string \<Rightarrow> 'd \<Rightarrow> 'd Response" where
  "Success i data = \<lparr>resp_ID = i, resp_Type = MessageTypeResponse, resp_Status = StatusSuccess,
     resp_Data = Some data, resp_Error = None\<rparr>"

definition Failure :: "string \<Rightarrow> string \<Rightarrow> string \<Rightarrow> 'd Response" where
  "Failure i code message = \<lparr>resp_ID = i, resp_Type = MessageTypeResponse,
     resp_Status = StatusError, resp_Data = None,
     resp_Error = Some \<lparr>eb_Code = code, eb_Message = message\<rparr>\<rparr>"

text \<open>
  What every receiver of a response relies on: it has the type of a response, and its status
  tells which of payload and error it carries.
\<close>

definition wf_response :: "'d Response \<Rightarrow> bool" where
  "wf_response r \<longleftrightarrow> resp_Type r = MessageTypeResponse \<and>
     (resp_Status r = StatusSuccess \<and> resp_Error r = None \<and> resp_Data r \<noteq> None \<or>
      resp_Status r = StatusError \<and> resp_Error r \<noteq> None \<and> resp_Data r = None)"

lemma Success_sel [simp]:
  "resp_ID (Success i d) = i" "resp_Status (Success i d) = StatusSuccess"
  "resp_Data (Success i d) = Some d" "resp_Error (Success i d) = None"
  by (simp_all add: Success_def)

lemma Failure_sel [simp]:
  "resp_ID (Failure i c m) = i" "resp_Status (Failure i c m) = StatusError"
  "resp_Data (Failure i c m) = None" "resp_Error (Failure i c m) = Some \<lparr>eb_Code = c, eb_Message = m\<rparr>"
  by (simp_all add: Failure_def)

lemma wf_response_intros [intro, simp]:
  "wf_response (Success i d)" "wf_response (Failure i c m)"
  by (simp_all add: wf_response_def Success_def Failure_def)

lemma status_distinct [simp]: "StatusSuccess \<noteq> StatusError" "StatusError \<noteq> StatusSuccess"
  by (simp_all add: StatusSuccess_def StatusError_def)

end
