(* ===== verification/Policy.thy ===== *)
theory Policy
  imports ApiV1
begin

text \<open>
  The first part of the package \<open>internal/gateway\<close>: the message codec of \<open>protocol.go\<close> and the
  workspace access policy of \<open>client.go\<close> (\<open>policyAllowsCommand\<close>), which the read loop applies to
  every command before anything else sees it.
\<close>

section \<open>Decoding messages\<close>

definition DecodeCommand :: "string \<Rightarrow> Command go_result" where
  "DecodeCommand data =
     (case unmarshal (dec_struct ''v1.Command'' command_fields) zero_command data of
        Inl e \<Rightarrow> Inl e
      | Inr cmd \<Rightarrow>
          (if cmd_Type cmd \<noteq> MessageTypeCommand
           then Inl (ErrorString (''unsupported gateway message type '' @ go_quote (cmd_Type cmd)))
           else Inr cmd))"

section \<open>The access policy\<close>

record policy_params =
  pp_Namespace :: string

definition policy_params_fields :: "(string \<times> policy_params decoder) list" where
  "policy_params_fields =
     [(''namespace'', on_field pp_Namespace (\<lambda>x s. s\<lparr>pp_Namespace := x\<rparr>) dec_string)]"

definition policy_params :: "policy_params decoder" where
  "policy_params = dec_struct ''struct'' policy_params_fields"

definition zero_pp :: policy_params where
  "zero_pp = \<lparr>pp_Namespace = []\<rparr>"

text \<open>\<open>json.Unmarshal(cmd.Params, &params)\<close>: an empty raw message is not JSON.\<close>

definition unmarshal_raw :: "'s decoder \<Rightarrow> 's \<Rightarrow> json option \<Rightarrow> 's go_result" where
  "unmarshal_raw d zero raw =
     (case raw of None \<Rightarrow> Inl JsonSyntaxError | Some j \<Rightarrow> unmarshal_value d zero j)"

definition policyAllowsCommand :: "Command \<Rightarrow> go_error option" where
  "policyAllowsCommand cmd =
     (if cmd_Action cmd = ''agent.discover_namespaces'' then None
      else (case cmd_AccessPolicy cmd of
              None \<Rightarrow> Some (ErrorString ''no active workspace access policy'')
            | Some policy \<Rightarrow>
                if policy_Version policy <s 1
                  then Some (ErrorString ''no active workspace access policy'')
                else if policy_NamespaceMode policy \<noteq> ''selected'' \<and> policy_NamespaceMode policy \<noteq> ''all''
                  then Some (ErrorString ''invalid workspace access policy'')
                else if cmd_Action cmd = ''k8s.get_pod_logs'' \<and> \<not> policy_PodLogsEnabled policy
                  then Some (ErrorString ''pod logs are disabled by the workspace policy'')
                else if policy_NamespaceMode policy = ''all'' \<or> cmd_Action cmd = ''k8s.list_namespaces''
                  then None
                else (case unmarshal_raw policy_params zero_pp (cmd_Params cmd) of
                        Inl e \<Rightarrow> Some (ErrorString ''invalid command namespace'')
                      | Inr params \<Rightarrow>
                          if pp_Namespace params = []
                            then Some (ErrorString ''namespace is required by the workspace policy'')
                          else if pp_Namespace params \<in> set (policy_Namespaces policy) then None
                          else Some (ErrorString ''namespace is not allowed by the workspace policy''))))"

text \<open>
  What the policy grants, as a specification: the discovery action always; every other action
  only under an active policy of a known mode, pod logs only where they are enabled, and in mode
  \<open>selected\<close> a namespaced action only on a named namespace of the selection.
\<close>

definition policy_active :: "AccessPolicy \<Rightarrow> bool" where
  "policy_active p \<longleftrightarrow> 1 \<le> sint (policy_Version p) \<and>
     policy_NamespaceMode p \<in> {''selected'', ''all''}"

definition requested_namespace :: "Command \<Rightarrow> string option" where
  "requested_namespace cmd =
     (case unmarshal_raw policy_params zero_pp (cmd_Params cmd) of
        Inl e \<Rightarrow> None | Inr p \<Rightarrow> Some (pp_Namespace p))"

definition policy_grants :: "Command \<Rightarrow> bool" where
  "policy_grants cmd \<longleftrightarrow>
     cmd_Action cmd = ''agent.discover_namespaces'' \<or>
     (\<exists>p. cmd_AccessPolicy cmd = Some p \<and> policy_active p \<and>
        (cmd_Action cmd = ''k8s.get_pod_logs'' \<longrightarrow> policy_PodLogsEnabled p) \<and>
        (policy_NamespaceMode p = ''all'' \<or> cmd_Action cmd = ''k8s.list_namespaces'' \<or>
         (\<exists>n. requested_namespace cmd = Some n \<and> n \<noteq> [] \<and> n \<in> set (policy_Namespaces p))))"

lemma policy_version_iff: "(v :: int64) <s 1 \<longleftrightarrow> \<not> 1 \<le> sint v"
  by (simp add: i64_simps not_le)

lemma policyAllowsCommand_iff: "policyAllowsCommand cmd = None \<longleftrightarrow> policy_grants cmd"
proof (cases "cmd_Action cmd = ''agent.discover_namespaces''")
  case True
  then show ?thesis by (simp add: policyAllowsCommand_def policy_grants_def)
next
  case False
  show ?thesis
  proof (cases "cmd_AccessPolicy cmd")
    case None
    with False show ?thesis by (simp add: policyAllowsCommand_def policy_grants_def)
  next
    case (Some p)
    have R: "(\<exists>n. requested_namespace cmd = Some n \<and> n \<noteq> [] \<and> n \<in> set (policy_Namespaces p)) \<longleftrightarrow>
      (case unmarshal_raw policy_params zero_pp (cmd_Params cmd) of
         Inl e \<Rightarrow> False | Inr q \<Rightarrow> pp_Namespace q \<noteq> [] \<and> pp_Namespace q \<in> set (policy_Namespaces p))"
      by (auto simp: requested_namespace_def split: sum.split)
    show ?thesis
      using False Some
      by (simp add: policyAllowsCommand_def policy_grants_def policy_active_def policy_version_iff R
          split: sum.split)
  qed
qed

section \<open>The policy and the command handler read the same namespace\<close>

text \<open>
  The policy decodes the parameters into its own struct, the handler later into the struct of
  the action. \<open>ns_agrees\<close> says that a decoder of the handler stores the namespace the policy saw.
\<close>

definition ns_agrees :: "'s decoder \<Rightarrow> 's \<Rightarrow> ('s \<Rightarrow> string) \<Rightarrow> bool" where
  "ns_agrees d zero namespace \<longleftrightarrow>
     (\<forall>j s. unmarshal_value d zero j = Inr s \<longrightarrow>
        (\<exists>p. unmarshal_value policy_params zero_pp j = Inr p \<and> pp_Namespace p = namespace s))"

lemma ns_agreesI:
  assumes "simulates (\<lambda>p s. pp_Namespace p = namespace s) policy_params_fields gs"
    and "namespace zero = []"
  shows "ns_agrees (dec_struct ty gs) zero namespace"
  unfolding ns_agrees_def
proof (intro allI impI)
  fix j s
  assume "unmarshal_value (dec_struct ty gs) zero j = Inr s"
  then have g: "fst (dec_struct ty gs j zero) = None" "snd (dec_struct ty gs j zero) = s"
    by (auto simp: unmarshal_value_def split: prod.splits option.splits)
  from dec_struct_sim [OF assms(1), of zero_pp zero ty j "''struct''"] g assms(2)
  have "fst (policy_params j zero_pp) = None" "pp_Namespace (snd (policy_params j zero_pp)) = namespace s"
    by (simp_all add: zero_pp_def policy_params_def)
  then show "\<exists>p. unmarshal_value policy_params zero_pp j = Inr p \<and> pp_Namespace p = namespace s"
    by (cases "policy_params j zero_pp") (simp add: unmarshal_value_def)
qed

lemma dec_string_fst: "fst (dec_string j x) = fst (dec_string j y)"
  by (cases j) auto

lemma on_field_sel [simp]:
  "fst (on_field get put d j s) = fst (d j (get s))"
  "snd (on_field get put d j s) = put (snd (d j (get s))) s"
  by (simp_all add: on_field_def split: prod.split)

lemma ns_agrees_params:
  "ns_agrees namespace_params zero_np np_Namespace"
  "ns_agrees get_pod_params zero_gp gp_Namespace"
  "ns_agrees get_pod_logs_params zero_gl gl_Namespace"
  "ns_agrees rollout_params zero_gr gr_Namespace"
  unfolding namespace_params_def get_pod_params_def get_pod_logs_params_def rollout_params_def
  by (rule ns_agreesI,
      auto simp: simulates_def policy_params_fields_def field_decoder_def
        zero_np_def zero_gp_def zero_gl_def zero_gr_def)+

section \<open>Properties\<close>

text \<open>
  C24: the check that the read loop applies to every command accepts it exactly when the access
  policy it carries grants it: the policy is active and of a known mode, pod logs only where they
  are enabled, and in mode \<open>selected\<close> a namespaced action only on a named, selected namespace.
\<close>

theorem policy_decision: "policyAllowsCommand cmd = None \<longleftrightarrow> policy_grants cmd"
  by (rule policyAllowsCommand_iff)

text \<open>
  C25: the policy and the handler cannot be made to see different namespaces by duplicate keys,
  letter case or null values: whenever the handler's own decoder accepts the parameters of a
  command, the policy's decoder accepts them too and stores the same namespace.
\<close>

theorem policy_sees_handler_namespace:
  "ns_agrees namespace_params zero_np np_Namespace \<and> ns_agrees get_pod_params zero_gp gp_Namespace \<and>
   ns_agrees get_pod_logs_params zero_gl gl_Namespace \<and> ns_agrees rollout_params zero_gr gr_Namespace"
  by (intro conjI ns_agrees_params)

end
