(* ===== verification/GoTime.thy ===== *)
theory GoTime
  imports GoText
begin

text \<open>
  Wall-clock time as the source uses it: \<open>time.Time\<close> values that came from the Kubernetes API,
  their RFC 3339 text, and the age of an object (\<open>time.Since(t).Round(time.Second).String()\<close>).

  A time is the seconds and nanoseconds since the Unix epoch and the offset of its location at
  that time. The calendar is the proleptic Gregorian calendar, computed with floor division.
\<close>

section \<open>Times\<close>

record gotime =
  gt_sec :: int
  gt_nsec :: int
  gt_off :: int

definition zero_time :: gotime where
  "zero_time = \<lparr>gt_sec = - 62135596800, gt_nsec = 0, gt_off = 0\<rparr>"

definition time_IsZero :: "gotime \<Rightarrow> bool" where
  "time_IsZero t \<longleftrightarrow> gt_sec t = - 62135596800 \<and> gt_nsec t = 0"

definition time_Since :: "gotime \<Rightarrow> gotime \<Rightarrow> int" where
  "time_Since now t =
     time_sub (gt_sec now * second + gt_nsec now) (gt_sec t * second + gt_nsec t)"

section \<open>Calendar and formatting\<close>

text \<open>Year, month and day of a day number counted from 1970-01-01.\<close>

definition civil :: "int \<Rightarrow> int \<times> int \<times> int" where
  "civil days =
     (let z = days + 719468;
          era = z div 146097;
          doe = z mod 146097;
          yoe = (doe - doe div 1460 + doe div 36524 - doe div 146096) div 365;
          doy = doe - (365 * yoe + yoe div 4 - yoe div 100);
          mp = (5 * doy + 2) div 153;
          d = doy - (153 * mp + 2) div 5 + 1;
          m = (if mp < 10 then mp + 3 else mp - 9)
      in (yoe + era * 400 + (if m \<le> 2 then 1 else 0), m, d))"

definition pad :: "nat \<Rightarrow> int \<Rightarrow> string" where
  "pad w i =
     (let ds = nat_dec (nat \<bar>i\<bar>) in
      (if i < 0 then ''-'' else []) @ replicate (w - length ds) CHR ''0'' @ ds)"

definition format_zone :: "int \<Rightarrow> string" where
  "format_zone off =
     (if off = 0 then ''Z''
      else let z = off sdiv 60 in
           (if z < 0 then ''-'' else ''+'') @ pad 2 (\<bar>z\<bar> div 60) @ '':'' @ pad 2 (\<bar>z\<bar> mod 60))"

definition format_rfc3339 :: "gotime \<Rightarrow> string" where
  "format_rfc3339 t =
     (let l = gt_sec t + gt_off t;
          (y, m, d) = civil (l div 86400);
          s = l mod 86400
      in pad 4 y @ ''-'' @ pad 2 m @ ''-'' @ pad 2 d @ ''T'' @
         pad 2 (s div 3600) @ '':'' @ pad 2 (s div 60 mod 60) @ '':'' @ pad 2 (s mod 60) @
         format_zone (gt_off t))"

section \<open>Durations\<close>

definition duration_Round :: "int \<Rightarrow> int \<Rightarrow> int" where
  "duration_Round d m =
     (if m \<le> 0 then d
      else let r = \<bar>d\<bar> mod m in
           if d < 0
           then (if r + r < m then d + r
                 else if int64_min \<le> d - m + r then d - m + r else int64_min)
           else (if r + r < m then d - r
                 else if d + m - r \<le> int64_max then d + m - r else int64_max))"

text \<open>
  The fraction of \<open>fmtFrac\<close>: the last \<open>prec\<close> digits without trailing zeros, with the point.
\<close>

definition fmt_frac :: "nat \<Rightarrow> nat \<Rightarrow> string" where
  "fmt_frac v prec =
     (let ds = nat_dec (v mod 10 ^ prec);
          padded = replicate (prec - length ds) CHR ''0'' @ ds;
          kept = rev (dropWhile (\<lambda>c. c = CHR ''0'') (rev padded))
      in if kept = [] then [] else CHR ''.'' # kept)"

definition duration_String :: "int \<Rightarrow> string" where
  "duration_String d =
     (let u = nat \<bar>d\<bar>;
          body =
            (if u = 0 then ''0s''
             else if u < 1000 then nat_dec u @ ''ns''
             else if u < 1000000 then nat_dec (u div 1000) @ fmt_frac u 3 @ [CHR 0xC2, CHR 0xB5, CHR ''s'']
             else if u < 1000000000 then nat_dec (u div 1000000) @ fmt_frac u 6 @ ''ms''
             else let secs = u div 1000000000; mins = secs div 60; hours = mins div 60 in
                  (if hours > 0 then nat_dec hours @ ''h'' else []) @
                  (if mins > 0 then nat_dec (mins mod 60) @ ''m'' else []) @
                  nat_dec (secs mod 60) @ fmt_frac u 9 @ ''s'')
      in (if d < 0 then CHR ''-'' # body else body))"

section \<open>Facts\<close>

lemma duration_Round_multiple:
  assumes "0 < m" and "\<bar>d\<bar> < int64_max - m"
  shows "m dvd duration_Round d m" and "2 * \<bar>duration_Round d m - d\<bar> \<le> m"
proof -
  define r where "r = \<bar>d\<bar> mod m"
  have r: "0 \<le> r" "r < m" using assms(1) by (simp_all add: r_def)
  have dv: "m dvd \<bar>d\<bar> - r" by (simp add: r_def)
  have E: "duration_Round d m =
      (if d < 0 then (if r + r < m then d + r else d - m + r)
       else (if r + r < m then d - r else d + m - r))"
    using assms r by (auto simp: duration_Round_def Let_def r_def [symmetric] int64_min_def int64_max_def)
  show "m dvd duration_Round d m"
  proof (cases "d < 0")
    case True
    then have "m dvd - (d + r)" using dv by simp
    then have "m dvd d + r" by (simp only: dvd_minus_iff)
    moreover from this have "m dvd (d + r) - m" by (rule dvd_diff) simp
    moreover have "(d + r) - m = d - m + r" by simp
    ultimately show ?thesis using True unfolding E by (metis (full_types))
  next
    case False
    then have "m dvd d - r" using dv by simp
    moreover from this have "m dvd (d - r) + m" by (rule dvd_add) simp
    moreover have "(d - r) + m = d + m - r" by simp
    ultimately show ?thesis using False unfolding E by (metis (full_types))
  qed
  show "2 * \<bar>duration_Round d m - d\<bar> \<le> m"
    using r unfolding E by auto
qed

end
