(* ===== verification/KubeTypes.thy ===== *)
theory KubeTypes
  imports GoTime GoErrors
begin

text \<open>
  The data of \<open>internal/kube\<close>: the structs the agent returns (\<open>client.go\<close>, \<open>describe.go\<close>) and
  the objects of the Kubernetes API they are made from. Of the API objects, whose types are not
  part of the repository, the records hold the fields the agent reads and, for pods, the
  sensitive fields that the description must leave out (environment, commands, annotations,
  image and container ids).

  A Go slice whose being nil shows in the encoded response is an \<open>option\<close> of a list, with
  \<open>None\<close> for nil; a quantity is known by its \<open>IsZero\<close> and \<open>String\<close>, a port by its \<open>String\<close>.
\<close>

type_synonym 'a slice = "'a list option"
type_synonym labels = "string \<rightharpoonup> string"

section \<open>Results of the agent\<close>

record Namespace =
  ns_Name :: string
  ns_Labels :: labels
  ns_Status :: string

record ContainerStatus =
  cs_Name :: string
  cs_Ready :: bool
  cs_RestartCount :: int32
  cs_LastRestartAt :: string
  cs_Image :: string

record Pod =
  pod_Name :: string
  pod_Namespace :: string
  pod_Labels :: labels
  pod_Phase :: string
  pod_NodeName :: string
  pod_Containers :: "ContainerStatus list"
  pod_Age :: string

record LogResult =
  log_Logs :: string
  log_Truncated :: bool

record Event =
  ev_Namespace :: string
  ev_Name :: string
  ev_Type :: string
  ev_Reason :: string
  ev_Message :: string
  ev_Object :: string
  ev_Count :: int32
  ev_LastSeen :: string

record Deployment =
  dep_Name :: string
  dep_Namespace :: string
  dep_Labels :: labels
  dep_Replicas :: int32
  dep_ReadyReplicas :: int32
  dep_UpdatedReplicas :: int32
  dep_AvailableReplicas :: int32
  dep_Strategy :: string
  dep_Age :: string

record ServicePort =
  sp_Name :: string
  sp_Port :: int32
  sp_TargetPort :: string
  sp_Protocol :: string

record ServiceResource =
  svc_Name :: string
  svc_Namespace :: string
  svc_Labels :: labels
  svc_Type :: string
  svc_ClusterIP :: string
  svc_Ports :: "ServicePort list"
  svc_Age :: string

record RolloutStatus =
  ro_Deployment :: string
  ro_Namespace :: string
  ro_ObservedGeneration :: int64
  ro_Generation :: int64
  ro_Replicas :: int32
  ro_UpdatedReplicas :: int32
  ro_ReadyReplicas :: int32
  ro_AvailableReplicas :: int32
  ro_Complete :: bool
  ro_Message :: string

record PodMeta =
  pm_Name :: string
  pm_Namespace :: string
  pm_Owner :: string
  pm_Node :: string
  pm_PodIP :: string
  pm_Age :: string

record PodCondition =
  pc_Type :: string
  pc_Status :: string
  pc_Reason :: string
  pc_Message :: string

record DescribedStatus =
  ds_Phase :: string
  ds_Ready :: bool
  ds_Conditions :: "PodCondition list"
  ds_Reason :: string
  ds_Message :: string

record StateWaiting =
  sw_Reason :: string
  sw_Message :: string

record StateTerminated =
  st_ExitCode :: int32
  st_Reason :: string
  st_Message :: string
  st_FinishedAt :: string

text \<open>A running state only holds its start time.\<close>

record ContainerState =
  state_Running :: "string option"
  state_Waiting :: "StateWaiting option"
  state_Terminated :: "StateTerminated option"

record DescribedContainer =
  dc_Name :: string
  dc_Image :: string
  dc_Ready :: bool
  dc_State :: ContainerState
  dc_LastState :: "ContainerState option"
  dc_RestartCount :: int32
  dc_LastRestartAt :: string

record ContainerResourceSpec =
  rs_CPU :: string
  rs_Memory :: string

record ContainerResourceEntry =
  re_Name :: string
  re_Requests :: ContainerResourceSpec
  re_Limits :: ContainerResourceSpec

record PodResources =
  pr_QoSClass :: string
  pr_Containers :: "ContainerResourceEntry list"

record ProbeConfig =
  pb_Type :: string
  pb_Path :: string
  pb_Port :: string
  pb_InitialDelaySeconds :: int32
  pb_PeriodSeconds :: int32
  pb_TimeoutSeconds :: int32
  pb_SuccessThreshold :: int32
  pb_FailureThreshold :: int32

record ContainerProbes =
  cp_Name :: string
  cp_Readiness :: "ProbeConfig option"
  cp_Liveness :: "ProbeConfig option"
  cp_Startup :: "ProbeConfig option"

record PodDescription =
  pd_Metadata :: PodMeta
  pd_Status :: DescribedStatus
  pd_Containers :: "DescribedContainer list"
  pd_Resources :: PodResources
  pd_Probes :: "ContainerProbes list"
  pd_Events :: "Event slice"

section \<open>Objects of the Kubernetes API\<close>

record k8s_quantity =
  q_IsZero :: bool
  q_String :: string

record k8s_terminated =
  kt_ExitCode :: int32
  kt_Reason :: string
  kt_Message :: string
  kt_FinishedAt :: gotime
  kt_ContainerID :: string

record k8s_waiting =
  kw_Reason :: string
  kw_Message :: string

record k8s_state =
  ks_Running :: "gotime option"
  ks_Waiting :: "k8s_waiting option"
  ks_Terminated :: "k8s_terminated option"

record k8s_container_status =
  kcs_Name :: string
  kcs_Ready :: bool
  kcs_RestartCount :: int32
  kcs_Image :: string
  kcs_ImageID :: string
  kcs_ContainerID :: string
  kcs_State :: k8s_state
  kcs_LastTerminationState :: k8s_state

text \<open>A probe may have several handlers set; the agent takes the first in the order below.\<close>

record k8s_probe =
  kp_HTTPGet :: "(string \<times> string) option"
  kp_TCPSocket :: "string option"
  kp_GRPC :: "int32 option"
  kp_Exec :: "string list option"
  kp_InitialDelaySeconds :: int32
  kp_PeriodSeconds :: int32
  kp_TimeoutSeconds :: int32
  kp_SuccessThreshold :: int32
  kp_FailureThreshold :: int32

record k8s_container =
  kc_Name :: string
  kc_Image :: string
  kc_Command :: "string list"
  kc_Args :: "string list"
  kc_Env :: "(string \<times> string) list"
  kc_RequestCPU :: k8s_quantity
  kc_RequestMemory :: k8s_quantity
  kc_LimitCPU :: k8s_quantity
  kc_LimitMemory :: k8s_quantity
  kc_ReadinessProbe :: "k8s_probe option"
  kc_LivenessProbe :: "k8s_probe option"
  kc_StartupProbe :: "k8s_probe option"

record k8s_condition =
  kd_Type :: string
  kd_Status :: string
  kd_Reason :: string
  kd_Message :: string

record k8s_pod =
  kpod_Name :: string
  kpod_Namespace :: string
  kpod_Labels :: labels
  kpod_Annotations :: labels
  kpod_Owners :: "(string \<times> string) list"
  kpod_Created :: gotime
  kpod_NodeName :: string
  kpod_Containers :: "k8s_container list"
  kpod_Phase :: string
  kpod_PodIP :: string
  kpod_QOSClass :: string
  kpod_Reason :: string
  kpod_Message :: string
  kpod_Conditions :: "k8s_condition list"
  kpod_ContainerStatuses :: "k8s_container_status list"

record k8s_event =
  kev_Namespace :: string
  kev_Name :: string
  kev_Type :: string
  kev_Reason :: string
  kev_Message :: string
  kev_Kind :: string
  kev_ObjectName :: string
  kev_Count :: int32
  kev_LastTimestamp :: gotime
  kev_EventTime :: gotime

record k8s_deployment =
  kdep_Name :: string
  kdep_Namespace :: string
  kdep_Labels :: labels
  kdep_Created :: gotime
  kdep_Generation :: int64
  kdep_Replicas :: "int32 option"
  kdep_Strategy :: string
  kdep_ObservedGeneration :: int64
  kdep_UpdatedReplicas :: int32
  kdep_ReadyReplicas :: int32
  kdep_AvailableReplicas :: int32

record k8s_port =
  kport_Name :: string
  kport_Port :: int32
  kport_TargetPort :: string
  kport_Protocol :: string

record k8s_service =
  ksvc_Name :: string
  ksvc_Namespace :: string
  ksvc_Labels :: labels
  ksvc_Created :: gotime
  ksvc_Type :: string
  ksvc_ClusterIP :: string
  ksvc_Ports :: "k8s_port list"

record k8s_namespace =
  kns_Name :: string
  kns_Labels :: labels
  kns_Phase :: string

end
