(* ===== verification/KubeConvert.thy ===== *)
theory KubeConvert
  imports KubeTypes "HOL-Library.Multiset"
begin

text \<open>
  The conversions of \<open>internal/kube\<close>: from objects of the Kubernetes API to the structs of the
  agent (\<open>pods.go\<close>, \<open>deployments.go\<close>, \<open>services.go\<close>, \<open>events.go\<close>, \<open>namespaces.go\<close>,
  \<open>describe.go\<close>). The age of an object depends on the clock, which is the argument \<open>now\<close>.

  \<open>sort.Slice\<close> is not stable, so the sorter of the event list is an argument; the locale
  \<open>slice_sorter\<close> states what \<open>sort.Slice\<close> documents, and \<open>insertion_sort\<close>, which is what the
  Go library runs on slices of up to twelve elements, is shown to satisfy it.
\<close>

section \<open>Pods\<close>

definition age :: "gotime \<Rightarrow> gotime \<Rightarrow> string" where
  "age now created =
     (if time_IsZero created then []
      else duration_String (duration_Round (time_Since now created) second))"

definition lastRestartAt :: "k8s_container_status \<Rightarrow> string" where
  "lastRestartAt status =
     (case ks_Terminated (kcs_LastTerminationState status) of
        None \<Rightarrow> []
      | Some term \<Rightarrow>
          if time_IsZero (kt_FinishedAt term) then [] else format_rfc3339 (kt_FinishedAt term))"

text \<open>Filling a map from container names to values, a later container winning.\<close>

fun container_map :: "(k8s_container \<Rightarrow> string) \<Rightarrow> k8s_container list \<Rightarrow> (string \<rightharpoonup> string) \<Rightarrow> (string \<rightharpoonup> string)" where
  "container_map f [] m = m"
| "container_map f (c # cs) m = container_map f cs (m(kc_Name c \<mapsto> f c))"

text \<open>Reading a Go map of strings: a missing key gives the empty string.\<close>

definition map_get :: "(string \<rightharpoonup> string) \<Rightarrow> string \<Rightarrow> string" where
  "map_get m k = (case m k of None \<Rightarrow> [] | Some v \<Rightarrow> v)"

definition toPod :: "gotime \<Rightarrow> k8s_pod \<Rightarrow> Pod" where
  "toPod now pod =
     (let images = container_map kc_Image (kpod_Containers pod) Map.empty in
      \<lparr>pod_Name = kpod_Name pod, pod_Namespace = kpod_Namespace pod, pod_Labels = kpod_Labels pod,
       pod_Phase = kpod_Phase pod, pod_NodeName = kpod_NodeName pod,
       pod_Containers =
         map (\<lambda>status.
           \<lparr>cs_Name = kcs_Name status, cs_Ready = kcs_Ready status,
            cs_RestartCount = kcs_RestartCount status, cs_LastRestartAt = lastRestartAt status,
            cs_Image = map_get images (kcs_Name status)\<rparr>) (kpod_ContainerStatuses pod),
       pod_Age = age now (kpod_Created pod)\<rparr>)"

section \<open>Deployments and services\<close>

definition desired_replicas :: "k8s_deployment \<Rightarrow> int32" where
  "desired_replicas d = (case kdep_Replicas d of None \<Rightarrow> 1 | Some n \<Rightarrow> n)"

definition toDeployment :: "gotime \<Rightarrow> k8s_deployment \<Rightarrow> Deployment" where
  "toDeployment now d =
     \<lparr>dep_Name = kdep_Name d, dep_Namespace = kdep_Namespace d, dep_Labels = kdep_Labels d,
      dep_Replicas = desired_replicas d, dep_ReadyReplicas = kdep_ReadyReplicas d,
      dep_UpdatedReplicas = kdep_UpdatedReplicas d,
      dep_AvailableReplicas = kdep_AvailableReplicas d, dep_Strategy = kdep_Strategy d,
      dep_Age = age now (kdep_Created d)\<rparr>"

definition rollout_of :: "k8s_deployment \<Rightarrow> RolloutStatus" where
  "rollout_of d =
     (let desired = desired_replicas d;
          complete = (kdep_Generation d \<le>s kdep_ObservedGeneration d \<and>
            kdep_UpdatedReplicas d = desired \<and> kdep_ReadyReplicas d = desired \<and>
            kdep_AvailableReplicas d = desired);
          message1 = (if complete then ''rollout is complete'' else ''rollout is in progress'');
          message2 = (if kdep_ObservedGeneration d <s kdep_Generation d
            then ''deployment controller has not observed the latest generation'' else message1)
      in \<lparr>ro_Deployment = kdep_Name d, ro_Namespace = kdep_Namespace d,
          ro_ObservedGeneration = kdep_ObservedGeneration d, ro_Generation = kdep_Generation d,
          ro_Replicas = desired, ro_UpdatedReplicas = kdep_UpdatedReplicas d,
          ro_ReadyReplicas = kdep_ReadyReplicas d, ro_AvailableReplicas = kdep_AvailableReplicas d,
          ro_Complete = complete, ro_Message = message2\<rparr>)"

definition toService :: "gotime \<Rightarrow> k8s_service \<Rightarrow> ServiceResource" where
  "toService now svc =
     \<lparr>svc_Name = ksvc_Name svc, svc_Namespace = ksvc_Namespace svc, svc_Labels = ksvc_Labels svc,
      svc_Type = ksvc_Type svc, svc_ClusterIP = ksvc_ClusterIP svc,
      svc_Ports =
        map (\<lambda>port. \<lparr>sp_Name = kport_Name port, sp_Port = kport_Port port,
                     sp_TargetPort = kport_TargetPort port, sp_Protocol = kport_Protocol port\<rparr>)
          (ksvc_Ports svc),
      svc_Age = age now (ksvc_Created svc)\<rparr>"

definition toNamespace :: "k8s_namespace \<Rightarrow> Namespace" where
  "toNamespace ns = \<lparr>ns_Name = kns_Name ns, ns_Labels = kns_Labels ns, ns_Status = kns_Phase ns\<rparr>"

section \<open>Events\<close>

definition toEventItem :: "k8s_event \<Rightarrow> Event" where
  "toEventItem e =
     (let lastSeen = (if time_IsZero (kev_LastTimestamp e) then kev_EventTime e else kev_LastTimestamp e)
      in \<lparr>ev_Namespace = kev_Namespace e, ev_Name = kev_Name e, ev_Type = kev_Type e,
          ev_Reason = kev_Reason e, ev_Message = kev_Message e,
          ev_Object = kev_Kind e @ ''/'' @ kev_ObjectName e,
          ev_Count = kev_Count e, ev_LastSeen = format_rfc3339 lastSeen\<rparr>)"

text \<open>The comparison of \<open>sortAndLimitEvents\<close>: warnings first, then newest first.\<close>

definition event_less :: "Event \<Rightarrow> Event \<Rightarrow> bool" where
  "event_less a b =
     (let wi = (ev_Type a = ''Warning''); wj = (ev_Type b = ''Warning'') in
      if wi \<noteq> wj then wi else ev_LastSeen b < ev_LastSeen a)"

type_synonym 'a sorter = "('a \<Rightarrow> 'a \<Rightarrow> bool) \<Rightarrow> 'a list \<Rightarrow> 'a list"

definition sortAndLimitEvents :: "Event sorter \<Rightarrow> Event list \<Rightarrow> nat \<Rightarrow> Event list" where
  "sortAndLimitEvents sorter events limit =
     (let events' = sorter event_less events in
      if length events' > limit then take limit events' else events')"

text \<open>The insertion sort of the Go library, from the front, moving each element left.\<close>

fun sift_left :: "('a \<Rightarrow> 'a \<Rightarrow> bool) \<Rightarrow> 'a \<Rightarrow> 'a list \<Rightarrow> 'a list" where
  "sift_left lt x [] = [x]"
| "sift_left lt x (y # ys) = (if lt x y then y # sift_left lt x ys else x # y # ys)"

definition insertion_sort :: "'a sorter" where
  "insertion_sort lt xs = rev (fold (sift_left lt) xs [])"

text \<open>
  What \<open>sort.Slice\<close> documents for a strict weak order: a permutation without inversions.
\<close>

definition weak_order :: "('a \<Rightarrow> 'a \<Rightarrow> bool) \<Rightarrow> bool" where
  "weak_order lt \<longleftrightarrow> (\<forall>x. \<not> lt x x) \<and> (\<forall>x y z. lt x y \<longrightarrow> lt y z \<longrightarrow> lt x z) \<and>
     (\<forall>x y z. \<not> lt x y \<longrightarrow> \<not> lt y z \<longrightarrow> \<not> lt x z)"

locale slice_sorter =
  fixes sorter :: "'a sorter"
  assumes sorter_permutes: "weak_order lt \<Longrightarrow> mset (sorter lt xs) = mset xs"
    and sorter_sorts: "weak_order lt \<Longrightarrow> sorted_wrt (\<lambda>x y. \<not> lt y x) (sorter lt xs)"
begin

lemma sorter_length: "weak_order lt \<Longrightarrow> length (sorter lt xs) = length xs"
  using sorter_permutes [of lt xs] by (metis size_mset)

lemma sorter_set: "weak_order lt \<Longrightarrow> set (sorter lt xs) = set xs"
  using sorter_permutes [of lt xs] by (metis set_mset_mset)

end

lemma weak_order_event: "weak_order event_less"
  unfolding weak_order_def event_less_def Let_def
  by (auto split: if_splits)

lemma mset_sift_left: "mset (sift_left lt x ys) = add_mset x (mset ys)"
  by (induction ys) auto

lemma set_sift_left: "set (sift_left lt x ys) = insert x (set ys)"
  by (induction ys) auto

lemma mset_fold_sift: "mset (fold (sift_left lt) xs ys) = mset xs + mset ys"
  by (induction xs arbitrary: ys) (auto simp: mset_sift_left)

lemma sift_left_sorted:
  assumes "weak_order lt"
  shows "sorted_wrt (\<lambda>x y. \<not> lt x y) ys \<Longrightarrow> sorted_wrt (\<lambda>x y. \<not> lt x y) (sift_left lt x ys)"
proof (induction ys)
  case Nil
  then show ?case by simp
next
  case (Cons y ys)
  have neg: "\<not> lt x z" if "\<not> lt x y" "\<not> lt y z" for z
    using assms that unfolding weak_order_def by blast
  have asym: "\<not> lt y x" if "lt x y"
    using assms that unfolding weak_order_def by blast
  show ?case
  proof (cases "lt x y")
    case True
    with Cons asym show ?thesis by (simp add: set_sift_left)
  next
    case False
    with Cons.prems neg show ?thesis by simp
  qed
qed

lemma fold_sift_sorted:
  "weak_order lt \<Longrightarrow> sorted_wrt (\<lambda>x y. \<not> lt x y) ys \<Longrightarrow>
    sorted_wrt (\<lambda>x y. \<not> lt x y) (fold (sift_left lt) xs ys)"
  by (induction xs arbitrary: ys) (auto simp: sift_left_sorted)

interpretation go_sort: slice_sorter insertion_sort
  by unfold_locales
    (auto simp: insertion_sort_def mset_fold_sift sorted_wrt_rev fold_sift_sorted)

section \<open>Describing a pod\<close>

definition stripImageDigest :: "string \<Rightarrow> string" where
  "stripImageDigest img = takeWhile (\<lambda>c. c \<noteq> CHR ''@'') img"

definition isNonEmptyState :: "k8s_state \<Rightarrow> bool" where
  "isNonEmptyState s \<longleftrightarrow> ks_Running s \<noteq> None \<or> ks_Waiting s \<noteq> None \<or> ks_Terminated s \<noteq> None"

definition toContainerState :: "k8s_state \<Rightarrow> ContainerState" where
  "toContainerState s =
     \<lparr>state_Running = map_option format_rfc3339 (ks_Running s),
      state_Waiting = map_option (\<lambda>w. \<lparr>sw_Reason = kw_Reason w, sw_Message = kw_Message w\<rparr>) (ks_Waiting s),
      state_Terminated = map_option (\<lambda>t. \<lparr>st_ExitCode = kt_ExitCode t, st_Reason = kt_Reason t,
        st_Message = kt_Message t, st_FinishedAt = format_rfc3339 (kt_FinishedAt t)\<rparr>) (ks_Terminated s)\<rparr>"

definition toProbeConfig :: "k8s_probe option \<Rightarrow> ProbeConfig option" where
  "toProbeConfig probe =
     (case probe of
        None \<Rightarrow> None
      | Some p \<Rightarrow>
          let cfg = \<lparr>pb_Type = [], pb_Path = [], pb_Port = [],
                pb_InitialDelaySeconds = kp_InitialDelaySeconds p, pb_PeriodSeconds = kp_PeriodSeconds p,
                pb_TimeoutSeconds = kp_TimeoutSeconds p, pb_SuccessThreshold = kp_SuccessThreshold p,
                pb_FailureThreshold = kp_FailureThreshold p\<rparr>
          in Some
            (case kp_HTTPGet p of
               Some (path, port) \<Rightarrow> cfg\<lparr>pb_Type := ''http'', pb_Path := path, pb_Port := port\<rparr>
             | None \<Rightarrow>
                 (case kp_TCPSocket p of
                    Some port \<Rightarrow> cfg\<lparr>pb_Type := ''tcp'', pb_Port := port\<rparr>
                  | None \<Rightarrow>
                      (case kp_GRPC p of
                         Some port \<Rightarrow> cfg\<lparr>pb_Type := ''grpc'', pb_Port := int_dec (sint port)\<rparr>
                       | None \<Rightarrow>
                           (case kp_Exec p of
                              Some command \<Rightarrow> cfg\<lparr>pb_Type := ''exec''\<rparr>
                            | None \<Rightarrow> cfg)))))"

definition quantity_text :: "k8s_quantity \<Rightarrow> string" where
  "quantity_text q = (if q_IsZero q then [] else q_String q)"

definition toResourceEntry :: "k8s_container \<Rightarrow> ContainerResourceEntry" where
  "toResourceEntry c =
     \<lparr>re_Name = kc_Name c,
      re_Requests = \<lparr>rs_CPU = quantity_text (kc_RequestCPU c), rs_Memory = quantity_text (kc_RequestMemory c)\<rparr>,
      re_Limits = \<lparr>rs_CPU = quantity_text (kc_LimitCPU c), rs_Memory = quantity_text (kc_LimitMemory c)\<rparr>\<rparr>"

definition toContainerProbes :: "k8s_container \<Rightarrow> ContainerProbes" where
  "toContainerProbes c =
     \<lparr>cp_Name = kc_Name c, cp_Readiness = toProbeConfig (kc_ReadinessProbe c),
      cp_Liveness = toProbeConfig (kc_LivenessProbe c), cp_Startup = toProbeConfig (kc_StartupProbe c)\<rparr>"

definition has_probe :: "ContainerProbes \<Rightarrow> bool" where
  "has_probe cp \<longleftrightarrow> cp_Readiness cp \<noteq> None \<or> cp_Liveness cp \<noteq> None \<or> cp_Startup cp \<noteq> None"

definition toDescribedContainer :: "(string \<rightharpoonup> string) \<Rightarrow> k8s_container_status \<Rightarrow> DescribedContainer" where
  "toDescribedContainer specImages cs =
     (let img = (let i = map_get specImages (kcs_Name cs) in
            if i = [] then stripImageDigest (kcs_Image cs) else i)
      in \<lparr>dc_Name = kcs_Name cs, dc_Image = img, dc_Ready = kcs_Ready cs,
          dc_State = toContainerState (kcs_State cs),
          dc_LastState = (if isNonEmptyState (kcs_LastTerminationState cs)
             then Some (toContainerState (kcs_LastTerminationState cs)) else None),
          dc_RestartCount = kcs_RestartCount cs, dc_LastRestartAt = lastRestartAt cs\<rparr>)"

text \<open>The loop over the statuses stops at the first container that is not ready.\<close>

fun all_ready_loop :: "k8s_container_status list \<Rightarrow> bool \<Rightarrow> bool" where
  "all_ready_loop [] allReady = allReady"
| "all_ready_loop (cs # css) allReady = (if \<not> kcs_Ready cs then False else all_ready_loop css allReady)"

definition toPodDescription :: "gotime \<Rightarrow> k8s_pod \<Rightarrow> Event slice \<Rightarrow> PodDescription" where
  "toPodDescription now pod events =
     (let meta = \<lparr>pm_Name = kpod_Name pod, pm_Namespace = kpod_Namespace pod,
            pm_Owner = (case kpod_Owners pod of [] \<Rightarrow> [] | (kind, name) # _ \<Rightarrow> kind @ ''/'' @ name),
            pm_Node = kpod_NodeName pod, pm_PodIP = kpod_PodIP pod, pm_Age = age now (kpod_Created pod)\<rparr>;
          allReady = all_ready_loop (kpod_ContainerStatuses pod) (kpod_ContainerStatuses pod \<noteq> []);
          conditions = map (\<lambda>c. \<lparr>pc_Type = kd_Type c, pc_Status = kd_Status c,
            pc_Reason = kd_Reason c, pc_Message = kd_Message c\<rparr>) (kpod_Conditions pod);
          status = \<lparr>ds_Phase = kpod_Phase pod, ds_Ready = allReady, ds_Conditions = conditions,
            ds_Reason = kpod_Reason pod, ds_Message = kpod_Message pod\<rparr>;
          specImages = container_map (\<lambda>c. stripImageDigest (kc_Image c)) (kpod_Containers pod) Map.empty
      in \<lparr>pd_Metadata = meta, pd_Status = status,
          pd_Containers = map (toDescribedContainer specImages) (kpod_ContainerStatuses pod),
          pd_Resources = \<lparr>pr_QoSClass = kpod_QOSClass pod,
            pr_Containers = map toResourceEntry (kpod_Containers pod)\<rparr>,
          pd_Probes = filter has_probe (map toContainerProbes (kpod_Containers pod)),
          pd_Events = events\<rparr>)"

section \<open>Properties\<close>

text \<open>
  For any sorter that keeps the contract of \<open>sort.Slice\<close>, the events kept are in order (warnings
  first, then newest first), there are \<open>limit\<close> of them or all, and no dropped event should have come before
  a kept one; nothing is invented or duplicated.
\<close>

theorem sorted_limited_events:
  assumes "slice_sorter sorter"
  shows "\<exists>rest. mset (sortAndLimitEvents sorter events limit) + rest = mset events \<and>
    length (sortAndLimitEvents sorter events limit) = min limit (length events) \<and>
    sorted_wrt (\<lambda>x y. \<not> event_less y x) (sortAndLimitEvents sorter events limit) \<and>
    (\<forall>x\<in>set (sortAndLimitEvents sorter events limit). \<forall>y\<in>#rest. \<not> event_less y x)"
proof -
  let ?s = "sorter event_less events"
  have k: "sortAndLimitEvents sorter events limit = take limit ?s"
    by (simp add: sortAndLimitEvents_def Let_def)
  have m: "mset (take limit ?s) + mset (drop limit ?s) = mset events"
    using slice_sorter.sorter_permutes [OF assms weak_order_event, of events]
    by (metis append_take_drop_id mset_append)
  have w: "sorted_wrt (\<lambda>x y. \<not> event_less y x) (take limit ?s @ drop limit ?s)"
    using slice_sorter.sorter_sorts [OF assms weak_order_event, of events] by simp
  have l: "length (take limit ?s) = min limit (length events)"
    using slice_sorter.sorter_length [OF assms weak_order_event, of events] by simp
  show ?thesis
    unfolding k using m l w unfolding sorted_wrt_append
    by (intro exI [of _ "mset (drop limit ?s)"] conjI) (blast | simp only: set_mset_mset)+
qed

definition example_event :: "string \<Rightarrow> string \<Rightarrow> Event" where
  "example_event ty seen = \<lparr>ev_Namespace = ''shop'', ev_Name = ''web'', ev_Type = ty, ev_Reason = [],
     ev_Message = [], ev_Object = ''Pod/web'', ev_Count = 1, ev_LastSeen = seen\<rparr>"

theorem sorted_limited_events_witness:
  "length (sortAndLimitEvents insertion_sort [example_event ''Normal'' ''2026'', example_event ''Warning'' ''2025''] 1) = 1 \<and>
   sortAndLimitEvents insertion_sort [example_event ''Normal'' ''2026'', example_event ''Warning'' ''2025''] 1 =
     [example_event ''Warning'' ''2025'']"
  using sorted_limited_events [OF go_sort.slice_sorter_axioms, of
      "[example_event ''Normal'' ''2026'', example_event ''Warning'' ''2025'']" 1]
  by (simp add: sortAndLimitEvents_def insertion_sort_def event_less_def example_event_def)

lemma all_ready_loop_eq: "all_ready_loop css r \<longleftrightarrow> r \<and> list_all kcs_Ready css"
  by (induction css) (auto split: if_splits)

text \<open>
  A pod is described as ready exactly when it reports at least one container and every one
  it reports is ready; the early exit of the loop does not change that.
\<close>

theorem described_pod_ready:
  "ds_Ready (pd_Status (toPodDescription now pod events)) \<longleftrightarrow>
     kpod_ContainerStatuses pod \<noteq> [] \<and> list_all kcs_Ready (kpod_ContainerStatuses pod)"
  by (simp add: toPodDescription_def Let_def all_ready_loop_eq)

end
