(* ===== verification/Backoff.thy ===== *)
theory Backoff
  imports GoErrors
begin

text \<open>
  The reconnect delays of \<open>internal/gateway/reconnect.go\<close>: exponential growth between two
  bounds, with a random jitter of up to half the current delay on top.

  The growth goes through \<open>float64\<close>. The floats that occur hold integers, so a float is an
  \<open>int\<close> here and every result is rounded to 53 significant bits, to nearest and ties to even.
  The Go specification leaves open what converting a float outside the range of \<open>int64\<close> gives;
  that value is the parameter \<open>ovf\<close>. The random source is the parameter \<open>draw\<close>: every value
  that \<open>rand.Int64N(n)\<close> can return is \<open>draw mod n\<close> for some \<open>draw\<close>. A panic of the code is
  \<open>Inl\<close>.
\<close>

section \<open>Panics, floats and random numbers\<close>

datatype go_panic = Panic string

fun bit_length :: "nat \<Rightarrow> nat" where
  "bit_length n = (if n = 0 then 0 else Suc (bit_length (n div 2)))"

declare bit_length.simps [simp del]

definition f64_round_nat :: "nat \<Rightarrow> nat" where
  "f64_round_nat n =
     (if n < 2 ^ 53 then n
      else let e = bit_length n - 53; q = n div 2 ^ e; r = n mod 2 ^ e; half = 2 ^ (e - 1)
           in (if half < r \<or> r = half \<and> odd q then q + 1 else q) * 2 ^ e)"

definition f64_round :: "int \<Rightarrow> int" where
  "f64_round x = (if x < 0 then - int (f64_round_nat (nat (- x))) else int (f64_round_nat (nat x)))"

definition f64_mult :: "int \<Rightarrow> int \<Rightarrow> int" where
  "f64_mult x y = f64_round (x * y)"

definition f64_to_int64 :: "(int \<Rightarrow> int64) \<Rightarrow> int \<Rightarrow> int64" where
  "f64_to_int64 ovf x = (if int64_min \<le> x \<and> x \<le> int64_max then word_of_int x else ovf x)"

definition Int64N :: "nat \<Rightarrow> int64 \<Rightarrow> go_panic + int64" where
  "Int64N draw n =
     (if n \<le>s 0 then Inl (Panic ''invalid argument to Int64N'')
      else Inr (word_of_int (int draw mod sint n)))"

definition div2 :: "int64 \<Rightarrow> int64" where
  "div2 x = word_of_int (sint x sdiv 2)"

section \<open>The backoff\<close>

record Backoff =
  bo_Min :: int64
  bo_Max :: int64
  bo_Factor :: int
  bo_current :: int64

definition NewBackoff :: "int64 \<Rightarrow> int64 \<Rightarrow> Backoff" where
  "NewBackoff mn mx = \<lparr>bo_Min = mn, bo_Max = mx, bo_Factor = 2, bo_current = 0\<rparr>"

definition Backoff_Reset :: "Backoff \<Rightarrow> Backoff" where
  "Backoff_Reset b = b\<lparr>bo_current := 0\<rparr>"

definition grow :: "(int \<Rightarrow> int64) \<Rightarrow> Backoff \<Rightarrow> int64" where
  "grow ovf b =
     (if bo_current b = 0 then bo_Min b
      else let nxt = f64_to_int64 ovf (f64_mult (f64_round (sint (bo_current b))) (bo_Factor b))
           in if bo_Max b <s nxt then bo_Max b else nxt)"

definition Backoff_Next :: "(int \<Rightarrow> int64) \<Rightarrow> nat \<Rightarrow> Backoff \<Rightarrow> go_panic + int64 \<times> Backoff" where
  "Backoff_Next ovf draw b =
     (let b' = b\<lparr>bo_current := grow ovf b\<rparr> in
      case Int64N draw (div2 (bo_current b')) of
        Inl p \<Rightarrow> Inl p
      | Inr jitter \<Rightarrow> Inr (bo_current b' + jitter, b'))"

text \<open>A run of \<open>Next\<close> calls, one per random draw: the delays and the last state.\<close>

fun next_delays :: "(int \<Rightarrow> int64) \<Rightarrow> nat list \<Rightarrow> Backoff \<Rightarrow> go_panic + int64 list \<times> Backoff" where
  "next_delays ovf [] b = Inr ([], b)"
| "next_delays ovf (r # rs) b =
     (case Backoff_Next ovf r b of
        Inl p \<Rightarrow> Inl p
      | Inr (d, b') \<Rightarrow>
          (case next_delays ovf rs b' of
             Inl p \<Rightarrow> Inl p | Inr (ds, b'') \<Rightarrow> Inr (d # ds, b'')))"

section \<open>The ideal schedule\<close>

text \<open>
  The bounds under which the floating-point growth is exact. The client uses one second and
  thirty seconds (\<open>reconnect_backoff_ok\<close> in the theory of the client).
\<close>

definition backoff_ok :: "Backoff \<Rightarrow> bool" where
  "backoff_ok b \<longleftrightarrow> 2 \<le> sint (bo_Min b) \<and> sint (bo_Min b) \<le> sint (bo_Max b) \<and>
     sint (bo_Max b) < 2 ^ 52 \<and> bo_Factor b = 2 \<and>
     (bo_current b = 0 \<or> sint (bo_Min b) \<le> sint (bo_current b) \<and> sint (bo_current b) \<le> sint (bo_Max b))"

text \<open>The delay before the jitter, as a number: doubled and capped.\<close>

definition ideal_next :: "Backoff \<Rightarrow> int" where
  "ideal_next b =
     (if bo_current b = 0 then sint (bo_Min b) else min (sint (bo_Max b)) (2 * sint (bo_current b)))"

lemma f64_round_small: "\<bar>x\<bar> < 2 ^ 53 \<Longrightarrow> f64_round x = x"
  by (auto simp: f64_round_def f64_round_nat_def nat_less_iff)

lemma sint_grow:
  assumes "backoff_ok b"
  shows "sint (grow ovf b) = ideal_next b"
proof (cases "bo_current b = 0")
  case True
  then show ?thesis by (simp add: grow_def ideal_next_def)
next
  case False
  define c where "c = sint (bo_current b)"
  have c: "2 \<le> c" "c < 2 ^ 52" and f: "bo_Factor b = 2" and mx: "sint (bo_Max b) < 2 ^ 52"
    using assms False by (auto simp: backoff_ok_def c_def)
  have "f64_mult (f64_round c) 2 = 2 * c"
    using c by (simp add: f64_mult_def f64_round_small)
  moreover have "f64_to_int64 ovf (2 * c) = word_of_int (2 * c)"
    using c by (simp add: f64_to_int64_def int64_min_def int64_max_def)
  moreover have "sint (word_of_int (2 * c) :: int64) = 2 * c"
    unfolding sint_word_of_int_64 using c by (simp add: wrap64_id)
  ultimately show ?thesis
    using False f mx by (auto simp: grow_def ideal_next_def c_def i64_simps)
qed

lemma ideal_next_range:
  assumes "backoff_ok b"
  shows "sint (bo_Min b) \<le> ideal_next b" and "ideal_next b \<le> sint (bo_Max b)"
  using assms by (auto simp: ideal_next_def backoff_ok_def)

lemma div2_half:
  assumes "0 \<le> sint x"
  shows "sint (div2 x) = sint x div 2"
proof -
  have "sint x sdiv 2 = sint x div 2"
    using assms by (cases "sint x = 0") (simp_all add: signed_divide_int_def)
  moreover have "sint x div 2 < 2 ^ 63" "- (2 ^ 63) \<le> sint x div 2"
    using assms sint_range_64(2) [of x] by simp_all
  ultimately show ?thesis by (simp add: div2_def sint_word_of_int_64 wrap64_id)
qed

text \<open>One call: no panic, the doubled and capped delay, and less than half of it as jitter.\<close>

lemma Backoff_Next_spec:
  assumes "backoff_ok b"
  obtains d b' where "Backoff_Next ovf r b = Inr (d, b')" "backoff_ok b'"
    "sint (bo_current b') = ideal_next b" "bo_Min b' = bo_Min b" "bo_Max b' = bo_Max b"
    "ideal_next b \<le> sint d" "2 * sint d < 3 * ideal_next b"
proof -
  let ?c = "grow ovf b"
  note C = sint_grow [OF assms, of ovf] ideal_next_range [OF assms]
  have lo: "2 \<le> sint ?c" and hi: "sint ?c < 2 ^ 52"
    using C assms by (auto simp: backoff_ok_def)
  have half: "sint (div2 ?c) = sint ?c div 2" using lo by (intro div2_half) simp
  then have pos: "\<not> div2 ?c \<le>s 0" using lo by (simp add: i64_simps)
  define j where "j = int r mod (sint ?c div 2)"
  have j: "0 \<le> j" "j < sint ?c div 2" using lo by (simp_all add: j_def)
  have sj: "sint (word_of_int j :: int64) = j"
    using j hi by (simp add: sint_word_of_int_64 wrap64_id)
  have sd: "sint (?c + word_of_int j) = sint ?c + j"
    using j hi lo by (simp add: sint_add_64 sj wrap64_id)
  have "Backoff_Next ovf r b = Inr (?c + word_of_int j, b\<lparr>bo_current := ?c\<rparr>)"
    using pos by (simp add: Backoff_Next_def Int64N_def half j_def)
  moreover have "backoff_ok (b\<lparr>bo_current := ?c\<rparr>)"
    using assms C by (simp add: backoff_ok_def)
  moreover have "2 * sint (?c + word_of_int j) < 3 * ideal_next b"
    using sd j C by linarith
  ultimately show thesis using sd j C by (intro that [of "?c + word_of_int j" "b\<lparr>bo_current := ?c\<rparr>"]) auto
qed

text \<open>A run from a fresh backoff follows the schedule \<open>min Max (Min * 2 ^ k)\<close>.\<close>

definition scheduled :: "Backoff \<Rightarrow> nat \<Rightarrow> int" where
  "scheduled b k = min (sint (bo_Max b)) (sint (bo_Min b) * 2 ^ k)"

lemma min_double: "(0::int) < m \<Longrightarrow> min M (2 * min M (m * 2 ^ k)) = min M (m * 2 ^ Suc k)" if "0 < M"
  using that by (auto simp: min_def)

lemma next_delays_schedule:
  assumes "backoff_ok b" and "ideal_next b = scheduled b k"
  shows "\<exists>ds b'. next_delays ovf rs b = Inr (ds, b') \<and> length ds = length rs \<and> backoff_ok b' \<and>
    (\<forall>i < length rs. scheduled b (k + i) \<le> sint (ds ! i) \<and> 2 * sint (ds ! i) < 3 * scheduled b (k + i))"
  using assms
proof (induction rs arbitrary: b k)
  case Nil
  then show ?case by simp
next
  case (Cons r rs)
  from Cons.prems(1) obtain d b' where
    N: "Backoff_Next ovf r b = Inr (d, b')" "backoff_ok b'" "sint (bo_current b') = ideal_next b"
      "bo_Min b' = bo_Min b" "bo_Max b' = bo_Max b" "ideal_next b \<le> sint d" "2 * sint d < 3 * ideal_next b"
    by (rule Backoff_Next_spec)
  have m: "0 < sint (bo_Min b)" "0 < sint (bo_Max b)" using Cons.prems(1) by (auto simp: backoff_ok_def)
  have S: "scheduled b' i = scheduled b i" for i by (simp add: scheduled_def N)
  have "0 < ideal_next b" using ideal_next_range [OF Cons.prems(1)] m by simp
  then have "bo_current b' \<noteq> 0" using N(3) by auto
  then have "ideal_next b' = scheduled b' (Suc k)"
    using Cons.prems(2) N m min_double [of "sint (bo_Max b)" "sint (bo_Min b)" k]
    by (simp add: ideal_next_def scheduled_def)
  from Cons.IH [OF N(2) this] obtain ds b'' where
    D: "next_delays ovf rs b' = Inr (ds, b'')" "length ds = length rs" "backoff_ok b''"
      "\<And>i. i < length rs \<Longrightarrow> scheduled b (Suc k + i) \<le> sint (ds ! i) \<and> 2 * sint (ds ! i) < 3 * scheduled b (Suc k + i)"
    by (auto simp: S)
  have "scheduled b (k + i) \<le> sint ((d # ds) ! i) \<and> 2 * sint ((d # ds) ! i) < 3 * scheduled b (k + i)"
    if "i < Suc (length rs)" for i
    using that D(4) N(6,7) Cons.prems(2) by (cases i) auto
  then show ?case using N(1) D by (intro exI [of _ "d # ds"] exI [of _ b'']) simp
qed

lemma NewBackoff_start:
  assumes "2 \<le> sint mn" and "sint mn \<le> sint mx" and "sint mx < 2 ^ 52"
  shows "backoff_ok (NewBackoff mn mx)" and "ideal_next (NewBackoff mn mx) = scheduled (NewBackoff mn mx) 0"
  using assms by (simp_all add: backoff_ok_def NewBackoff_def ideal_next_def scheduled_def)

lemma Backoff_Reset_ok: "backoff_ok b \<Longrightarrow> backoff_ok (Backoff_Reset b) \<and> ideal_next (Backoff_Reset b) = sint (bo_Min b)"
  by (simp add: backoff_ok_def Backoff_Reset_def ideal_next_def)

section \<open>Properties\<close>

definition reconnect_backoff :: Backoff where
  "reconnect_backoff = NewBackoff (word_of_int second) (word_of_int (30 * second))"

lemma reconnect_backoff_start:
  "backoff_ok reconnect_backoff" "ideal_next reconnect_backoff = scheduled reconnect_backoff 0"
  "scheduled reconnect_backoff k = min (30 * second) (second * 2 ^ k)"
  unfolding reconnect_backoff_def
  by (rule NewBackoff_start; simp add: second_def)+
    (simp add: scheduled_def NewBackoff_def second_def)


end
