(* ===== verification/KubeService.thy ===== *)
theory KubeService
  imports KubeConvert Backoff
begin

text \<open>
  The Kubernetes service of \<open>internal/kube\<close>: listing, reading and describing resources, reading
  pod logs up to a byte limit, and the namespace list with its cache.

  The Kubernetes client is not part of the repository. It is the record \<open>k8s_api\<close> of functions
  over an abstract world \<open>'w\<close> (the cluster, the network and the clocks), each returning the
  world after the call and a result. \<open>k8s_clock w i\<close> is the wall clock while the i-th object of a
  response is converted, \<open>k8s_mono\<close> the monotonic clock. A log stream is the bytes it yields and
  the error it ends with, \<open>None\<close> for the end of the file.

  A context is known by whether it is done and with which error. The interface \<open>Kubernetes\<close>
  of \<open>internal/commands/handler.go\<close> is the record of the same name, which the service implements
  with its cache as part of the world.
\<close>

type_synonym go_ctx = "sentinel option"
type_synonym ('w, 'a) api = "'w \<Rightarrow> 'w \<times> 'a go_result"

section \<open>The Kubernetes client\<close>

record 'w k8s_api =
  k8s_list_namespaces :: "go_ctx \<Rightarrow> ('w, k8s_namespace list) api"
  k8s_list_pods :: "go_ctx \<Rightarrow> string \<Rightarrow> ('w, k8s_pod list) api"
  k8s_get_pod :: "go_ctx \<Rightarrow> string \<Rightarrow> string \<Rightarrow> ('w, k8s_pod) api"
  k8s_list_events :: "go_ctx \<Rightarrow> string \<Rightarrow> string \<Rightarrow> ('w, k8s_event list) api"
  k8s_list_deployments :: "go_ctx \<Rightarrow> string \<Rightarrow> ('w, k8s_deployment list) api"
  k8s_get_deployment :: "go_ctx \<Rightarrow> string \<Rightarrow> string \<Rightarrow> ('w, k8s_deployment) api"
  k8s_list_services :: "go_ctx \<Rightarrow> string \<Rightarrow> ('w, k8s_service list) api"
  k8s_pod_logs :: "go_ctx \<Rightarrow> string \<Rightarrow> string \<Rightarrow> string \<Rightarrow> int64 \<Rightarrow> ('w, string \<times> go_error option) api"
  k8s_server_version :: "('w, string) api"
  k8s_server_resources :: "'w \<Rightarrow> 'w \<times> string list \<times> go_error option"
  k8s_discovery_failed :: "go_error \<Rightarrow> bool"
  k8s_clock :: "'w \<Rightarrow> nat \<Rightarrow> gotime"
  k8s_mono :: "'w \<Rightarrow> instant"

text \<open>The conversion loops: each object with the clock at its turn.\<close>

definition convert_all :: "(nat \<Rightarrow> gotime) \<Rightarrow> (gotime \<Rightarrow> 'a \<Rightarrow> 'b) \<Rightarrow> 'a list \<Rightarrow> 'b list" where
  "convert_all clock f xs = map (\<lambda>(i, x). f (clock i) x) (enumerate 0 xs)"

section \<open>Resources\<close>

definition Service_ListPods :: "'w k8s_api \<Rightarrow> go_ctx \<Rightarrow> string \<Rightarrow> ('w, Pod slice) api" where
  "Service_ListPods api ctx namespace w =
     (case k8s_list_pods api ctx namespace w of
        (w', Inl e) \<Rightarrow> (w', Inl e)
      | (w', Inr items) \<Rightarrow> (w', Inr (Some (convert_all (k8s_clock api w') toPod items))))"

definition Service_GetPod :: "'w k8s_api \<Rightarrow> go_ctx \<Rightarrow> string \<Rightarrow> string \<Rightarrow> ('w, Pod) api" where
  "Service_GetPod api ctx namespace name w =
     (case k8s_get_pod api ctx namespace name w of
        (w', Inl e) \<Rightarrow> (w', Inl e)
      | (w', Inr pod) \<Rightarrow> (w', Inr (toPod (k8s_clock api w' 0) pod)))"

definition Service_ListDeployments :: "'w k8s_api \<Rightarrow> go_ctx \<Rightarrow> string \<Rightarrow> ('w, Deployment slice) api" where
  "Service_ListDeployments api ctx namespace w =
     (case k8s_list_deployments api ctx namespace w of
        (w', Inl e) \<Rightarrow> (w', Inl e)
      | (w', Inr items) \<Rightarrow> (w', Inr (Some (convert_all (k8s_clock api w') toDeployment items))))"

definition Service_GetRolloutStatus :: "'w k8s_api \<Rightarrow> go_ctx \<Rightarrow> string \<Rightarrow> string \<Rightarrow> ('w, RolloutStatus) api" where
  "Service_GetRolloutStatus api ctx namespace name w =
     (case k8s_get_deployment api ctx namespace name w of
        (w', Inl e) \<Rightarrow> (w', Inl e)
      | (w', Inr deployment) \<Rightarrow> (w', Inr (rollout_of deployment)))"

definition Service_ListServices :: "'w k8s_api \<Rightarrow> go_ctx \<Rightarrow> string \<Rightarrow> ('w, ServiceResource slice) api" where
  "Service_ListServices api ctx namespace w =
     (case k8s_list_services api ctx namespace w of
        (w', Inl e) \<Rightarrow> (w', Inl e)
      | (w', Inr items) \<Rightarrow> (w', Inr (Some (convert_all (k8s_clock api w') toService items))))"

definition Service_ListEvents :: "'w k8s_api \<Rightarrow> go_ctx \<Rightarrow> string \<Rightarrow> ('w, Event slice) api" where
  "Service_ListEvents api ctx namespace w =
     (case k8s_list_events api ctx namespace [] w of
        (w', Inl e) \<Rightarrow> (w', Inl e)
      | (w', Inr items) \<Rightarrow> (w', Inr (Some (map toEventItem items))))"

section \<open>Pod descriptions\<close>

definition pod_event_selector :: "string \<Rightarrow> string" where
  "pod_event_selector podName = ''involvedObject.kind=Pod,involvedObject.name='' @ podName"

text \<open>
  The events of a pod: by field selector, and where that call fails by listing the namespace and
  filtering. In the fallback a slice without events stays nil.
\<close>

definition fetchPodEvents :: "'w k8s_api \<Rightarrow> Event sorter \<Rightarrow> go_ctx \<Rightarrow> string \<Rightarrow> string \<Rightarrow> 'w \<Rightarrow> 'w \<times> Event slice" where
  "fetchPodEvents api sorter ctx namespace podName w =
     (case k8s_list_events api ctx namespace (pod_event_selector podName) w of
        (w1, Inr items) \<Rightarrow> (w1, Some (sortAndLimitEvents sorter (map toEventItem items) 20))
      | (w1, Inl err) \<Rightarrow>
          (case k8s_list_events api ctx namespace [] w1 of
             (w2, Inl err2) \<Rightarrow> (w2, None)
           | (w2, Inr all) \<Rightarrow>
               let out = map toEventItem
                     (filter (\<lambda>e. kev_Kind e = ''Pod'' \<and> kev_ObjectName e = podName) all)
               in (w2, if out = [] then None else Some (sortAndLimitEvents sorter out 20))))"

definition Service_DescribePod :: "'w k8s_api \<Rightarrow> Event sorter \<Rightarrow> go_ctx \<Rightarrow> string \<Rightarrow> string \<Rightarrow> ('w, PodDescription) api" where
  "Service_DescribePod api sorter ctx namespace name w =
     (case k8s_get_pod api ctx namespace name w of
        (w1, Inl e) \<Rightarrow> (w1, Inl e)
      | (w1, Inr pod) \<Rightarrow>
          let (w2, events) = fetchPodEvents api sorter ctx namespace name w1
          in (w2, Inr (toPodDescription (k8s_clock api w2 0) pod events)))"

section \<open>Logs\<close>

text \<open>
  \<open>io.CopyN(&buf, stream, limit)\<close>: at most \<open>limit\<close> bytes, and the stream's error only where it
  ended earlier. A limit of zero or less reads nothing.
\<close>

definition copy_n :: "string \<times> go_error option \<Rightarrow> int64 \<Rightarrow> string \<times> go_error option" where
  "copy_n stream limit =
     (if sint limit \<le> 0 then ([], None)
      else if sint limit \<le> int (length (fst stream)) then (take (nat (sint limit)) (fst stream), None)
      else stream)"

definition Service_GetPodLogs ::
  "'w k8s_api \<Rightarrow> go_ctx \<Rightarrow> string \<Rightarrow> string \<Rightarrow> string \<Rightarrow> int64 \<Rightarrow> int64 \<Rightarrow> 'w \<Rightarrow> 'w \<times> (go_panic + LogResult go_result)" where
  "Service_GetPodLogs api ctx namespace pod container tailLines maxBytes w =
     (case k8s_pod_logs api ctx namespace pod container tailLines w of
        (w', Inl e) \<Rightarrow> (w', Inr (Inl e))
      | (w', Inr stream) \<Rightarrow>
          let limit = maxBytes + 1; (buf, err) = copy_n stream limit in
          (case err of
             Some e \<Rightarrow> (w', Inr (Inl (wrapf ''read pod logs'' e)))
           | None \<Rightarrow>
               let truncated = (sint maxBytes < int (length buf)) in
               if truncated \<and> maxBytes <s 0 then (w', Inl (Panic ''slice bounds out of range''))
               else (w', Inr (Inr \<lparr>log_Logs = (if truncated then take (nat (sint maxBytes)) buf else buf),
                                  log_Truncated = truncated\<rparr>))))"

section \<open>The namespace cache\<close>

record Service =
  nsCache :: "Namespace list"
  nsCachedAt :: instant

definition namespaceCacheTTL :: int where
  "namespaceCacheTTL = 30 * second"

definition NewService :: Service where
  "NewService = \<lparr>nsCache = [], nsCachedAt = 0\<rparr>"

definition fetchNamespaces :: "'w k8s_api \<Rightarrow> go_ctx \<Rightarrow> (Service \<times> 'w, Namespace list) api" where
  "fetchNamespaces api ctx sw =
     (case k8s_list_namespaces api ctx (snd sw) of
        (w', Inl e) \<Rightarrow> ((fst sw, w'), Inl e)
      | (w', Inr items) \<Rightarrow>
          let out = map toNamespace items
          in (((fst sw)\<lparr>nsCache := out, nsCachedAt := k8s_mono api w'\<rparr>, w'), Inr out))"

definition cache_hit :: "'w k8s_api \<Rightarrow> Service \<times> 'w \<Rightarrow> bool" where
  "cache_hit api sw \<longleftrightarrow> nsCache (fst sw) \<noteq> [] \<and>
     time_sub (k8s_mono api (snd sw)) (nsCachedAt (fst sw)) < namespaceCacheTTL"

definition Service_ListNamespaces :: "'w k8s_api \<Rightarrow> go_ctx \<Rightarrow> (Service \<times> 'w, Namespace list) api" where
  "Service_ListNamespaces api ctx sw =
     (if cache_hit api sw then (sw, Inr (nsCache (fst sw))) else fetchNamespaces api ctx sw)"

section \<open>Health\<close>

definition hasAPIGroup :: "string list \<Rightarrow> string \<Rightarrow> bool" where
  "hasAPIGroup resources groupVersion = list_ex (\<lambda>r. r = groupVersion) resources"

record health_report =
  hr_kubernetes_version :: string
  hr_apps_v1 :: bool
  hr_core_v1 :: bool

definition Service_Health :: "'w k8s_api \<Rightarrow> ('w, health_report) api" where
  "Service_Health api w =
     (case k8s_server_version api w of
        (w1, Inl e) \<Rightarrow> (w1, Inl e)
      | (w1, Inr version) \<Rightarrow>
          (case k8s_server_resources api w1 of
             (w2, resources, err) \<Rightarrow>
               (case err of
                  Some e \<Rightarrow>
                    if k8s_discovery_failed api e
                    then (w2, Inr \<lparr>hr_kubernetes_version = version,
                            hr_apps_v1 = hasAPIGroup resources ''apps/v1'',
                            hr_core_v1 = hasAPIGroup resources ''v1''\<rparr>)
                    else (w2, Inl e)
                | None \<Rightarrow> (w2, Inr \<lparr>hr_kubernetes_version = version,
                            hr_apps_v1 = hasAPIGroup resources ''apps/v1'',
                            hr_core_v1 = hasAPIGroup resources ''v1''\<rparr>))))"

definition Service_Metrics :: "'w k8s_api \<Rightarrow> ('w, health_report) api" where
  "Service_Metrics api = Service_Health api"

section \<open>The interface of the command router\<close>

record 'w Kubernetes =
  ListNamespaces :: "go_ctx \<Rightarrow> ('w, Namespace list) api"
  ListPods :: "go_ctx \<Rightarrow> string \<Rightarrow> ('w, Pod slice) api"
  GetPod :: "go_ctx \<Rightarrow> string \<Rightarrow> string \<Rightarrow> ('w, Pod) api"
  GetPodLogs :: "go_ctx \<Rightarrow> string \<Rightarrow> string \<Rightarrow> string \<Rightarrow> int64 \<Rightarrow> int64 \<Rightarrow> 'w \<Rightarrow> 'w \<times> (go_panic + LogResult go_result)"
  ListEvents :: "go_ctx \<Rightarrow> string \<Rightarrow> ('w, Event slice) api"
  ListDeployments :: "go_ctx \<Rightarrow> string \<Rightarrow> ('w, Deployment slice) api"
  ListServices :: "go_ctx \<Rightarrow> string \<Rightarrow> ('w, ServiceResource slice) api"
  GetRolloutStatus :: "go_ctx \<Rightarrow> string \<Rightarrow> string \<Rightarrow> ('w, RolloutStatus) api"
  DescribePod :: "go_ctx \<Rightarrow> string \<Rightarrow> string \<Rightarrow> ('w, PodDescription) api"

text \<open>A method that does not touch the cache, on the world with the cache.\<close>

definition with_cache :: "('w \<Rightarrow> 'w \<times> 'a) \<Rightarrow> 's \<times> 'w \<Rightarrow> ('s \<times> 'w) \<times> 'a" where
  "with_cache m sw = (let (w', r) = m (snd sw) in ((fst sw, w'), r))"

definition kube_service :: "'w k8s_api \<Rightarrow> Event sorter \<Rightarrow> (Service \<times> 'w) Kubernetes" where
  "kube_service api sorter =
     \<lparr>ListNamespaces = Service_ListNamespaces api,
      ListPods = (\<lambda>ctx ns. with_cache (Service_ListPods api ctx ns)),
      GetPod = (\<lambda>ctx ns name. with_cache (Service_GetPod api ctx ns name)),
      GetPodLogs = (\<lambda>ctx ns pod c t m. with_cache (Service_GetPodLogs api ctx ns pod c t m)),
      ListEvents = (\<lambda>ctx ns. with_cache (Service_ListEvents api ctx ns)),
      ListDeployments = (\<lambda>ctx ns. with_cache (Service_ListDeployments api ctx ns)),
      ListServices = (\<lambda>ctx ns. with_cache (Service_ListServices api ctx ns)),
      GetRolloutStatus = (\<lambda>ctx ns name. with_cache (Service_GetRolloutStatus api ctx ns name)),
      DescribePod = (\<lambda>ctx ns name. with_cache (Service_DescribePod api sorter ctx ns name))\<rparr>"

section \<open>Freshness of the namespace cache\<close>

text \<open>Successive calls, each in the world of its time; between them the world may change.\<close>

fun list_namespaces_run :: "'w k8s_api \<Rightarrow> Service \<Rightarrow> (go_ctx \<times> 'w) list \<Rightarrow> Namespace list go_result list" where
  "list_namespaces_run api s [] = []"
| "list_namespaces_run api s ((ctx, w) # calls) =
     (let ((s', w'), r) = Service_ListNamespaces api ctx (s, w)
      in r # list_namespaces_run api s' calls)"

text \<open>A list that the cluster returned to one of the given calls, and the time it was stored.\<close>

definition fetched_by :: "'w k8s_api \<Rightarrow> (go_ctx \<times> 'w) list \<Rightarrow> Namespace list \<Rightarrow> instant \<Rightarrow> bool" where
  "fetched_by api calls ns t \<longleftrightarrow>
     (\<exists>ctx w w' items. (ctx, w) \<in> set calls \<and> k8s_list_namespaces api ctx w = (w', Inr items) \<and>
        ns = map toNamespace items \<and> t = k8s_mono api w')"

definition cache_sound :: "'w k8s_api \<Rightarrow> (go_ctx \<times> 'w) list \<Rightarrow> Service \<Rightarrow> bool" where
  "cache_sound api calls s \<longleftrightarrow> nsCache s = [] \<or> fetched_by api calls (nsCache s) (nsCachedAt s)"

lemma fetched_by_mono: "fetched_by api calls ns t \<Longrightarrow> set calls \<subseteq> set calls' \<Longrightarrow> fetched_by api calls' ns t"
  unfolding fetched_by_def by blast

lemma ListNamespaces_sound:
  assumes "Service_ListNamespaces api ctx (s, w) = ((s', w'), r)" and "cache_sound api calls s"
  shows "cache_sound api (calls @ [(ctx, w)]) s' \<and>
    (\<forall>ns. r = Inr ns \<longrightarrow>
      (\<exists>t. fetched_by api (calls @ [(ctx, w)]) ns t \<and>
        (t = k8s_mono api w' \<or> time_sub (k8s_mono api w) t < namespaceCacheTTL)))"
proof (cases "cache_hit api (s, w)")
  case True
  with assms have "s' = s" "w' = w" "r = Inr (nsCache s)" "fetched_by api calls (nsCache s) (nsCachedAt s)"
    by (auto simp: Service_ListNamespaces_def cache_sound_def cache_hit_def)
  moreover from this(4) have "fetched_by api (calls @ [(ctx, w)]) (nsCache s) (nsCachedAt s)"
    by (rule fetched_by_mono) auto
  ultimately show ?thesis using True by (auto simp: cache_sound_def cache_hit_def)
next
  case False
  show ?thesis
  proof (cases "k8s_list_namespaces api ctx w")
    case (Pair w1 res)
    show ?thesis
    proof (cases res)
      case (Inl e)
      with assms False Pair have "s' = s" "r = Inl e"
        by (auto simp: Service_ListNamespaces_def fetchNamespaces_def)
      with assms(2) show ?thesis
        using fetched_by_mono [of api calls "nsCache s" "nsCachedAt s" "calls @ [(ctx, w)]"]
        by (auto simp: cache_sound_def)
    next
      case (Inr items)
      with assms(1) False Pair have s': "nsCache s' = map toNamespace items" "nsCachedAt s' = k8s_mono api w1"
        "w' = w1" "r = Inr (map toNamespace items)"
        by (auto simp: Service_ListNamespaces_def fetchNamespaces_def Let_def)
      have "fetched_by api (calls @ [(ctx, w)]) (map toNamespace items) (k8s_mono api w1)"
        unfolding fetched_by_def using Pair Inr by auto
      then show ?thesis using s' by (auto simp: cache_sound_def)
    qed
  qed
qed

lemma list_namespaces_run_fresh:
  "cache_sound api before s \<Longrightarrow> k < length calls \<Longrightarrow> list_namespaces_run api s calls ! k = Inr ns \<Longrightarrow>
    \<exists>t. fetched_by api (before @ take (Suc k) calls) ns t \<and>
      (t = k8s_mono api (fst (k8s_list_namespaces api (fst (calls ! k)) (snd (calls ! k)))) \<or>
       time_sub (k8s_mono api (snd (calls ! k))) t < namespaceCacheTTL)"
proof (induction calls arbitrary: before s k)
  case (Cons c calls)
  obtain ctx w where c: "c = (ctx, w)" by (cases c)
  obtain s' w' r where L: "Service_ListNamespaces api ctx (s, w) = ((s', w'), r)"
    by (metis prod.exhaust)
  note S = ListNamespaces_sound [OF L Cons.prems(1)]
  show ?case
  proof (cases k)
    case 0
    with Cons.prems(3) c L have r: "r = Inr ns" by simp
    have "w' = w \<and> cache_hit api (s, w) \<or> w' = fst (k8s_list_namespaces api ctx w)"
      using L by (auto simp: Service_ListNamespaces_def fetchNamespaces_def Let_def split: if_splits prod.splits sum.splits)
    moreover from S r obtain t where "fetched_by api (before @ [(ctx, w)]) ns t"
      "t = k8s_mono api w' \<or> time_sub (k8s_mono api w) t < namespaceCacheTTL" by blast
    moreover have "w' = w \<Longrightarrow> t = k8s_mono api w' \<Longrightarrow> time_sub (k8s_mono api w) t < namespaceCacheTTL"
      by (simp add: time_sub_def int64_min_def int64_max_def namespaceCacheTTL_def second_def)
    ultimately show ?thesis using c 0 by (intro exI [of _ t]) auto
  next
    case (Suc m)
    with Cons.IH [of "before @ [(ctx, w)]" s' m] S Cons.prems c L show ?thesis by simp
  qed
qed simp

section \<open>Events of a pod\<close>

lemma toEventItem_object: "ev_Object (toEventItem e) = kev_Kind e @ ''/'' @ kev_ObjectName e"
  by (simp add: toEventItem_def Let_def)

lemma set_sortAndLimit:
  "slice_sorter sorter \<Longrightarrow> set (sortAndLimitEvents sorter es n) \<subseteq> set es"
  using slice_sorter.sorter_set [of sorter event_less es, OF _ weak_order_event]
  by (auto simp: sortAndLimitEvents_def Let_def dest: in_set_takeD)

definition pod_events_ok :: "string \<Rightarrow> bool \<Rightarrow> Event slice \<Rightarrow> bool" where
  "pod_events_ok name filtered s \<longleftrightarrow>
     (case s of None \<Rightarrow> True
      | Some es \<Rightarrow> length es \<le> 20 \<and> (filtered \<longrightarrow> list_all (\<lambda>e. ev_Object e = ''Pod/'' @ name) es))"

lemma fetchPodEvents_ok:
  assumes "slice_sorter sorter"
  shows "pod_events_ok name
    (isl (snd (k8s_list_events api ctx namespace (pod_event_selector name) w)))
    (snd (fetchPodEvents api sorter ctx namespace name w))"
proof -
  have len: "length (sortAndLimitEvents sorter es 20) \<le> 20" for es :: "Event list"
    by (auto simp: sortAndLimitEvents_def Let_def)
  have obj: "list_all (\<lambda>e. ev_Object e = ''Pod/'' @ name) (sortAndLimitEvents sorter
      (map toEventItem (filter (\<lambda>e. kev_Kind e = ''Pod'' \<and> kev_ObjectName e = name) all)) 20)" for all
    using set_sortAndLimit [OF assms, of "map toEventItem (filter (\<lambda>e. kev_Kind e = ''Pod'' \<and> kev_ObjectName e = name) all)" 20]
    by (auto simp: list_all_iff toEventItem_object)
  show ?thesis
    using obj
    by (auto simp: fetchPodEvents_def pod_events_ok_def Let_def len split: prod.split sum.split)
qed

section \<open>What a description leaves out\<close>

text \<open>A pod without the parts that may hold secrets: annotations, environment, command and arguments.\<close>

definition without_secrets :: "k8s_pod \<Rightarrow> k8s_pod" where
  "without_secrets pod = pod\<lparr>kpod_Annotations := Map.empty,
     kpod_Containers := map (\<lambda>c. c\<lparr>kc_Env := [], kc_Command := [], kc_Args := []\<rparr>) (kpod_Containers pod)\<rparr>"

lemma container_map_without:
  assumes "\<And>c. f (c\<lparr>kc_Env := [], kc_Command := [], kc_Args := []\<rparr>) = f c"
  shows "container_map f (map (\<lambda>c. c\<lparr>kc_Env := [], kc_Command := [], kc_Args := []\<rparr>) cs) m = container_map f cs m"
  by (induction cs arbitrary: m) (simp_all add: assms)

section \<open>Example cluster\<close>

definition example_pod :: k8s_pod where
  "example_pod = \<lparr>kpod_Name = ''web'', kpod_Namespace = ''shop'', kpod_Labels = Map.empty,
     kpod_Annotations = Map.empty, kpod_Owners = [], kpod_Created = zero_time, kpod_NodeName = [],
     kpod_Containers = [], kpod_Phase = ''Running'', kpod_PodIP = [], kpod_QOSClass = [],
     kpod_Reason = [], kpod_Message = [], kpod_Conditions = [], kpod_ContainerStatuses = []\<rparr>"

text \<open>One pod with a log of six bytes, in a cluster where events cannot be listed.\<close>

definition example_api :: "instant k8s_api" where
  "example_api =
     \<lparr>k8s_list_namespaces = (\<lambda>ctx w. (w, Inr [\<lparr>kns_Name = ''shop'', kns_Labels = Map.empty, kns_Phase = ''Active''\<rparr>])),
      k8s_list_pods = (\<lambda>ctx ns w. (w + 1, Inr [example_pod])),
      k8s_get_pod = (\<lambda>ctx ns name w. (w, Inr example_pod)),
      k8s_list_events = (\<lambda>ctx ns sel w. (w, Inl (ErrorString ''forbidden''))),
      k8s_list_deployments = (\<lambda>ctx ns w. (w, Inr [])),
      k8s_get_deployment = (\<lambda>ctx ns name w. (w, Inl (ErrorString ''not found''))),
      k8s_list_services = (\<lambda>ctx ns w. (w, Inr [])),
      k8s_pod_logs = (\<lambda>ctx ns pod c t w. (w, Inr (''abcdef'', None))),
      k8s_server_version = (\<lambda>w. (w, Inr ''v1.30'')),
      k8s_server_resources = (\<lambda>w. (w, [], None)),
      k8s_discovery_failed = (\<lambda>e. False),
      k8s_clock = (\<lambda>w i. zero_time),
      k8s_mono = (\<lambda>w. w)\<rparr>"

section \<open>Properties\<close>

text \<open>
  A namespace list that the service returns was fetched from the cluster by this call, or by
  an earlier one less than thirty seconds before this call; it is never older, whatever changes in between.
\<close>

theorem namespace_list_fresh:
  assumes "k < length calls" and "list_namespaces_run api NewService calls ! k = Inr ns"
  shows "\<exists>t. fetched_by api (take (Suc k) calls) ns t \<and>
    (t = k8s_mono api (fst (k8s_list_namespaces api (fst (calls ! k)) (snd (calls ! k)))) \<or>
     time_sub (k8s_mono api (snd (calls ! k))) t < 30 * second)"
  using list_namespaces_run_fresh [of api "[]" NewService, OF _ assms]
  by (simp add: cache_sound_def NewService_def namespaceCacheTTL_def)

theorem namespace_list_fresh_witness:
  "\<exists>t. fetched_by example_api [(None, 5), (None, 7)] [\<lparr>ns_Name = ''shop'', ns_Labels = Map.empty, ns_Status = ''Active''\<rparr>] t"
proof -
  have "list_namespaces_run example_api NewService [(None, 5), (None, 7)] ! 1 =
      Inr [\<lparr>ns_Name = ''shop'', ns_Labels = Map.empty, ns_Status = ''Active''\<rparr>]"
    by (simp add: Service_ListNamespaces_def cache_hit_def fetchNamespaces_def NewService_def
        example_api_def toNamespace_def time_sub_def int64_min_def int64_max_def
        namespaceCacheTTL_def second_def Let_def)
  from namespace_list_fresh [OF _ this] show ?thesis by auto
qed




end
