(* ===== verification/FanOut.thy ===== *)
theory FanOut
  imports KubeService
begin

text \<open>
  The concurrent fan-out of the command router (\<open>parallelMapTraced\<close> of
  \<open>internal/commands/router.go\<close>), which calls a lister once per namespace and joins the results in
  the order of the namespaces.

  It runs on \<open>golang.org/x/sync/errgroup\<close>, which is not part of the repository: the group is an
  argument of the model, a function from a context and a list of tasks to the state after all of
  them and the error \<open>Wait\<close> returns. The locale \<open>errgroup\<close> states the documented behaviour: every
  task runs once, in an order that is left open; the first error to be returned is the one of
  \<open>Wait\<close> and cancels the context of the tasks that start after it. It is interpreted on
  \<open>scheduled_group\<close>, which interleaves the starts and the returns of the tasks as a list of draws
  tells it, and so produces every such order.

  A task is one atomic step here. The tasks of the fan-out share only the result slice, where
  each writes its own index, so that their interleavings inside a call are the cluster's.
\<close>

section \<open>The contract of an error group\<close>

type_synonym 's task = "go_ctx \<Rightarrow> 's \<Rightarrow> 's \<times> go_error option"

definition group_ctx :: "go_ctx \<Rightarrow> bool \<Rightarrow> go_ctx" where
  "group_ctx ctx failed = (if ctx = None \<and> failed then Some Canceled else ctx)"

fun run_tasks :: "'s task list \<Rightarrow> (nat \<times> go_ctx) list \<Rightarrow> 's \<Rightarrow> 's \<times> go_error option list" where
  "run_tasks tasks [] s = (s, [])"
| "run_tasks tasks ((i, c) # sch) s =
     (let (s1, e) = (tasks ! i) c s; (s2, es) = run_tasks tasks sch s1 in (s2, e # es))"

definition group_execution ::
  "go_ctx \<Rightarrow> 's task list \<Rightarrow> 's \<Rightarrow> (nat \<times> go_ctx) list \<Rightarrow> 's \<times> go_error option \<Rightarrow> bool" where
  "group_execution ctx tasks s sch out \<longleftrightarrow>
     mset (map fst sch) = mset [0..<length tasks] \<and>
     fst out = fst (run_tasks tasks sch s) \<and>
     (let es = snd (run_tasks tasks sch s) in
      (case snd out of
         None \<Rightarrow> set es \<subseteq> {None}
       | Some e \<Rightarrow> \<exists>k<length sch. es ! k = Some e \<and> snd (sch ! k) = ctx) \<and>
      (\<forall>k<length sch. snd (sch ! k) = ctx \<or>
         snd (sch ! k) = group_ctx ctx True \<and> (\<exists>j<k. es ! j \<noteq> None)))"

lemma run_tasks_Cons [simp]:
  "fst (run_tasks tasks (p # sch) s) = fst (run_tasks tasks sch (fst ((tasks ! fst p) (snd p) s)))"
  "snd (run_tasks tasks (p # sch) s) =
     snd ((tasks ! fst p) (snd p) s) # snd (run_tasks tasks sch (fst ((tasks ! fst p) (snd p) s)))"
  by (cases p, simp split: prod.split)+

declare run_tasks.simps(2) [simp del]

lemma length_run_tasks [simp]: "length (snd (run_tasks tasks sch s)) = length sch"
  by (induction sch arbitrary: s) simp_all

lemma run_tasks_append [simp]:
  "fst (run_tasks tasks (sch @ sch') s) = fst (run_tasks tasks sch' (fst (run_tasks tasks sch s)))"
  "snd (run_tasks tasks (sch @ sch') s) =
     snd (run_tasks tasks sch s) @ snd (run_tasks tasks sch' (fst (run_tasks tasks sch s)))"
  by (induction sch arbitrary: s) simp_all

lemma run_tasks_preserves:
  assumes "\<And>t c s. t \<in> set tasks \<Longrightarrow> P s \<Longrightarrow> P (fst (t c s))"
  shows "P s \<Longrightarrow> \<forall>i\<in>fst ` set sch. i < length tasks \<Longrightarrow> P (fst (run_tasks tasks sch s))"
  by (induction sch arbitrary: s) (auto simp: assms)

locale errgroup =
  fixes wgroup :: "go_ctx \<Rightarrow> 's task list \<Rightarrow> 's \<Rightarrow> 's \<times> go_error option"
  assumes group_runs: "\<exists>sch. group_execution ctx tasks s sch (wgroup ctx tasks s)"
begin

lemma group_preserves:
  assumes "\<And>t c s. t \<in> set tasks \<Longrightarrow> P s \<Longrightarrow> P (fst (t c s))" and "P s"
  shows "P (fst (wgroup ctx tasks s))"
proof -
  obtain sch where sch: "group_execution ctx tasks s sch (wgroup ctx tasks s)"
    using group_runs by blast
  then have m: "mset (map fst sch) = mset [0..<length tasks]"
    and out: "fst (wgroup ctx tasks s) = fst (run_tasks tasks sch s)"
    by (simp_all add: group_execution_def)
  have "\<forall>i\<in>fst ` set sch. i < length tasks" using mset_eq_setD [OF m] by auto
  then show ?thesis using run_tasks_preserves [of tasks P s sch] assms out by simp
qed

end

section \<open>A scheduler that keeps it\<close>

definition remove_nth :: "nat \<Rightarrow> 'a list \<Rightarrow> 'a list" where
  "remove_nth k xs = take k xs @ drop (Suc k) xs"

lemma length_remove_nth [simp]: "k < length xs \<Longrightarrow> length (remove_nth k xs) = length xs - 1"
  by (simp add: remove_nth_def)

lemma mset_remove_nth: "k < length xs \<Longrightarrow> add_mset (xs ! k) (mset (remove_nth k xs)) = mset xs"
  using id_take_nth_drop [of k xs] by (metis remove_nth_def mset_append mset.simps(2) union_mset_add_mset_right)

definition draw :: "nat list \<Rightarrow> nat \<Rightarrow> nat" where
  "draw draws n = (case draws of [] \<Rightarrow> 0 | d # _ \<Rightarrow> d mod n)"

lemma draw_less: "0 < n \<Longrightarrow> draw draws n < n"
  by (simp add: draw_def split: list.split)

text \<open>
  Tasks wait, run, and then have an outcome to report. A draw picks a waiting task, which runs,
  or an outcome, which is reported; the first error reported stays.
\<close>

function schedule_group ::
  "nat list \<Rightarrow> go_ctx \<Rightarrow> 's task list \<Rightarrow> nat list \<Rightarrow> go_error option list \<Rightarrow> go_error option \<Rightarrow> 's \<Rightarrow> 's \<times> go_error option" where
  "schedule_group draws ctx tasks waiting outcomes first s =
     (if waiting = [] \<and> outcomes = [] then (s, first)
      else let k = draw draws (length waiting + length outcomes) in
        if k < length waiting
        then let (s', e) = (tasks ! (waiting ! k)) (group_ctx ctx (first \<noteq> None)) s
             in schedule_group (tl draws) ctx tasks (remove_nth k waiting) (e # outcomes) first s'
        else let m = k - length waiting
             in schedule_group (tl draws) ctx tasks waiting (remove_nth m outcomes)
                  (if first = None then outcomes ! m else first) s)"
  by pat_completeness auto
termination
proof (relation "measure (\<lambda>(draws, ctx, tasks, waiting, outcomes, first, s).
    2 * length waiting + length outcomes)", goal_cases)
  case (3 draws ctx tasks waiting outcomes first s k m)
  then have "k < length waiting + length outcomes"
    using draw_less [of "length waiting + length outcomes" draws] by auto
  with 3 show ?case by simp
qed auto

declare schedule_group.simps [simp del]

definition scheduled_group :: "nat list \<Rightarrow> go_ctx \<Rightarrow> 's task list \<Rightarrow> 's \<Rightarrow> 's \<times> go_error option" where
  "scheduled_group draws ctx tasks s = schedule_group draws ctx tasks [0..<length tasks] [] None s"

definition group_progress ::
  "go_ctx \<Rightarrow> 's task list \<Rightarrow> 's \<Rightarrow> (nat \<times> go_ctx) list \<Rightarrow> nat list \<Rightarrow> go_error option list \<Rightarrow> go_error option \<Rightarrow> bool" where
  "group_progress ctx tasks s0 sch waiting outcomes first \<longleftrightarrow>
     mset waiting + mset (map fst sch) = mset [0..<length tasks] \<and>
     (let es = snd (run_tasks tasks sch s0) in
      set outcomes \<subseteq> set es \<and>
      (case first of
         None \<Rightarrow> set es \<subseteq> insert None (set outcomes) \<and> snd ` set sch \<subseteq> {ctx}
       | Some e \<Rightarrow> \<exists>k<length sch. es ! k = Some e \<and> snd (sch ! k) = ctx) \<and>
      (\<forall>k<length sch. snd (sch ! k) = ctx \<or>
         snd (sch ! k) = group_ctx ctx True \<and> (\<exists>j<k. es ! j \<noteq> None)))"

lemma all_less_disjI1: "\<forall>k<(n :: nat). A k \<Longrightarrow> \<forall>k<n. A k \<or> B k"
  by blast

lemma group_progress_run:
  assumes "group_progress ctx tasks s0 sch waiting outcomes first" and "k < length waiting"
    and "(tasks ! (waiting ! k)) (group_ctx ctx (first \<noteq> None)) (fst (run_tasks tasks sch s0)) = (s', e)"
  shows "group_progress ctx tasks s0 (sch @ [(waiting ! k, group_ctx ctx (first \<noteq> None))])
           (remove_nth k waiting) (e # outcomes) first"
proof -
  let ?c = "group_ctx ctx (first \<noteq> None)" and ?es = "snd (run_tasks tasks sch s0)"
  have es: "snd (run_tasks tasks (sch @ [(waiting ! k, ?c)]) s0) = ?es @ [e]"
    using assms(3) by simp
  have m: "mset (remove_nth k waiting) + mset (map fst (sch @ [(waiting ! k, ?c)])) = mset [0..<length tasks]"
  proof -
    have "mset (remove_nth k waiting) + mset (map fst (sch @ [(waiting ! k, ?c)])) =
        add_mset (waiting ! k) (mset (remove_nth k waiting)) + mset (map fst sch)" by simp
    also have "\<dots> = mset waiting + mset (map fst sch)" by (simp only: mset_remove_nth [OF assms(2)])
    finally show ?thesis using assms(1) by (simp only: group_progress_def)
  qed
  note P = assms(1) [unfolded group_progress_def Let_def]
  show ?thesis
  proof (cases first)
    case None
    have c: "?c = ctx" by (simp add: None group_ctx_def)
    have "snd ` set sch \<subseteq> {ctx}" using P unfolding None option.case by blast
    then have S: "snd ` set (sch @ [(waiting ! k, ?c)]) \<subseteq> {ctx}" using c by simp
    then have C: "\<forall>k'<length (sch @ [(waiting ! k, ?c)]). snd ((sch @ [(waiting ! k, ?c)]) ! k') = ctx"
      unfolding image_subset_iff singleton_iff all_set_conv_all_nth .
    have E: "set (?es @ [e]) \<subseteq> insert None (set (e # outcomes))" "set (e # outcomes) \<subseteq> set (?es @ [e])"
      using P unfolding None option.case by auto
    show ?thesis
      unfolding group_progress_def Let_def es unfolding None option.case
      by (intro conjI m [unfolded None] E S [unfolded None] all_less_disjI1 [OF C [unfolded None]])
  next
    case (Some x)
    then obtain j where j: "j < length sch" "?es ! j = Some x" "snd (sch ! j) = ctx"
      using P unfolding Some option.case by blast
    have "\<forall>k'<length (sch @ [(waiting ! k, ?c)]). snd ((sch @ [(waiting ! k, ?c)]) ! k') = ctx \<or>
        snd ((sch @ [(waiting ! k, ?c)]) ! k') = group_ctx ctx True \<and> (\<exists>j<k'. (?es @ [e]) ! j \<noteq> None)"
    proof (intro allI impI)
      fix k' assume "k' < length (sch @ [(waiting ! k, ?c)])"
      then consider "k' < length sch" | "k' = length sch" by fastforce
      then show "snd ((sch @ [(waiting ! k, ?c)]) ! k') = ctx \<or>
        snd ((sch @ [(waiting ! k, ?c)]) ! k') = group_ctx ctx True \<and> (\<exists>j<k'. (?es @ [e]) ! j \<noteq> None)"
      proof cases
        case 1
        then have "(sch @ [(waiting ! k, ?c)]) ! k' = sch ! k'" and
          "\<And>j. j < k' \<Longrightarrow> (?es @ [e]) ! j = ?es ! j" by (simp_all add: nth_append)
        moreover have "snd (sch ! k') = ctx \<or>
            snd (sch ! k') = group_ctx ctx True \<and> (\<exists>j<k'. ?es ! j \<noteq> None)"
          using P 1 by blast
        ultimately show ?thesis by auto
      next
        case 2
        then show ?thesis using j Some by (auto simp: nth_append intro!: exI [of _ j])
      qed
    qed
    moreover have "\<exists>k'<length (sch @ [(waiting ! k, ?c)]). (?es @ [e]) ! k' = Some x \<and> snd ((sch @ [(waiting ! k, ?c)]) ! k') = ctx"
      using j by (auto simp: nth_append intro!: exI [of _ j])
    moreover have "set (e # outcomes) \<subseteq> set (?es @ [e])" using P by auto
    ultimately show ?thesis
      unfolding group_progress_def Let_def es unfolding Some option.case
      by (intro conjI m [unfolded Some])
  qed
qed

lemma set_remove_nth: "set (remove_nth k xs) \<subseteq> set xs"
  by (auto simp: remove_nth_def dest: in_set_takeD in_set_dropD)

lemma group_progress_report:
  assumes "group_progress ctx tasks s0 sch waiting outcomes first" and "m < length outcomes"
  shows "group_progress ctx tasks s0 sch waiting (remove_nth m outcomes)
           (if first = None then outcomes ! m else first)"
proof -
  note P = assms(1) [unfolded group_progress_def Let_def]
  have sub: "set (remove_nth m outcomes) \<subseteq> set outcomes" by (rule set_remove_nth)
  have split: "set outcomes = insert (outcomes ! m) (set (remove_nth m outcomes))"
    using mset_remove_nth [OF assms(2)] by (metis set_mset_add_mset_insert set_mset_mset)
  show ?thesis
  proof (cases "first = None \<and> outcomes ! m \<noteq> None")
    case True
    then obtain e where e: "outcomes ! m = Some e" by blast
    with P split have "Some e \<in> set (snd (run_tasks tasks sch s0))" by auto
    then obtain k where "k < length sch" "snd (run_tasks tasks sch s0) ! k = Some e"
      by (auto simp: in_set_conv_nth)
    moreover from this have "snd (sch ! k) = ctx" using P True nth_mem by fastforce
    ultimately show ?thesis using P True e sub unfolding group_progress_def Let_def by auto
  next
    case False
    then show ?thesis using P sub split unfolding group_progress_def Let_def
      by (cases first) auto
  qed
qed

lemma schedule_group_execution:
  "group_progress ctx tasks s0 sch waiting outcomes first \<Longrightarrow> s = fst (run_tasks tasks sch s0) \<Longrightarrow>
    \<exists>sch'. group_execution ctx tasks s0 sch' (schedule_group draws ctx tasks waiting outcomes first s)"
proof (induction draws ctx tasks waiting outcomes first s arbitrary: sch rule: schedule_group.induct)
  case (1 draws ctx tasks waiting outcomes first s)
  let ?n = "length waiting + length outcomes"
  note unfold = schedule_group.simps [of draws ctx tasks waiting outcomes first s]
  show ?case
  proof (cases "waiting = [] \<and> outcomes = []")
    case True
    then have "group_execution ctx tasks s0 sch (s, first)"
      using "1.prems" unfolding group_progress_def group_execution_def Let_def
      by (auto split: option.splits)
    then show ?thesis using True unfold by auto
  next
    case False
    then have k: "draw draws ?n < ?n" by (intro draw_less) auto
    show ?thesis
    proof (cases "draw draws ?n < length waiting")
      case True
      obtain s' e where t: "(tasks ! (waiting ! draw draws ?n)) (group_ctx ctx (first \<noteq> None)) s = (s', e)"
        by fastforce
      have "\<exists>sch'. group_execution ctx tasks s0 sch' (schedule_group (tl draws) ctx tasks
          (remove_nth (draw draws ?n) waiting) (e # outcomes) first s')"
        by (rule "1.IH"(1) [OF False refl True t [symmetric] refl
            group_progress_run [OF "1.prems"(1) True t [unfolded "1.prems"(2)]]])
          (use t "1.prems"(2) in simp)
      then show ?thesis using False True t by (auto simp: unfold)
    next
      case nl: False
      then have "draw draws ?n - length waiting < length outcomes" using k by linarith
      note "1.IH"(2) [OF False refl nl refl group_progress_report [OF "1.prems"(1) this] "1.prems"(2)]
      then show ?thesis using False nl by (auto simp: unfold Let_def)
    qed
  qed
qed

interpretation scheduled: errgroup "scheduled_group draws" for draws
proof
  fix ctx and tasks :: "'s task list" and s
  have "group_progress ctx tasks s [] [0..<length tasks] [] None" by (simp add: group_progress_def)
  then show "\<exists>sch. group_execution ctx tasks s sch (scheduled_group draws ctx tasks s)"
    unfolding scheduled_group_def by (rule schedule_group_execution) simp
qed

section \<open>One call per namespace\<close>

definition slice_items :: "'a slice \<Rightarrow> 'a list" where
  "slice_items s = (case s of None \<Rightarrow> [] | Some xs \<Rightarrow> xs)"

text \<open>A slice that only \<open>append\<close> has built from a nil one.\<close>

definition appended :: "'a list \<Rightarrow> 'a slice" where
  "appended xs = (if xs = [] then None else Some xs)"

definition fan_out_task ::
  "(go_ctx \<Rightarrow> string \<Rightarrow> ('w, 'a slice) api) \<Rightarrow> nat \<Rightarrow> string \<Rightarrow> ('w \<times> 'a list list) task" where
  "fan_out_task fn i ns gctx st =
     (case fn gctx ns (fst st) of
        (w', Inl e) \<Rightarrow> ((w', snd st), Some e)
      | (w', Inr items) \<Rightarrow> ((w', (snd st)[i := slice_items items]), None))"

definition fan_out_tasks ::
  "(go_ctx \<Rightarrow> string \<Rightarrow> ('w, 'a slice) api) \<Rightarrow> string list \<Rightarrow> ('w \<times> 'a list list) task list" where
  "fan_out_tasks fn namespaces = map (\<lambda>(i, ns). fan_out_task fn i ns) (enumerate 0 namespaces)"

definition parallelMapTraced ::
  "(go_ctx \<Rightarrow> ('w \<times> 'a list list) task list \<Rightarrow> 'w \<times> 'a list list \<Rightarrow> ('w \<times> 'a list list) \<times> go_error option) \<Rightarrow>
   go_ctx \<Rightarrow> string list \<Rightarrow> (go_ctx \<Rightarrow> string \<Rightarrow> ('w, 'a slice) api) \<Rightarrow> ('w, 'a slice) api" where
  "parallelMapTraced wgroup ctx namespaces fn w =
     (if namespaces = [] then (w, Inr None)
      else case wgroup ctx (fan_out_tasks fn namespaces) (w, replicate (length namespaces) []) of
        ((w', results), err) \<Rightarrow>
          (case err of
             Some e \<Rightarrow> (w', Inl e)
           | None \<Rightarrow> (w', Inr (appended (concat results)))))"

definition parallelMap where
  "parallelMap wgroup ctx namespaces fn = parallelMapTraced wgroup ctx namespaces fn"

subsection \<open>What the tasks leave in the results\<close>

lemma length_fan_out_tasks [simp]: "length (fan_out_tasks fn nss) = length nss"
  by (simp add: fan_out_tasks_def)

lemma nth_fan_out_tasks [simp]: "i < length nss \<Longrightarrow> fan_out_tasks fn nss ! i = fan_out_task fn i (nss ! i)"
  by (simp add: fan_out_tasks_def nth_enumerate_eq)

text \<open>The outcome of one task of a run, against the results at the end.\<close>

definition task_outcome where
  "task_outcome fn nss res p e \<longleftrightarrow>
     (\<exists>w1 w2. (case e of
        None \<Rightarrow> \<exists>s. fn (snd p) (nss ! fst p) w1 = (w2, Inr s) \<and> res ! fst p = slice_items s
      | Some x \<Rightarrow> fn (snd p) (nss ! fst p) w1 = (w2, Inl x)))"

lemma fan_out_task_outcome:
  assumes "fst p < length res" and "length res = length nss"
    and "fan_out_task fn (fst p) (nss ! fst p) (snd p) (w, res) = ((w', res'), e)"
  shows "task_outcome fn nss res' p e" and "length res' = length res"
    and "\<And>i. i \<noteq> fst p \<Longrightarrow> res' ! i = res ! i"
  using assms by (auto simp: fan_out_task_def task_outcome_def split: prod.splits sum.splits; blast)+

lemma task_outcome_cong: "res ! fst p = res' ! fst p \<Longrightarrow> task_outcome fn nss res p e = task_outcome fn nss res' p e"
  by (auto simp: task_outcome_def split: option.splits)

lemma run_fan_out:
  "distinct (map fst sch) \<Longrightarrow> \<forall>p\<in>set sch. fst p < length nss \<Longrightarrow> length res = length nss \<Longrightarrow>
   run_tasks (fan_out_tasks fn nss) sch (w, res) = ((w', res'), es) \<Longrightarrow>
   length res' = length nss \<and> (\<forall>i. i \<notin> fst ` set sch \<longrightarrow> res' ! i = res ! i) \<and>
   list_all2 (task_outcome fn nss res') sch es"
proof (induction sch arbitrary: w res es)
  case Nil
  then show ?case by simp
next
  case (Cons p sch)
  obtain w1 res1 e where t: "fan_out_task fn (fst p) (nss ! fst p) (snd p) (w, res) = ((w1, res1), e)"
    by (metis prod.exhaust)
  obtain es' where es: "es = e # es'" "run_tasks (fan_out_tasks fn nss) sch (w1, res1) = ((w', res'), es')"
    using Cons.prems t run_tasks_Cons [of "fan_out_tasks fn nss" p sch "(w, res)"]
    by (cases "run_tasks (fan_out_tasks fn nss) sch (w1, res1)") simp
  note step = fan_out_task_outcome [OF _ _ t]
  have "length res1 = length nss" using step(2) Cons.prems by simp
  with Cons es have IH: "length res' = length nss" "\<forall>i. i \<notin> fst ` set sch \<longrightarrow> res' ! i = res1 ! i"
    "list_all2 (task_outcome fn nss res') sch es'" by auto
  have "res' ! fst p = res1 ! fst p" using IH(2) Cons.prems(1) by auto
  then have "task_outcome fn nss res' p e"
    by (rule task_outcome_cong [THEN iffD2]) (use step(1) Cons.prems in simp)
  then show ?case using IH step(3) Cons.prems es by auto
qed

subsection \<open>The joined result\<close>

locale fan_out_group = errgroup wgroup
  for wgroup :: "go_ctx \<Rightarrow> ('w \<times> 'a list list) task list \<Rightarrow> 'w \<times> 'a list list \<Rightarrow>
    ('w \<times> 'a list list) \<times> go_error option"
begin

lemma fan_out_run:
  assumes "wgroup ctx (fan_out_tasks fn nss) (w, replicate (length nss) []) = ((w', res), err)"
  obtains sch es where "set (map fst sch) = {..<length nss}" "length res = length nss"
    "list_all2 (task_outcome fn nss res) sch es"
    "case err of None \<Rightarrow> set es \<subseteq> {None} | Some e \<Rightarrow> \<exists>k<length sch. es ! k = Some e \<and> snd (sch ! k) = ctx"
    "err = None \<Longrightarrow> snd ` set sch \<subseteq> {ctx}"
proof -
  let ?tasks = "fan_out_tasks fn nss" and ?st = "(w, replicate (length nss) [])"
  obtain sch where sch: "group_execution ctx ?tasks ?st sch (wgroup ctx ?tasks ?st)"
    using group_runs by blast
  obtain es where run: "run_tasks ?tasks sch ?st = ((w', res), es)"
    using sch assms by (cases "run_tasks ?tasks sch ?st") (simp add: group_execution_def)
  have m: "mset (map fst sch) = mset [0..<length nss]"
    using sch unfolding group_execution_def by simp
  have "distinct (map fst sch)"
    using m mset_eq_imp_distinct_iff distinct_upt by blast
  moreover have S: "set (map fst sch) = {..<length nss}"
    using mset_eq_setD [OF m] by (simp add: lessThan_atLeast0)
  ultimately have R: "length res = length nss" "list_all2 (task_outcome fn nss res) sch es"
    using run_fan_out [OF _ _ _ run] by auto
  have G: "case err of None \<Rightarrow> set es \<subseteq> {None} | Some e \<Rightarrow> \<exists>k<length sch. es ! k = Some e \<and> snd (sch ! k) = ctx"
    and C: "\<forall>k<length sch. snd (sch ! k) = ctx \<or> snd (sch ! k) = group_ctx ctx True \<and> (\<exists>j<k. es ! j \<noteq> None)"
    using sch unfolding group_execution_def Let_def assms run fst_conv snd_conv by blast+
  have "snd ` set sch \<subseteq> {ctx}" if "err = None"
  proof -
    have "es ! j = None" if "j < length sch" for j
    proof -
      have "es ! j \<in> set es" using that R(2) by (metis list_all2_lengthD nth_mem)
      with G \<open>err = None\<close> show ?thesis by auto
    qed
    with C have "snd (sch ! k) = ctx" if "k < length sch" for k using that by (metis order.strict_trans)
    then have "\<forall>p\<in>set sch. snd p = ctx" by (simp add: all_set_conv_all_nth)
    then show ?thesis by auto
  qed
  with that S R G show thesis by blast
qed

lemma fan_out_joined:
  assumes "parallelMapTraced wgroup ctx nss fn w = (w', Inr r)"
  shows "\<exists>items. length items = length nss \<and> r = appended (concat items) \<and>
    (\<forall>i<length nss. \<exists>w1 w2 s. fn ctx (nss ! i) w1 = (w2, Inr s) \<and> items ! i = slice_items s)"
proof (cases "nss = []")
  case True
  with assms show ?thesis by (auto simp: parallelMapTraced_def appended_def)
next
  case False
  with assms obtain res where res: "r = appended (concat res)"
    "wgroup ctx (fan_out_tasks fn nss) (w, replicate (length nss) []) = ((w', res), None)"
    by (auto simp: parallelMapTraced_def split: prod.splits option.splits)
  obtain sch es where sch: "set (map fst sch) = {..<length nss}" "length res = length nss"
    "list_all2 (task_outcome fn nss res) sch es" "set es \<subseteq> {None}" "snd ` set sch \<subseteq> {ctx}"
    by (rule fan_out_run [OF res(2)]) simp
  have "\<exists>w1 w2 s. fn ctx (nss ! i) w1 = (w2, Inr s) \<and> res ! i = slice_items s" if i: "i < length nss" for i
  proof -
    have "i \<in> set (map fst sch)" using sch(1) i by simp
    then obtain c where "(i, c) \<in> set sch" by auto
    with sch(5) have "(i, ctx) \<in> set sch" by auto
    then obtain e where "e \<in> set es" "task_outcome fn nss res (i, ctx) e"
      using sch(3) by (metis in_set_conv_nth list_all2_conv_all_nth)
    moreover from this sch(4) have "e = None" by auto
    ultimately show ?thesis by (auto simp: task_outcome_def)
  qed
  with res(1) sch(2) show ?thesis by blast
qed

lemma fan_out_failed:
  assumes "parallelMapTraced wgroup ctx nss fn w = (w', Inl e)"
  shows "\<exists>ns\<in>set nss. \<exists>w1 w2. fn ctx ns w1 = (w2, Inl e)"
proof -
  from assms obtain res where
    "wgroup ctx (fan_out_tasks fn nss) (w, replicate (length nss) []) = ((w', res), Some e)"
    by (auto simp: parallelMapTraced_def split: prod.splits option.splits if_splits)
  then obtain sch es k where sch: "set (map fst sch) = {..<length nss}"
    "list_all2 (task_outcome fn nss res) sch es" "k < length sch" "es ! k = Some e" "snd (sch ! k) = ctx"
    by (rule fan_out_run) auto
  then have "task_outcome fn nss res (sch ! k) (Some e)" by (metis list_all2_nthD)
  moreover have "fst (sch ! k) < length nss" using sch(1,3) by (metis length_map lessThan_iff nth_map nth_mem)
  ultimately show ?thesis using sch(5) by (auto simp: task_outcome_def intro!: bexI [of _ "nss ! fst (sch ! k)"])
qed

lemma fan_out_preserves:
  assumes "\<And>c ns w. ns \<in> set nss \<Longrightarrow> J w \<Longrightarrow> J (fst (fn c ns w))" and "J w"
  shows "J (fst (parallelMapTraced wgroup ctx nss fn w))"
proof -
  have "J (fst (fst (wgroup ctx (fan_out_tasks fn nss) (w, replicate (length nss) []))))"
  proof (rule group_preserves [where P = "\<lambda>s. J (fst s)"])
    fix t c and s :: "'w \<times> 'a list list"
    assume "t \<in> set (fan_out_tasks fn nss)" and J: "J (fst s)"
    then obtain i where "i < length nss" "t = fan_out_task fn i (nss ! i)"
      by (metis in_set_conv_nth length_fan_out_tasks nth_fan_out_tasks)
    with J assms(1) [of "nss ! i" "fst s" c] show "J (fst (fst (t c s)))"
      by (auto simp: fan_out_task_def split: prod.splits sum.splits)
  qed (simp add: assms(2))
  then show ?thesis using assms(2) by (auto simp: parallelMapTraced_def split: prod.splits option.splits)
qed

end

interpretation scheduled_fan_out: fan_out_group "scheduled_group draws" for draws
  by unfold_locales

end
