(* ===== verification/Commands.thy ===== *)
theory Commands
  imports Security Policy FanOut
begin

text \<open>
  The package \<open>internal/commands\<close>: the action names (\<open>types.go\<close>), the validation of a command
  and the decoding of its parameters (\<open>validate.go\<close>), and the router (\<open>router.go\<close>) that turns a
  command into calls of the Kubernetes service and their outcome into a response.

  Each branch of the \<open>switch\<close> in \<open>dispatch\<close> is a definition of its own. The spans of the tracer,
  which only observe, are left out. The payload of a response, a map with one key or a struct in
  the code, is the datatype \<open>kube_data\<close>. The classification of API errors by
  \<open>k8s.io/apimachinery\<close> and the error group are arguments.
\<close>

section \<open>Actions\<close>

definition ActionListNamespaces :: string where "ActionListNamespaces = ''k8s.list_namespaces''"
definition ActionListPods :: string where "ActionListPods = ''k8s.list_pods''"
definition ActionGetPod :: string where "ActionGetPod = ''k8s.get_pod''"
definition ActionGetPodLogs :: string where "ActionGetPodLogs = ''k8s.get_pod_logs''"
definition ActionListEvents :: string where "ActionListEvents = ''k8s.list_events''"
definition ActionListDeployments :: string where "ActionListDeployments = ''k8s.list_deployments''"
definition ActionListServices :: string where "ActionListServices = ''k8s.list_services''"
definition ActionGetRolloutStatus :: string where "ActionGetRolloutStatus = ''k8s.get_rollout_status''"
definition ActionDescribePod :: string where "ActionDescribePod = ''k8s.describe_pod''"
definition ActionDiscoverNamespaces :: string where
  "ActionDiscoverNamespaces = ''agent.discover_namespaces''"

lemmas action_defs =
  ActionListNamespaces_def ActionListPods_def ActionGetPod_def ActionGetPodLogs_def
  ActionListEvents_def ActionListDeployments_def ActionListServices_def
  ActionGetRolloutStatus_def ActionDescribePod_def ActionDiscoverNamespaces_def

definition allowedActions :: "string list" where
  "allowedActions =
     [ActionListNamespaces, ActionListPods, ActionGetPod, ActionGetPodLogs, ActionListEvents,
      ActionListDeployments, ActionListServices, ActionGetRolloutStatus, ActionDescribePod,
      ActionDiscoverNamespaces]"

definition IsAllowedAction :: "string \<Rightarrow> bool" where
  "IsAllowedAction action \<longleftrightarrow> action \<in> set allowedActions"

definition ValidateCommand :: "Command \<Rightarrow> go_error option" where
  "ValidateCommand cmd =
     (if cmd_ID cmd = [] then Some (ErrorString ''command id is required'')
      else if cmd_Type cmd \<noteq> MessageTypeCommand
        then Some (ErrorString (''unsupported message type '' @ go_quote (cmd_Type cmd)))
      else if cmd_Action cmd = [] then Some (ErrorString ''command action is required'')
      else if \<not> IsAllowedAction (cmd_Action cmd)
        then Some (ErrorString (''unsupported action '' @ go_quote (cmd_Action cmd)))
      else None)"

definition decodeParams :: "'s decoder \<Rightarrow> 's \<Rightarrow> Command \<Rightarrow> 's go_result" where
  "decodeParams d zero cmd =
     (case cmd_Params cmd of None \<Rightarrow> Inr zero | Some j \<Rightarrow> unmarshal_value d zero j)"

section \<open>The router\<close>

datatype kube_item = PodItem Pod | EventItem Event | DeploymentItem Deployment | ServiceItem ServiceResource

datatype kube_data =
    DiscoveredNamespaces "(string \<times> string) list"
  | NamespaceNames "string list"
  | ItemsData string "kube_item slice"
  | PodData Pod
  | LogsData LogResult
  | RolloutData RolloutStatus
  | DescriptionData PodDescription

record 'w Router =
  router_kube :: "'w Kubernetes"
  router_guard :: NamespaceGuard
  router_limits :: Limits

definition NewRouter :: "'w Kubernetes \<Rightarrow> NamespaceGuard \<Rightarrow> Limits \<Rightarrow> 'w Router" where
  "NewRouter kube g limits = \<lparr>router_kube = kube, router_guard = g, router_limits = limits\<rparr>"

record api_errors =
  IsNotFound :: "go_error \<Rightarrow> bool"
  IsForbidden :: "go_error \<Rightarrow> bool"
  IsUnauthorized :: "go_error \<Rightarrow> bool"

text \<open>A classifier of API errors for the examples: none of the errors is an API status.\<close>

definition example_errors :: api_errors where
  "example_errors = \<lparr>IsNotFound = (\<lambda>e. False), IsForbidden = (\<lambda>e. False), IsUnauthorized = (\<lambda>e. False)\<rparr>"

type_synonym 'w item_group =
  "go_ctx \<Rightarrow> ('w \<times> kube_item list list) task list \<Rightarrow> 'w \<times> kube_item list list \<Rightarrow>
   ('w \<times> kube_item list list) \<times> go_error option"

type_synonym 'w handler = "'w \<Rightarrow> 'w \<times> (go_panic + kube_data go_result)"

definition invalidParams :: "go_error \<Rightarrow> go_error" where
  "invalidParams e = CodedError ErrInvalidParams e"

definition namespaceDenied :: "go_error \<Rightarrow> go_error" where
  "namespaceDenied e = CodedError ErrNamespaceDenied e"

definition classifyError :: "api_errors \<Rightarrow> go_error \<Rightarrow> string \<times> string" where
  "classifyError ae e =
     (case as_coded e of
        Some (code, inner) \<Rightarrow> (code, error_text inner)
      | None \<Rightarrow>
          if errors_is e DeadlineExceeded then (ErrTimeout, ''command timed out'')
          else if IsNotFound ae e then (ErrNotFound, error_text e)
          else if IsForbidden ae e \<or> IsUnauthorized ae e
            then (ErrRBACDenied, ''Agent cannot access the requested Kubernetes resource'')
          else (ErrInternal, error_text e))"

definition allowedNamespaces :: "'w Router \<Rightarrow> string list" where
  "allowedNamespaces r = AllowedNamespaces (router_guard r)"

text \<open>
  The ends of a branch: an error before any call, and the outcome of a call with its payload.
\<close>

definition refuse :: "go_error \<Rightarrow> 'w handler" where
  "refuse e w = (w, Inr (Inl e))"

definition answer :: "('a \<Rightarrow> kube_data) \<Rightarrow> ('w, 'a) api \<Rightarrow> 'w handler" where
  "answer payload m w = (case m w of (w', Inl e) \<Rightarrow> (w', Inr (Inl e)) | (w', Inr x) \<Rightarrow> (w', Inr (Inr (payload x))))"

definition as_items :: "('a \<Rightarrow> kube_item) \<Rightarrow> (go_ctx \<Rightarrow> string \<Rightarrow> ('w, 'a slice) api) \<Rightarrow>
  go_ctx \<Rightarrow> string \<Rightarrow> ('w, kube_item slice) api" where
  "as_items item fn ctx ns w =
     (case fn ctx ns w of (w', Inl e) \<Rightarrow> (w', Inl e) | (w', Inr s) \<Rightarrow> (w', Inr (map_option (map item) s)))"

section \<open>The branches of dispatch\<close>

definition do_discover_namespaces :: "'w Router \<Rightarrow> go_ctx \<Rightarrow> 'w handler" where
  "do_discover_namespaces r ctx =
     answer (\<lambda>namespaces. DiscoveredNamespaces (map (\<lambda>n. (ns_Name n, ns_Status n)) namespaces))
       (ListNamespaces (router_kube r) ctx)"

definition do_list_namespaces :: "'w Router \<Rightarrow> 'w handler" where
  "do_list_namespaces r w = (w, Inr (Inr (NamespaceNames (AllowedNamespaces (router_guard r)))))"

definition do_list_pods :: "'w item_group \<Rightarrow> 'w Router \<Rightarrow> go_ctx \<Rightarrow> Command \<Rightarrow> 'w handler" where
  "do_list_pods wgroup r ctx cmd =
     (case decodeParams namespace_params zero_np cmd of
        Inl e \<Rightarrow> refuse (invalidParams e)
      | Inr params \<Rightarrow>
          (case Check (router_guard r) (np_Namespace params) of
             Some e \<Rightarrow> refuse (namespaceDenied e)
           | None \<Rightarrow>
               let lister = as_items PodItem (ListPods (router_kube r)) in
               if np_Namespace params = []
               then answer (ItemsData ''pods'') (parallelMapTraced wgroup ctx (allowedNamespaces r) lister)
               else answer (ItemsData ''pods'') (lister ctx (np_Namespace params))))"

definition do_get_pod :: "'w Router \<Rightarrow> go_ctx \<Rightarrow> Command \<Rightarrow> 'w handler" where
  "do_get_pod r ctx cmd =
     (case decodeParams get_pod_params zero_gp cmd of
        Inl e \<Rightarrow> refuse (invalidParams e)
      | Inr params \<Rightarrow>
          if gp_Namespace params = [] \<or> gp_Pod params = []
          then refuse (invalidParams (ErrorString ''namespace and pod are required''))
          else (case Check (router_guard r) (gp_Namespace params) of
             Some e \<Rightarrow> refuse (namespaceDenied e)
           | None \<Rightarrow> answer PodData (GetPod (router_kube r) ctx (gp_Namespace params) (gp_Pod params))))"

definition do_get_pod_logs :: "'w Router \<Rightarrow> go_ctx \<Rightarrow> Command \<Rightarrow> 'w handler" where
  "do_get_pod_logs r ctx cmd =
     (case decodeParams get_pod_logs_params zero_gl cmd of
        Inl e \<Rightarrow> refuse (invalidParams e)
      | Inr params \<Rightarrow>
          if gl_Namespace params = [] \<or> gl_Pod params = []
          then refuse (invalidParams (ErrorString ''namespace and pod are required''))
          else (case Check (router_guard r) (gl_Namespace params) of
             Some e \<Rightarrow> refuse (namespaceDenied e)
           | None \<Rightarrow>
               let tail = TailLines (router_limits r) (gl_TailLines params) in
               (\<lambda>w. case GetPodLogs (router_kube r) ctx (gl_Namespace params) (gl_Pod params)
                       (gl_Container params) tail (MaxLogBytes (router_limits r)) w of
                  (w', Inl p) \<Rightarrow> (w', Inl p)
                | (w', Inr (Inl e)) \<Rightarrow> (w', Inr (Inl e))
                | (w', Inr (Inr logs)) \<Rightarrow> (w', Inr (Inr (LogsData logs))))))"

definition do_list_events :: "'w item_group \<Rightarrow> 'w Router \<Rightarrow> go_ctx \<Rightarrow> Command \<Rightarrow> 'w handler" where
  "do_list_events wgroup r ctx cmd =
     (case decodeParams namespace_params zero_np cmd of
        Inl e \<Rightarrow> refuse (invalidParams e)
      | Inr params \<Rightarrow>
          (case Check (router_guard r) (np_Namespace params) of
             Some e \<Rightarrow> refuse (namespaceDenied e)
           | None \<Rightarrow>
               let lister = as_items EventItem (ListEvents (router_kube r)) in
               if np_Namespace params = []
               then answer (ItemsData ''events'') (parallelMapTraced wgroup ctx (allowedNamespaces r) lister)
               else answer (ItemsData ''events'') (lister ctx (np_Namespace params))))"

definition do_list_deployments :: "'w item_group \<Rightarrow> 'w Router \<Rightarrow> go_ctx \<Rightarrow> Command \<Rightarrow> 'w handler" where
  "do_list_deployments wgroup r ctx cmd =
     (case decodeParams namespace_params zero_np cmd of
        Inl e \<Rightarrow> refuse (invalidParams e)
      | Inr params \<Rightarrow>
          (case Check (router_guard r) (np_Namespace params) of
             Some e \<Rightarrow> refuse (namespaceDenied e)
           | None \<Rightarrow>
               let lister = as_items DeploymentItem (ListDeployments (router_kube r)) in
               if np_Namespace params = []
               then answer (ItemsData ''deployments'')
                      (parallelMapTraced wgroup ctx (allowedNamespaces r) lister)
               else answer (ItemsData ''deployments'') (lister ctx (np_Namespace params))))"

definition do_list_services :: "'w item_group \<Rightarrow> 'w Router \<Rightarrow> go_ctx \<Rightarrow> Command \<Rightarrow> 'w handler" where
  "do_list_services wgroup r ctx cmd =
     (case decodeParams namespace_params zero_np cmd of
        Inl e \<Rightarrow> refuse (invalidParams e)
      | Inr params \<Rightarrow>
          (case Check (router_guard r) (np_Namespace params) of
             Some e \<Rightarrow> refuse (namespaceDenied e)
           | None \<Rightarrow>
               let lister = as_items ServiceItem (ListServices (router_kube r)) in
               if np_Namespace params = []
               then answer (ItemsData ''services'') (parallelMapTraced wgroup ctx (allowedNamespaces r) lister)
               else answer (ItemsData ''services'') (lister ctx (np_Namespace params))))"

definition do_get_rollout_status :: "'w Router \<Rightarrow> go_ctx \<Rightarrow> Command \<Rightarrow> 'w handler" where
  "do_get_rollout_status r ctx cmd =
     (case decodeParams rollout_params zero_gr cmd of
        Inl e \<Rightarrow> refuse (invalidParams e)
      | Inr params \<Rightarrow>
          if gr_Namespace params = [] \<or> gr_Deployment params = []
          then refuse (invalidParams (ErrorString ''namespace and deployment are required''))
          else (case Check (router_guard r) (gr_Namespace params) of
             Some e \<Rightarrow> refuse (namespaceDenied e)
           | None \<Rightarrow> answer RolloutData
               (GetRolloutStatus (router_kube r) ctx (gr_Namespace params) (gr_Deployment params))))"

definition do_describe_pod :: "'w Router \<Rightarrow> go_ctx \<Rightarrow> Command \<Rightarrow> 'w handler" where
  "do_describe_pod r ctx cmd =
     (case decodeParams get_pod_params zero_gp cmd of
        Inl e \<Rightarrow> refuse (invalidParams e)
      | Inr params \<Rightarrow>
          if gp_Namespace params = [] \<or> gp_Pod params = []
          then refuse (invalidParams (ErrorString ''namespace and pod are required''))
          else (case Check (router_guard r) (gp_Namespace params) of
             Some e \<Rightarrow> refuse (namespaceDenied e)
           | None \<Rightarrow> answer DescriptionData
               (DescribePod (router_kube r) ctx (gp_Namespace params) (gp_Pod params))))"

definition dispatch :: "'w item_group \<Rightarrow> 'w Router \<Rightarrow> go_ctx \<Rightarrow> Command \<Rightarrow> 'w handler" where
  "dispatch wgroup r ctx cmd =
     (let action = cmd_Action cmd in
      if action = ActionDiscoverNamespaces then do_discover_namespaces r ctx
      else if action = ActionListNamespaces then do_list_namespaces r
      else if action = ActionListPods then do_list_pods wgroup r ctx cmd
      else if action = ActionGetPod then do_get_pod r ctx cmd
      else if action = ActionGetPodLogs then do_get_pod_logs r ctx cmd
      else if action = ActionListEvents then do_list_events wgroup r ctx cmd
      else if action = ActionListDeployments then do_list_deployments wgroup r ctx cmd
      else if action = ActionListServices then do_list_services wgroup r ctx cmd
      else if action = ActionGetRolloutStatus then do_get_rollout_status r ctx cmd
      else if action = ActionDescribePod then do_describe_pod r ctx cmd
      else refuse (ErrorString (''unsupported action '' @ go_quote action)))"

definition Handle :: "'w item_group \<Rightarrow> api_errors \<Rightarrow> 'w Router \<Rightarrow> go_ctx \<Rightarrow> Command \<Rightarrow>
  'w \<Rightarrow> 'w \<times> (go_panic + kube_data Response)" where
  "Handle wgroup ae r ctx cmd w =
     (case ValidateCommand cmd of
        Some e \<Rightarrow>
          let code = (if \<not> IsAllowedAction (cmd_Action cmd) then ErrUnsupportedAction else ErrInvalidCommand)
          in (w, Inr (Failure (cmd_ID cmd) code (error_text e)))
      | None \<Rightarrow>
          (case dispatch wgroup r ctx cmd w of
             (w', Inl p) \<Rightarrow> (w', Inl p)
           | (w', Inr (Inl e)) \<Rightarrow>
               let (code, message) = classifyError ae e
               in (w', Inr (Failure (cmd_ID cmd) code message))
           | (w', Inr (Inr data)) \<Rightarrow> (w', Inr (Success (cmd_ID cmd) data))))"

end
