(* ===== verification/Confinement.thy ===== *)
theory Confinement
  imports Commands
begin

text \<open>
  What a command makes the router do: which calls of the Kubernetes service it makes, for which
  namespaces and with which limits, and what comes back.

  The calls are observed by \<open>logged\<close>, which wraps a Kubernetes implementation so that every call
  is appended to a log in the world. \<open>planned_calls\<close> is the specification: the calls a command
  is entitled to, from the guard, the limits and the command alone.
\<close>

section \<open>Observing the calls\<close>

datatype kube_call =
    CallListNamespaces
  | CallListPods string
  | CallGetPod string string
  | CallGetPodLogs string string string int64 int64
  | CallListEvents string
  | CallListDeployments string
  | CallListServices string
  | CallGetRolloutStatus string string
  | CallDescribePod string string

definition log_call :: "kube_call \<Rightarrow> ('w \<Rightarrow> 'w \<times> 'r) \<Rightarrow> 'w \<times> kube_call list \<Rightarrow> ('w \<times> kube_call list) \<times> 'r" where
  "log_call c m wl = (let (w', r) = m (fst wl) in ((w', snd wl @ [c]), r))"

definition logged :: "'w Kubernetes \<Rightarrow> ('w \<times> kube_call list) Kubernetes" where
  "logged k =
     \<lparr>ListNamespaces = (\<lambda>ctx. log_call CallListNamespaces (ListNamespaces k ctx)),
      ListPods = (\<lambda>ctx ns. log_call (CallListPods ns) (ListPods k ctx ns)),
      GetPod = (\<lambda>ctx ns name. log_call (CallGetPod ns name) (GetPod k ctx ns name)),
      GetPodLogs = (\<lambda>ctx ns pod c t m. log_call (CallGetPodLogs ns pod c t m) (GetPodLogs k ctx ns pod c t m)),
      ListEvents = (\<lambda>ctx ns. log_call (CallListEvents ns) (ListEvents k ctx ns)),
      ListDeployments = (\<lambda>ctx ns. log_call (CallListDeployments ns) (ListDeployments k ctx ns)),
      ListServices = (\<lambda>ctx ns. log_call (CallListServices ns) (ListServices k ctx ns)),
      GetRolloutStatus = (\<lambda>ctx ns name. log_call (CallGetRolloutStatus ns name) (GetRolloutStatus k ctx ns name)),
      DescribePod = (\<lambda>ctx ns name. log_call (CallDescribePod ns name) (DescribePod k ctx ns name))\<rparr>"

definition calls_of :: "('w \<times> kube_call list \<Rightarrow> ('w \<times> kube_call list) \<times> 'r) \<Rightarrow> kube_call list \<Rightarrow> bool" where
  "calls_of m cs \<longleftrightarrow> (\<forall>wl. mset (snd (fst (m wl))) = mset (snd wl) + mset cs)"

lemma calls_ofD: "calls_of m cs \<Longrightarrow> mset (snd (fst (m wl))) = mset (snd wl) + mset cs"
  unfolding calls_of_def by blast

named_theorems calls_intros "the calls of the router's building blocks"

lemma calls_of_refuse [calls_intros]: "calls_of (refuse e) []"
  by (simp add: calls_of_def refuse_def)

lemma calls_of_log_call [calls_intros]: "calls_of (log_call c m) [c]"
  by (simp add: calls_of_def log_call_def split: prod.split)

lemma fst_answer [simp]: "fst (answer p m w) = fst (m w)"
  by (simp add: answer_def split: prod.split sum.split)

lemma fst_as_items [simp]: "fst (as_items item fn ctx ns w) = fst (fn ctx ns w)"
  by (simp add: as_items_def split: prod.split sum.split)

lemma calls_of_answer [calls_intros]: "calls_of m cs \<Longrightarrow> calls_of (answer p m) cs"
  by (simp add: calls_of_def)

lemma calls_of_as_items [calls_intros]: "calls_of (fn ctx ns) cs \<Longrightarrow> calls_of (as_items item fn ctx ns) cs"
  by (simp add: calls_of_def)

text \<open>The fan-out adds up the calls of its tasks.\<close>

lemma fst_fan_out_task [simp]: "fst (fst (fan_out_task fn i ns c st)) = fst (fn c ns (fst st))"
  by (simp add: fan_out_task_def split: prod.split sum.split)

lemma run_fan_out_calls:
  assumes "\<And>c ns. ns \<in> set nss \<Longrightarrow> calls_of (fn c ns) [C ns]"
  shows "\<forall>p\<in>set sch. fst p < length nss \<Longrightarrow>
    mset (snd (fst (fst (run_tasks (fan_out_tasks fn nss) sch st)))) =
      mset (snd (fst st)) + image_mset (\<lambda>i. C (nss ! i)) (mset (map fst sch))"
proof (induction sch arbitrary: st)
  case (Cons p sch)
  then have "mset (snd (fst (fst (fan_out_task fn (fst p) (nss ! fst p) (snd p) st)))) =
      mset (snd (fst st)) + {#C (nss ! fst p)#}"
    using calls_ofD [OF assms, of "nss ! fst p" "snd p" "fst st"] by simp
  with Cons show ?case by simp
qed simp

lemma image_mset_nth: "image_mset (\<lambda>i. C (xs ! i)) (mset [0..<length xs]) = mset (map C xs)"
proof -
  have "map (\<lambda>i. C (xs ! i)) [0..<length xs] = map C xs" by (rule nth_equalityI) auto
  then show ?thesis by (metis mset_map)
qed

lemma fan_out_calls [calls_intros]:
  fixes fn :: "go_ctx \<Rightarrow> string \<Rightarrow> ('w \<times> kube_call list, 'a slice) api"
  assumes "errgroup wgroup" and "\<And>c ns. ns \<in> set nss \<Longrightarrow> calls_of (fn c ns) [C ns]"
  shows "calls_of (parallelMapTraced wgroup ctx nss fn) (map C nss)"
  unfolding calls_of_def
proof
  fix wl :: "'w \<times> kube_call list"
  let ?tasks = "fan_out_tasks fn nss" and ?st = "(wl, replicate (length nss) [])"
  obtain sch where sch: "group_execution ctx ?tasks ?st sch (wgroup ctx ?tasks ?st)"
    using errgroup.group_runs [OF assms(1)] by blast
  then have m: "mset (map fst sch) = mset [0..<length nss]"
    and out: "fst (wgroup ctx ?tasks ?st) = fst (run_tasks ?tasks sch ?st)"
    by (simp_all add: group_execution_def)
  have "\<forall>p\<in>set sch. fst p < length nss" using mset_eq_setD [OF m]
    by (metis atLeastLessThan_iff image_eqI list.set_map set_upt)
  from run_fan_out_calls [where C = C, OF assms(2) this, where st = ?st]
  have "mset (snd (fst (fst (wgroup ctx ?tasks ?st)))) = mset (snd wl) + mset (map C nss)"
    unfolding out m image_mset_nth by simp
  then show "mset (snd (fst (parallelMapTraced wgroup ctx nss fn wl))) = mset (snd wl) + mset (map C nss)"
    by (auto simp: parallelMapTraced_def split: prod.split option.split)
qed


section \<open>The calls of a command\<close>

definition plan_list :: "NamespaceGuard \<Rightarrow> (string \<Rightarrow> kube_call) \<Rightarrow> Command \<Rightarrow> kube_call list" where
  "plan_list g C cmd =
     (case decodeParams namespace_params zero_np cmd of
        Inl e \<Rightarrow> []
      | Inr p \<Rightarrow>
          if Check g (np_Namespace p) = None
          then map C (fan_out (AllowedNamespaces g) (np_Namespace p)) else [])"

definition plan_named :: "NamespaceGuard \<Rightarrow> 's decoder \<Rightarrow> 's \<Rightarrow> ('s \<Rightarrow> string) \<Rightarrow> ('s \<Rightarrow> string) \<Rightarrow>
  ('s \<Rightarrow> kube_call) \<Rightarrow> Command \<Rightarrow> kube_call list" where
  "plan_named g d zero namespace name C cmd =
     (case decodeParams d zero cmd of
        Inl e \<Rightarrow> []
      | Inr p \<Rightarrow> if permitted (Check g) (namespace p) \<and> name p \<noteq> [] then [C p] else [])"

definition planned_calls :: "NamespaceGuard \<Rightarrow> Limits \<Rightarrow> Command \<Rightarrow> kube_call list" where
  "planned_calls g l cmd =
     (let action = cmd_Action cmd in
      if ValidateCommand cmd \<noteq> None \<or> action = ActionListNamespaces then []
      else if action = ActionDiscoverNamespaces then [CallListNamespaces]
      else if action = ActionListPods then plan_list g CallListPods cmd
      else if action = ActionListEvents then plan_list g CallListEvents cmd
      else if action = ActionListDeployments then plan_list g CallListDeployments cmd
      else if action = ActionListServices then plan_list g CallListServices cmd
      else if action = ActionGetPod
        then plan_named g get_pod_params zero_gp gp_Namespace gp_Pod
               (\<lambda>p. CallGetPod (gp_Namespace p) (gp_Pod p)) cmd
      else if action = ActionDescribePod
        then plan_named g get_pod_params zero_gp gp_Namespace gp_Pod
               (\<lambda>p. CallDescribePod (gp_Namespace p) (gp_Pod p)) cmd
      else if action = ActionGetRolloutStatus
        then plan_named g rollout_params zero_gr gr_Namespace gr_Deployment
               (\<lambda>p. CallGetRolloutStatus (gr_Namespace p) (gr_Deployment p)) cmd
      else plan_named g get_pod_logs_params zero_gl gl_Namespace gl_Pod
             (\<lambda>p. CallGetPodLogs (gl_Namespace p) (gl_Pod p) (gl_Container p)
                (TailLines l (gl_TailLines p)) (MaxLogBytes l)) cmd)"

lemma calls_of_list_branches:
  assumes "errgroup wgroup" and "router_kube r = logged k" and "router_guard r = g"
  shows "calls_of (do_list_pods wgroup r ctx cmd) (plan_list g CallListPods cmd)"
    and "calls_of (do_list_events wgroup r ctx cmd) (plan_list g CallListEvents cmd)"
    and "calls_of (do_list_deployments wgroup r ctx cmd) (plan_list g CallListDeployments cmd)"
    and "calls_of (do_list_services wgroup r ctx cmd) (plan_list g CallListServices cmd)"
  unfolding do_list_pods_def do_list_events_def do_list_deployments_def do_list_services_def
    plan_list_def Let_def
  by (auto split: sum.split option.split
      simp: assms(2,3) fan_out_def logged_def allowedNamespaces_def intro!: calls_intros assms(1))

lemma calls_of_do_get_pod_logs:
  assumes "router_kube r = logged k" and "router_guard r = g" and "router_limits r = l"
  shows "calls_of (do_get_pod_logs r ctx cmd)
    (plan_named g get_pod_logs_params zero_gl gl_Namespace gl_Pod
      (\<lambda>p. CallGetPodLogs (gl_Namespace p) (gl_Pod p) (gl_Container p)
         (TailLines l (gl_TailLines p)) (MaxLogBytes l)) cmd)"
  unfolding do_get_pod_logs_def plan_named_def Let_def
  by (auto split: sum.split option.split prod.split intro!: calls_intros
      simp: assms logged_def permitted_def calls_of_def log_call_def refuse_def)

lemma calls_of_named_branches:
  assumes "router_kube r = logged k" and "router_guard r = g"
  shows "calls_of (do_get_pod r ctx cmd)
      (plan_named g get_pod_params zero_gp gp_Namespace gp_Pod
         (\<lambda>p. CallGetPod (gp_Namespace p) (gp_Pod p)) cmd)"
    and "calls_of (do_describe_pod r ctx cmd)
      (plan_named g get_pod_params zero_gp gp_Namespace gp_Pod
         (\<lambda>p. CallDescribePod (gp_Namespace p) (gp_Pod p)) cmd)"
    and "calls_of (do_get_rollout_status r ctx cmd)
      (plan_named g rollout_params zero_gr gr_Namespace gr_Deployment
         (\<lambda>p. CallGetRolloutStatus (gr_Namespace p) (gr_Deployment p)) cmd)"
  unfolding do_get_pod_def do_describe_pod_def do_get_rollout_status_def plan_named_def
  by (auto split: sum.split option.split intro!: calls_intros
      simp: assms logged_def permitted_def)

lemma calls_of_namespaces:
  assumes "router_kube r = logged k"
  shows "calls_of (do_discover_namespaces r ctx) [CallListNamespaces]"
    and "calls_of (do_list_namespaces r) []"
proof -
  show "calls_of (do_discover_namespaces r ctx) [CallListNamespaces]"
    unfolding do_discover_namespaces_def assms logged_def by (auto intro!: calls_intros)
  show "calls_of (do_list_namespaces r) []"
    by (simp add: do_list_namespaces_def calls_of_def)
qed


lemma allowed_action_cases:
  "IsAllowedAction a \<Longrightarrow> a \<in> {ActionListNamespaces, ActionListPods, ActionGetPod, ActionGetPodLogs,
     ActionListEvents, ActionListDeployments, ActionListServices, ActionGetRolloutStatus,
     ActionDescribePod, ActionDiscoverNamespaces}"
  by (simp add: IsAllowedAction_def allowedActions_def)

lemma ValidateCommand_None_iff:
  "ValidateCommand cmd = None \<longleftrightarrow>
     cmd_ID cmd \<noteq> [] \<and> cmd_Type cmd = MessageTypeCommand \<and> cmd_Action cmd \<noteq> [] \<and> IsAllowedAction (cmd_Action cmd)"
  by (simp add: ValidateCommand_def)

lemma actions_distinct: "distinct allowedActions"
  unfolding allowedActions_def action_defs by simp

lemma NewRouter_sel [simp]:
  "router_kube (NewRouter k g l) = k" "router_guard (NewRouter k g l) = g"
  "router_limits (NewRouter k g l) = l"
  by (simp_all add: NewRouter_def)

lemma calls_of_dispatch:
  assumes "errgroup wgroup" and "ValidateCommand cmd = None"
  shows "calls_of (dispatch wgroup (NewRouter (logged k) g l) ctx cmd) (planned_calls g l cmd)"
proof -
  let ?r = "NewRouter (logged k) g l"
  have r: "router_kube ?r = logged k" "router_guard ?r = g" "router_limits ?r = l" by simp_all
  note calls = calls_of_list_branches [OF assms(1) r(1,2)] calls_of_named_branches [OF r(1,2)]
    calls_of_do_get_pod_logs [OF r] calls_of_namespaces [OF r(1)]
  have "IsAllowedAction (cmd_Action cmd)" using assms(2) by (simp add: ValidateCommand_None_iff)
  from allowed_action_cases [OF this] show ?thesis
    unfolding dispatch_def planned_calls_def Let_def
    by (elim insertE) (simp_all add: assms(2) calls action_defs)
qed

lemma fst_Handle:
  "fst (Handle wgroup ae r ctx cmd w) =
     (if ValidateCommand cmd = None then fst (dispatch wgroup r ctx cmd w) else w)"
  by (auto simp: Handle_def Let_def split: option.split prod.split sum.split)

lemma calls_of_Handle:
  assumes "errgroup wgroup"
  shows "calls_of (Handle wgroup ae (NewRouter (logged k) g l) ctx cmd) (planned_calls g l cmd)"
proof (cases "ValidateCommand cmd = None")
  case True
  then show ?thesis using calls_of_dispatch [OF assms True] by (simp add: calls_of_def fst_Handle)
next
  case False
  then show ?thesis by (auto simp: calls_of_def fst_Handle planned_calls_def)
qed

section \<open>Confinement\<close>

definition command_namespace :: "Command \<Rightarrow> string option" where
  "command_namespace cmd =
     (case decodeParams policy_params zero_pp cmd of Inl e \<Rightarrow> None | Inr p \<Rightarrow> Some (pp_Namespace p))"

fun call_namespace :: "kube_call \<Rightarrow> string option" where
  "call_namespace CallListNamespaces = None"
| "call_namespace (CallListPods n) = Some n"
| "call_namespace (CallGetPod n p) = Some n"
| "call_namespace (CallGetPodLogs n p c t m) = Some n"
| "call_namespace (CallListEvents n) = Some n"
| "call_namespace (CallListDeployments n) = Some n"
| "call_namespace (CallListServices n) = Some n"
| "call_namespace (CallGetRolloutStatus n d) = Some n"
| "call_namespace (CallDescribePod n p) = Some n"

definition call_confined :: "NamespaceGuard \<Rightarrow> Command \<Rightarrow> kube_call \<Rightarrow> bool" where
  "call_confined g cmd c \<longleftrightarrow>
     (case call_namespace c of
        None \<Rightarrow> cmd_Action cmd = ActionDiscoverNamespaces
      | Some n \<Rightarrow> permitted (Check g) n \<and>
          (command_namespace cmd = Some n \<or>
           command_namespace cmd = Some [] \<and> n \<in> set (AllowedNamespaces g)))"

lemma decodeParams_namespace:
  assumes "ns_agrees d zero namespace" and "namespace zero = []" and "decodeParams d zero cmd = Inr s"
  shows "command_namespace cmd = Some (namespace s)"
proof (cases "cmd_Params cmd")
  case None
  with assms show ?thesis by (simp add: decodeParams_def command_namespace_def zero_pp_def)
next
  case (Some j)
  with assms obtain p where "unmarshal_value policy_params zero_pp j = Inr p" "pp_Namespace p = namespace s"
    by (auto simp: decodeParams_def ns_agrees_def)
  with Some show ?thesis by (simp add: decodeParams_def command_namespace_def)
qed

lemmas decoded_namespace =
  decodeParams_namespace [OF ns_agrees_params(1)] decodeParams_namespace [OF ns_agrees_params(2)]
  decodeParams_namespace [OF ns_agrees_params(3)] decodeParams_namespace [OF ns_agrees_params(4)]

lemma plan_list_confined:
  assumes "c \<in> set (plan_list (NewNamespaceGuard a d) C cmd)" and "\<And>n. call_namespace (C n) = Some n"
  shows "call_confined (NewNamespaceGuard a d) cmd c"
proof -
  from assms(1) obtain p n where p: "decodeParams namespace_params zero_np cmd = Inr p"
    "Check (NewNamespaceGuard a d) (np_Namespace p) = None" "c = C n"
    "n \<in> set (fan_out (AllowedNamespaces (NewNamespaceGuard a d)) (np_Namespace p))"
    by (cases "decodeParams namespace_params zero_np cmd") (auto simp: plan_list_def split: if_splits)
  have "command_namespace cmd = Some (np_Namespace p)"
    using p(1) by (intro decoded_namespace) (simp_all add: zero_np_def)
  moreover have "permitted (Check (NewNamespaceGuard a d)) n"
    using guard.fan_out_permitted [OF p(2,4)] .
  ultimately show ?thesis
    using p(3,4) assms(2) by (auto simp: call_confined_def fan_out_def split: if_splits)
qed

lemma plan_named_confined:
  assumes "c \<in> set (plan_named g d zero namespace name C cmd)" and "ns_agrees d zero namespace"
    and "namespace zero = []" and "\<And>p. call_namespace (C p) = Some (namespace p)"
  shows "call_confined g cmd c"
proof -
  from assms(1) obtain p where p: "decodeParams d zero cmd = Inr p" "permitted (Check g) (namespace p)" "c = C p"
    by (cases "decodeParams d zero cmd") (auto simp: plan_named_def split: if_splits)
  with decodeParams_namespace [OF assms(2,3) p(1)] assms(4) show ?thesis by (simp add: call_confined_def)
qed

lemma planned_calls_confined:
  assumes "c \<in> set (planned_calls (NewNamespaceGuard a d) l cmd)"
  shows "call_confined (NewNamespaceGuard a d) cmd c"
  using assms unfolding planned_calls_def Let_def
  by (auto split: if_splits simp: zero_gp_def zero_gl_def zero_gr_def
      intro: plan_list_confined plan_named_confined [OF _ ns_agrees_params(2)]
        plan_named_confined [OF _ ns_agrees_params(3)] plan_named_confined [OF _ ns_agrees_params(4)])
    (simp add: call_confined_def)

text \<open>
  Under the access policy: in mode \<open>selected\<close> the calls of a namespaced command go to one
  namespace, which is both selected by the policy and permitted by the guard.
\<close>

lemma requested_command_namespace:
  "requested_namespace cmd = Some n \<Longrightarrow> command_namespace cmd = Some n"
  by (auto simp: requested_namespace_def command_namespace_def decodeParams_def unmarshal_raw_def
      split: option.splits sum.splits)

lemma planned_calls_in_policy:
  assumes "policyAllowsCommand cmd = None" and "cmd_Action cmd \<noteq> ActionDiscoverNamespaces"
    and "cmd_AccessPolicy cmd = Some p" and "policy_NamespaceMode p = ''selected''"
    and "c \<in> set (planned_calls (NewNamespaceGuard a d) l cmd)"
  shows "\<exists>n. call_namespace c = Some n \<and> n \<in> set (policy_Namespaces p) \<and>
    permitted (Check (NewNamespaceGuard a d)) n"
proof -
  have nl: "cmd_Action cmd \<noteq> ActionListNamespaces" using assms(5) by (auto simp: planned_calls_def Let_def)
  have "policy_grants cmd" using assms(1) by (simp add: policyAllowsCommand_iff)
  with assms(2-4) nl obtain n where n: "requested_namespace cmd = Some n" "n \<noteq> []" "n \<in> set (policy_Namespaces p)"
    by (auto simp: policy_grants_def action_defs)
  from planned_calls_confined [OF assms(5)] requested_command_namespace [OF n(1)] n assms(2) show ?thesis
    by (auto simp: call_confined_def split: option.splits)
qed

lemma Handle_call_planned:
  assumes "errgroup wgroup"
    and "c \<in> set (snd (fst (Handle wgroup ae (NewRouter (logged k) g l) ctx cmd (w, []))))"
  shows "c \<in> set (planned_calls g l cmd)"
  using calls_ofD [OF calls_of_Handle [OF assms(1)], of ae k g l ctx cmd "(w, [])"] assms(2)
  by (metis add_0 mset.simps(1) set_mset_mset snd_conv)

section \<open>Properties\<close>

definition example_command :: "string \<Rightarrow> (string \<times> json) list \<Rightarrow> Command" where
  "example_command action params = \<lparr>cmd_ID = ''c1'', cmd_Type = MessageTypeCommand, cmd_Action = action,
     cmd_Params = Some (JObj params), cmd_Traceparent = [], cmd_Tracestate = [],
     cmd_AccessPolicy = Some \<lparr>policy_NamespaceMode = ''selected'', policy_Namespaces = [''shop''],
       policy_Namespaces_spare = [], policy_PodLogsEnabled = True, policy_Version = 1\<rparr>\<rparr>"

definition example_limits :: Limits where
  "example_limits = \<lparr>DefaultTailLines = 200, MaxTailLines = 1000, MaxLogBytes = 4\<rparr>"

lemma list_pods_planned:
  assumes "n \<noteq> []" and "Check g n = None"
  shows "planned_calls g l (example_command ActionListPods [(''namespace'', JStr n)]) = [CallListPods n]"
proof -
  have "fold_name ''namespace'' = ''NAMESPACE''" by code_simp
  then have d: "decodeParams namespace_params zero_np (example_command ActionListPods [(''namespace'', JStr n)])
      = Inr \<lparr>np_Namespace = n\<rparr>"
    by (simp add: decodeParams_def example_command_def namespace_params_def unmarshal_value_def
        field_decoder_def on_field_def zero_np_def first_error_def)
  have v: "ValidateCommand (example_command ActionListPods [(''namespace'', JStr n)]) = None"
    by (simp add: ValidateCommand_None_iff example_command_def IsAllowedAction_def allowedActions_def action_defs)
  show ?thesis
    unfolding planned_calls_def plan_list_def d
    by (simp add: v Let_def fan_out_def assms) (simp add: example_command_def action_defs)
qed

lemma example_list_pods:
  "planned_calls (NewNamespaceGuard [''shop''] None) example_limits
     (example_command ActionListPods [(''namespace'', JStr ''shop'')]) = [CallListPods ''shop'']"
  by (rule list_pods_planned) (simp_all add: guard_simps defaultDeniedNamespaces_def)

lemma list_pods_called:
  assumes "n \<noteq> []" and "Check g n = None"
  shows "CallListPods n \<in> set (snd (fst (Handle (scheduled_group []) ae (NewRouter (logged k) g l) ctx
     (example_command ActionListPods [(''namespace'', JStr n)]) (w, []))))"
  using calls_ofD [OF calls_of_Handle [OF scheduled.errgroup_axioms], of "[]" ae k g l ctx
      "example_command ActionListPods [(''namespace'', JStr n)]" "(w, [])"]
  by (metis add_0 list_pods_planned [OF assms] list.set_intros(1) mset.simps(1) set_mset_mset snd_conv)

text \<open>
  C15: whatever the error group schedules and the cluster answers, handling a command makes
  exactly the calls that the specification plans from the guard, the limits and the command: none for an
  invalid, undecodable or denied one, one for a named resource, one per namespace of the inventory for a list over all.
\<close>

theorem handle_makes_planned_calls:
  assumes "errgroup wgroup"
  shows "mset (snd (fst (Handle wgroup ae (NewRouter (logged k) g l) ctx cmd (w, [])))) =
    mset (planned_calls g l cmd)"
  using calls_ofD [OF calls_of_Handle [OF assms], of ae k g l ctx cmd "(w, [])"] by simp

theorem handle_makes_planned_calls_witness:
  "mset (snd (fst (Handle (scheduled_group [1, 0]) example_errors
     (NewRouter (logged (kube_service example_api insertion_sort)) (NewNamespaceGuard [''shop''] None) example_limits)
     None (example_command ActionListPods [(''namespace'', JStr ''shop'')]) ((NewService, 0), [])))) =
   {#CallListPods ''shop''#}"
  unfolding handle_makes_planned_calls [OF scheduled.errgroup_axioms] example_list_pods by simp

text \<open>
  C2: the namespace boundary holds. Every call of the Kubernetes service that a command causes
  either is the cluster-wide namespace list of the discovery action, or goes to a namespace that the guard
  permits, and this is the one the command names, or one of the inventory when it names none.
\<close>

theorem handle_confined:
  assumes "errgroup wgroup"
    and "c \<in> set (snd (fst (Handle wgroup ae (NewRouter (logged k) (NewNamespaceGuard a d) l) ctx cmd (w, []))))"
  shows "call_confined (NewNamespaceGuard a d) cmd c"
  using planned_calls_confined [OF Handle_call_planned [OF assms]] .

lemma example_call_made:
  "CallListPods ''shop'' \<in> set (snd (fst (Handle (scheduled_group []) ae
     (NewRouter (logged (kube_service example_api insertion_sort)) (NewNamespaceGuard [''shop''] None) example_limits)
     None (example_command ActionListPods [(''namespace'', JStr ''shop'')]) (w, []))))"
  by (rule list_pods_called) (simp_all add: guard_simps defaultDeniedNamespaces_def)

theorem handle_confined_witness:
  "call_confined (NewNamespaceGuard [''shop''] None)
     (example_command ActionListPods [(''namespace'', JStr ''shop'')]) (CallListPods ''shop'')"
  using handle_confined [OF scheduled.errgroup_axioms example_call_made] .



end
