(* ===== verification/Responses.thy ===== *)
theory Responses
  imports Confinement
begin

text \<open>
  What the router answers: every response is well formed and carries the id of its command, the
  error codes and when each is used, the joined results of a fan-out, and the bounds on pod
  logs. The last part is about the router on the real service of \<open>internal/kube\<close>
  (\<open>kube_service\<close>).
\<close>

section \<open>Shape of responses\<close>

lemma Handle_wf_response:
  assumes "Handle wgroup ae r ctx cmd w = (w', Inr resp)"
  shows "wf_response resp \<and> resp_ID resp = cmd_ID cmd"
  using assms by (auto simp: Handle_def Let_def split: option.splits prod.splits sum.splits)

definition response_codes :: "string list" where
  "response_codes = [ErrInvalidCommand, ErrUnsupportedAction, ErrInvalidParams, ErrNamespaceDenied,
     ErrRBACDenied, ErrNotFound, ErrTimeout, ErrInternal]"

text \<open>An error without a code of the router: what every call of the Kubernetes service returns.\<close>

definition uncoded_lister :: "(go_ctx \<Rightarrow> string \<Rightarrow> ('w, 'a) api) \<Rightarrow> bool" where
  "uncoded_lister fn \<longleftrightarrow> (\<forall>ctx ns w w' e. fn ctx ns w = (w', Inl e) \<longrightarrow> as_coded e = None)"

definition uncoded_api :: "'w Kubernetes \<Rightarrow> bool" where
  "uncoded_api k \<longleftrightarrow>
     (\<forall>ctx w w' e. ListNamespaces k ctx w = (w', Inl e) \<longrightarrow> as_coded e = None) \<and>
     uncoded_lister (ListPods k) \<and>
     (\<forall>ctx n p w w' e. GetPod k ctx n p w = (w', Inl e) \<longrightarrow> as_coded e = None) \<and>
     (\<forall>ctx n p c t m w w' e. GetPodLogs k ctx n p c t m w = (w', Inr (Inl e)) \<longrightarrow> as_coded e = None) \<and>
     uncoded_lister (ListEvents k) \<and>
     uncoded_lister (ListDeployments k) \<and>
     uncoded_lister (ListServices k) \<and>
     (\<forall>ctx n d w w' e. GetRolloutStatus k ctx n d w = (w', Inl e) \<longrightarrow> as_coded e = None) \<and>
     (\<forall>ctx n p w w' e. DescribePod k ctx n p w = (w', Inl e) \<longrightarrow> as_coded e = None)"

lemma classifyError_invalidParams [simp]:
  "classifyError ae (invalidParams e) = (ErrInvalidParams, error_text e)"
  by (simp add: classifyError_def invalidParams_def)

lemma classifyError_namespaceDenied [simp]:
  "classifyError ae (namespaceDenied e) = (ErrNamespaceDenied, error_text e)"
  by (simp add: classifyError_def namespaceDenied_def)

lemma classifyError_uncoded:
  "as_coded e = None \<Longrightarrow> fst (classifyError ae e) \<in> {ErrTimeout, ErrNotFound, ErrRBACDenied, ErrInternal}"
  by (simp add: classifyError_def)

lemma classifyError_deadline:
  "as_coded e = None \<Longrightarrow> errors_is e DeadlineExceeded \<Longrightarrow>
    classifyError ae e = (ErrTimeout, ''command timed out'')"
  by (simp add: classifyError_def)

text \<open>Which error a branch can end with: one of its own, or one of a call.\<close>

definition coded_or_call :: "go_error \<Rightarrow> bool" where
  "coded_or_call e \<longleftrightarrow> (\<exists>x. e = invalidParams x \<or> e = namespaceDenied x) \<or> as_coded e = None"

lemma refuse_eq [simp]: "refuse e w = (w', r) \<longleftrightarrow> w' = w \<and> r = Inr (Inl e)"
  by (auto simp: refuse_def)

lemma answer_Inl: "answer p m w = (w', Inr (Inl e)) \<longleftrightarrow> m w = (w', Inl e)"
  by (auto simp: answer_def split: prod.splits sum.splits)

lemma answer_Inr: "answer p m w = (w', Inr (Inr x)) \<longleftrightarrow> (\<exists>y. m w = (w', Inr y) \<and> x = p y)"
  by (auto simp: answer_def split: prod.splits sum.splits)

lemma answer_no_panic [simp]: "answer p m w \<noteq> (w', Inl x)"
  by (auto simp: answer_def split: prod.splits sum.splits)

lemma as_items_Inl: "as_items item fn ctx ns w = (w', Inl e) \<longleftrightarrow> fn ctx ns w = (w', Inl e)"
  by (auto simp: as_items_def split: prod.splits sum.splits)

lemma as_items_Inr:
  "as_items item fn ctx ns w = (w', Inr s) \<longleftrightarrow> (\<exists>x. fn ctx ns w = (w', Inr x) \<and> s = map_option (map item) x)"
  by (auto simp: as_items_def split: prod.splits sum.splits)

text \<open>An error of the fan-out is the error of one of its calls.\<close>

lemma fan_out_error:
  assumes "errgroup wgroup" and "parallelMapTraced wgroup ctx nss fn w = (w', Inl e)"
  shows "\<exists>ns\<in>set nss. \<exists>w1 w2. fn ctx ns w1 = (w2, Inl e)"
  using fan_out_group.fan_out_failed [OF fan_out_group.intro [OF assms(1)] assms(2)] .

lemma list_branch_error:
  assumes "errgroup wgroup" and "uncoded_lister fn"
  shows "answer (ItemsData key) (parallelMapTraced wgroup ctx nss (as_items item fn)) w = (w', Inr (Inl e)) \<Longrightarrow>
      as_coded e = None"
    and "answer (ItemsData key) (as_items item fn ctx ns) w = (w', Inr (Inl e)) \<Longrightarrow> as_coded e = None"
proof -
  assume "answer (ItemsData key) (parallelMapTraced wgroup ctx nss (as_items item fn)) w = (w', Inr (Inl e))"
  then have "parallelMapTraced wgroup ctx nss (as_items item fn) w = (w', Inl e)" by (simp add: answer_Inl)
  from fan_out_error [OF assms(1) this] obtain ns w1 w2 where "as_items item fn ctx ns w1 = (w2, Inl e)"
    by blast
  then show "as_coded e = None" using assms(2) unfolding uncoded_lister_def as_items_Inl by blast
next
  assume "answer (ItemsData key) (as_items item fn ctx ns) w = (w', Inr (Inl e))"
  then show "as_coded e = None" using assms(2) unfolding uncoded_lister_def answer_Inl as_items_Inl by blast
qed

lemma uncoded_apiD:
  assumes "uncoded_api k"
  shows "ListNamespaces k ctx w = (w', Inl e) \<Longrightarrow> as_coded e = None"
    and "uncoded_lister (ListPods k)"
    and "GetPod k ctx n p w = (w', Inl e) \<Longrightarrow> as_coded e = None"
    and "GetPodLogs k ctx n p c t m w = (w', Inr (Inl e)) \<Longrightarrow> as_coded e = None"
    and "uncoded_lister (ListEvents k)"
    and "uncoded_lister (ListDeployments k)"
    and "uncoded_lister (ListServices k)"
    and "GetRolloutStatus k ctx n d w = (w', Inl e) \<Longrightarrow> as_coded e = None"
    and "DescribePod k ctx n p w = (w', Inl e) \<Longrightarrow> as_coded e = None"
  using assms unfolding uncoded_api_def by metis+

lemma dispatch_error:
  assumes "errgroup wgroup" and "uncoded_api (router_kube r)"
    and "dispatch wgroup r ctx cmd w = (w', Inr (Inl e))"
  shows "coded_or_call e"
proof -
  note P = uncoded_apiD [OF assms(2)]
  note lists =
    list_branch_error [OF assms(1) P(2)]
    list_branch_error [OF assms(1) P(5)]
    list_branch_error [OF assms(1) P(6)]
    list_branch_error [OF assms(1) P(7)]
  have L: "do_list_pods wgroup r ctx cmd w = (w', Inr (Inl e)) \<Longrightarrow> ?thesis"
    "do_list_events wgroup r ctx cmd w = (w', Inr (Inl e)) \<Longrightarrow> ?thesis"
    "do_list_deployments wgroup r ctx cmd w = (w', Inr (Inl e)) \<Longrightarrow> ?thesis"
    "do_list_services wgroup r ctx cmd w = (w', Inr (Inl e)) \<Longrightarrow> ?thesis"
    unfolding do_list_pods_def do_list_events_def do_list_deployments_def do_list_services_def Let_def
    by (auto simp: coded_or_call_def split: sum.splits option.splits if_splits dest: lists)
  have N: "do_get_pod r ctx cmd w = (w', Inr (Inl e)) \<Longrightarrow> ?thesis"
    "do_describe_pod r ctx cmd w = (w', Inr (Inl e)) \<Longrightarrow> ?thesis"
    "do_get_rollout_status r ctx cmd w = (w', Inr (Inl e)) \<Longrightarrow> ?thesis"
    "do_get_pod_logs r ctx cmd w = (w', Inr (Inl e)) \<Longrightarrow> ?thesis"
    "do_discover_namespaces r ctx w = (w', Inr (Inl e)) \<Longrightarrow> ?thesis"
    unfolding do_get_pod_def do_describe_pod_def do_get_rollout_status_def do_get_pod_logs_def
      do_discover_namespaces_def Let_def
    by (auto simp: coded_or_call_def answer_Inl dest: P(1,3,4,8,9) split: sum.splits option.splits if_splits prod.splits)
  from assms(3) show ?thesis unfolding dispatch_def Let_def
    by (auto split: if_splits intro: L N simp: do_list_namespaces_def) (simp add: coded_or_call_def)
qed


section \<open>Joined results\<close>

definition list_outcome :: "'w Kubernetes \<Rightarrow> go_ctx \<Rightarrow> string \<Rightarrow> string \<Rightarrow> kube_item slice \<Rightarrow> bool" where
  "list_outcome k ctx action ns s \<longleftrightarrow>
     (\<exists>w1 w2. action = ActionListPods \<and> as_items PodItem (ListPods k) ctx ns w1 = (w2, Inr s) \<or>
       action = ActionListEvents \<and> as_items EventItem (ListEvents k) ctx ns w1 = (w2, Inr s) \<or>
       action = ActionListDeployments \<and> as_items DeploymentItem (ListDeployments k) ctx ns w1 = (w2, Inr s) \<or>
       action = ActionListServices \<and> as_items ServiceItem (ListServices k) ctx ns w1 = (w2, Inr s))"

definition list_actions :: "string list" where
  "list_actions = [ActionListPods, ActionListEvents, ActionListDeployments, ActionListServices]"

lemma list_branch_joined:
  assumes "errgroup wgroup"
    and "answer (ItemsData key) (parallelMapTraced wgroup ctx nss lister) w = (w', Inr (Inr data))"
  shows "\<exists>parts. length parts = length nss \<and> data = ItemsData key (appended (concat parts)) \<and>
    (\<forall>i<length nss. \<exists>w1 w2 s. lister ctx (nss ! i) w1 = (w2, Inr s) \<and> parts ! i = slice_items s)"
proof -
  from assms(2) obtain r where r: "parallelMapTraced wgroup ctx nss lister w = (w', Inr r)" "data = ItemsData key r"
    by (auto simp: answer_Inr)
  with fan_out_group.fan_out_joined [OF fan_out_group.intro [OF assms(1)] r(1)] show ?thesis by blast
qed

lemma dispatch_all_namespaces:
  assumes "errgroup wgroup" and "cmd_Action cmd \<in> set list_actions"
    and "decodeParams namespace_params zero_np cmd = Inr p" and "np_Namespace p = []"
    and "dispatch wgroup (NewRouter k g l) ctx cmd w = (w', Inr (Inr data))"
  shows "\<exists>key parts. length parts = length (AllowedNamespaces g) \<and>
    data = ItemsData key (appended (concat parts)) \<and>
    (\<forall>i<length (AllowedNamespaces g). \<exists>s. list_outcome k ctx (cmd_Action cmd) (AllowedNamespaces g ! i) s \<and>
       parts ! i = slice_items s)"
proof -
  let ?nss = "AllowedNamespaces g"
  have J: "\<exists>key parts. length parts = length ?nss \<and> data = ItemsData key (appended (concat parts)) \<and>
      (\<forall>i<length ?nss. \<exists>s. list_outcome k ctx action (?nss ! i) s \<and> parts ! i = slice_items s)"
    if "answer (ItemsData key) (parallelMapTraced wgroup ctx ?nss lister) w = (w', Inr (Inr data))"
      and out: "\<And>ns w1 w2 s. lister ctx ns w1 = (w2, Inr s) \<Longrightarrow> list_outcome k ctx action ns s"
    for key lister action
    using list_branch_joined [OF assms(1) that(1)] out by (metis (no_types, lifting))
  note branch = do_list_pods_def do_list_events_def do_list_deployments_def do_list_services_def
  from assms(2) consider "cmd_Action cmd = ActionListPods" | "cmd_Action cmd = ActionListEvents"
    | "cmd_Action cmd = ActionListDeployments" | "cmd_Action cmd = ActionListServices"
    by (auto simp: list_actions_def)
  then show ?thesis
  proof cases
    case 1
    with assms(3-5) show ?thesis
      by (intro J [where lister = "as_items PodItem (ListPods k)" and key = "''pods''"])
        (auto simp: list_outcome_def dispatch_def branch allowedNamespaces_def action_defs)
  next
    case 2
    with assms(3-5) show ?thesis
      by (intro J [where lister = "as_items EventItem (ListEvents k)" and key = "''events''"])
        (auto simp: list_outcome_def dispatch_def branch allowedNamespaces_def action_defs)
  next
    case 3
    with assms(3-5) show ?thesis
      by (intro J [where lister = "as_items DeploymentItem (ListDeployments k)" and key = "''deployments''"])
        (auto simp: list_outcome_def dispatch_def branch allowedNamespaces_def action_defs)
  next
    case 4
    with assms(3-5) show ?thesis
      by (intro J [where lister = "as_items ServiceItem (ListServices k)" and key = "''services''"])
        (auto simp: list_outcome_def dispatch_def branch allowedNamespaces_def action_defs)
  qed
qed

section \<open>Pod logs on the real service\<close>

lemma sint_succ_64: "(m :: int64) <s word_of_int int64_max \<Longrightarrow> sint (m + 1) = sint m + 1"
  using sint_range_64 [of m]
  by (simp add: i64_simps sint_word_of_int_64 int64_max_def wrap64_id)

text \<open>
  The reading of a log: all of a stream that fits the limit, the first \<open>maxBytes\<close> bytes of a longer
  one with the flag set. An error of the stream counts only when it comes before the limit.
\<close>

lemma Service_GetPodLogs_stream:
  assumes "0 <s m" and "m <s word_of_int int64_max"
    and "k8s_pod_logs api ctx ns pod c t w = (w', Inr (data, err))"
  shows "Service_GetPodLogs api ctx ns pod c t m w =
    (if sint m < int (length data)
     then (w', Inr (Inr \<lparr>log_Logs = take (nat (sint m)) data, log_Truncated = True\<rparr>))
     else case err of
       Some e \<Rightarrow> (w', Inr (Inl (wrapf ''read pod logs'' e)))
     | None \<Rightarrow> (w', Inr (Inr \<lparr>log_Logs = data, log_Truncated = False\<rparr>)))"
  using assms(1,3) sint_succ_64 [OF assms(2)]
  by (auto simp: Service_GetPodLogs_def copy_n_def Let_def i64_simps min_def split: option.split)

lemma Service_GetPodLogs_bound:
  assumes "0 <s m" and "Service_GetPodLogs api ctx ns pod c t m w = (w', Inr (Inr logs))"
  shows "int (length (log_Logs logs)) \<le> sint m"
  using assms
  by (auto simp: Service_GetPodLogs_def Let_def i64_simps split: prod.splits sum.splits option.splits if_splits)

lemma Service_GetPodLogs_no_panic:
  assumes "0 <s m"
  shows "Service_GetPodLogs api ctx ns pod c t m w \<noteq> (w', Inl p)"
  using assms
  by (auto simp: Service_GetPodLogs_def Let_def i64_simps split: prod.splits sum.splits option.splits if_splits)


lemma kube_service_GetPodLogs:
  "GetPodLogs (kube_service api sorter) ctx ns pod c t m sw =
     (let (w', x) = Service_GetPodLogs api ctx ns pod c t m (snd sw) in ((fst sw, w'), x))"
  by (simp add: kube_service_def with_cache_def)

lemma dispatch_panic:
  assumes "dispatch wgroup r ctx cmd w = (w', Inl p)"
  shows "\<exists>ns pod c t. GetPodLogs (router_kube r) ctx ns pod c t (MaxLogBytes (router_limits r)) w = (w', Inl p)"
  using assms
  unfolding dispatch_def Let_def do_list_pods_def do_list_events_def do_list_deployments_def
    do_list_services_def do_get_pod_def do_describe_pod_def do_get_rollout_status_def
    do_get_pod_logs_def do_discover_namespaces_def do_list_namespaces_def
  by (auto split: if_splits sum.splits option.splits prod.splits)

lemma Handle_no_panic:
  assumes "limits_ok l"
  shows "Handle wgroup ae (NewRouter (kube_service api sorter) g l) ctx cmd sw \<noteq> (sw', Inl p)"
proof
  assume "Handle wgroup ae (NewRouter (kube_service api sorter) g l) ctx cmd sw = (sw', Inl p)"
  then have "dispatch wgroup (NewRouter (kube_service api sorter) g l) ctx cmd sw = (sw', Inl p)"
    by (auto simp: Handle_def Let_def split: option.splits prod.splits sum.splits)
  from dispatch_panic [OF this] obtain ns pod c t
    where "GetPodLogs (kube_service api sorter) ctx ns pod c t (MaxLogBytes l) sw = (sw', Inl p)" by auto
  moreover have "0 <s MaxLogBytes l" using assms by (simp add: limits_ok_def)
  ultimately show False using Service_GetPodLogs_no_panic [of "MaxLogBytes l" api ctx ns pod c t "snd sw"]
    by (auto simp: kube_service_GetPodLogs split: prod.splits)
qed

lemma dispatch_logs:
  assumes "dispatch wgroup r ctx cmd w = (w', Inr (Inr (LogsData logs)))"
  shows "\<exists>ns pod c req. GetPodLogs (router_kube r) ctx ns pod c (TailLines (router_limits r) req)
    (MaxLogBytes (router_limits r)) w = (w', Inr (Inr logs))"
  using assms
  unfolding dispatch_def Let_def do_list_pods_def do_list_events_def do_list_deployments_def
    do_list_services_def do_get_pod_def do_describe_pod_def do_get_rollout_status_def
    do_get_pod_logs_def do_discover_namespaces_def do_list_namespaces_def
  by (auto split: if_splits sum.splits option.splits prod.splits simp: answer_Inr)

lemma Handle_logs_bound:
  assumes "limits_ok l"
    and "Handle wgroup ae (NewRouter (kube_service api sorter) g l) ctx cmd sw = (sw', Inr resp)"
    and "resp_Data resp = Some (LogsData logs)"
  shows "int (length (log_Logs logs)) \<le> sint (MaxLogBytes l)"
proof -
  from assms(2,3) have "dispatch wgroup (NewRouter (kube_service api sorter) g l) ctx cmd sw
      = (sw', Inr (Inr (LogsData logs)))"
    by (auto simp: Handle_def Let_def split: option.splits prod.splits sum.splits)
  from dispatch_logs [OF this] obtain ns pod c t
    where "GetPodLogs (kube_service api sorter) ctx ns pod c t (MaxLogBytes l) sw = (sw', Inr (Inr logs))" by auto
  moreover have "0 <s MaxLogBytes l" using assms(1) by (simp add: limits_ok_def)
  ultimately show ?thesis using Service_GetPodLogs_bound
    by (auto simp: kube_service_GetPodLogs split: prod.splits)
qed

text \<open>The list of namespaces is answered from the guard: no request leaves the agent.\<close>

lemma list_namespaces_is_local:
  "cmd_Action cmd = ActionListNamespaces \<Longrightarrow> fst (Handle wgroup ae r ctx cmd w) = w"
  by (simp add: Handle_def dispatch_def do_list_namespaces_def Let_def ActionListNamespaces_def ActionDiscoverNamespaces_def
      split: option.split)

section \<open>Properties\<close>

text \<open>
  Every answer of the router is a well-formed response with the id of its command: a success
  carries a payload and no error, an error carries its code and message and no payload.
\<close>

theorem handle_responds:
  assumes "Handle wgroup ae r ctx cmd w = (w', Inr resp)"
  shows "wf_response resp \<and> resp_ID resp = cmd_ID cmd"
  by (rule Handle_wf_response [OF assms])

theorem handle_responds_witness:
  "resp_ID (Failure ''c9'' ErrUnsupportedAction (''unsupported action '' @ go_quote ''x'') :: kube_data Response) = ''c9''"
proof -
  let ?cmd = "(example_command ''x'' [])\<lparr>cmd_ID := ''c9''\<rparr>"
  have "Handle (scheduled_group []) ae (NewRouter (kube_service example_api insertion_sort) g l) None ?cmd w =
      (w, Inr (Failure ''c9'' ErrUnsupportedAction (''unsupported action '' @ go_quote ''x'')))" for ae g l w
    by (simp add: Handle_def ValidateCommand_def example_command_def IsAllowedAction_def
        allowedActions_def action_defs)
  from handle_responds [OF this] show ?thesis by simp
qed


lemma kube_service_uncoded: "uncoded_api (kube_service example_api insertion_sort)"
  by (auto simp: uncoded_api_def uncoded_lister_def kube_service_def with_cache_def example_api_def
      Service_ListNamespaces_def fetchNamespaces_def Service_ListPods_def Service_GetPod_def
      Service_GetPodLogs_def Service_ListEvents_def Service_ListDeployments_def Service_ListServices_def
      Service_GetRolloutStatus_def Service_DescribePod_def copy_n_def Let_def split: prod.splits if_splits)


text \<open>
  C21: a list over all namespaces, when it succeeds, is the concatenation of one result per
  namespace of the inventory, in the order of the inventory, whatever order the concurrent calls ran in;
  each part is what a call for that namespace returned under the command's own context.
\<close>

theorem list_all_joins_in_order:
  assumes "errgroup wgroup" and "cmd_Action cmd \<in> set list_actions"
    and "decodeParams namespace_params zero_np cmd = Inr p" and "np_Namespace p = []"
    and "dispatch wgroup (NewRouter k g l) ctx cmd w = (w', Inr (Inr data))"
  shows "\<exists>key parts. length parts = length (AllowedNamespaces g) \<and>
    data = ItemsData key (appended (concat parts)) \<and>
    (\<forall>i<length (AllowedNamespaces g). \<exists>s. list_outcome k ctx (cmd_Action cmd) (AllowedNamespaces g ! i) s \<and>
       parts ! i = slice_items s)"
  by (rule dispatch_all_namespaces [OF assms])

text \<open>Two namespaces, the second of which answers first.\<close>

definition named_pod :: "string \<Rightarrow> kube_item" where
  "named_pod ns = PodItem (toPod zero_time (example_pod\<lparr>kpod_Namespace := ns\<rparr>))"

definition example_kube :: "(Service \<times> instant) Kubernetes" where
  "example_kube = (kube_service example_api insertion_sort)\<lparr>ListPods := (\<lambda>ctx ns w.
     ((fst w, snd w + 1), Inr (Some [toPod zero_time (example_pod\<lparr>kpod_Namespace := ns\<rparr>)])))\<rparr>"

lemma example_inventory: "AllowedNamespaces (NewNamespaceGuard [''shop'', ''api''] None) = [''api'', ''shop'']"
proof (rule sorted_distinct_set_unique)
  show "sorted [''api'', ''shop'']" by code_simp
  show "set (AllowedNamespaces (NewNamespaceGuard [''shop'', ''api''] None)) = set [''api'', ''shop'']"
    by (auto simp: guard_simps defaultDeniedNamespaces_def)
qed (simp_all add: AllowedNamespaces_sorted)

lemma example_list_all:
  "dispatch (scheduled_group [1, 1, 0]) (NewRouter example_kube (NewNamespaceGuard [''shop'', ''api''] None) example_limits)
     None (example_command ActionListPods []) w =
   ((fst w, snd w + 2), Inr (Inr (ItemsData ''pods'' (Some [named_pod ''api'', named_pod ''shop'']))))"
proof -
  have d: "decodeParams namespace_params zero_np (example_command ActionListPods []) = Inr zero_np"
    by (simp add: decodeParams_def example_command_def namespace_params_def unmarshal_value_def)
  have z: "np_Namespace zero_np = []" by (simp add: zero_np_def)
  have e: "parallelMapTraced (scheduled_group [1, 1, 0]) None [''api'', ''shop''] (as_items PodItem (ListPods example_kube)) w =
      ((fst w, snd w + 2), Inr (Some [named_pod ''api'', named_pod ''shop'']))"
    by (simp add: parallelMapTraced_def scheduled_group_def fan_out_tasks_def fan_out_task_def schedule_group.simps draw_def
        remove_nth_def as_items_def example_kube_def appended_def named_pod_def slice_items_def group_ctx_def
        numeral_2_eq_2 enumerate_eq_zip Let_def)
  show ?thesis unfolding dispatch_def do_list_pods_def d
    by (simp add: z example_inventory allowedNamespaces_def e [unfolded One_nat_def] answer_def Let_def)
      (simp add: example_command_def action_defs)
qed

theorem list_all_joins_in_order_witness:
  "\<exists>key parts. length parts = 2 \<and>
     ItemsData ''pods'' (Some [named_pod ''api'', named_pod ''shop'']) = ItemsData key (appended (concat parts))"
proof -
  have d: "decodeParams namespace_params zero_np (example_command ActionListPods []) = Inr zero_np"
    by (simp add: decodeParams_def example_command_def namespace_params_def unmarshal_value_def)
  have z: "np_Namespace zero_np = []" by (simp add: zero_np_def)
  from list_all_joins_in_order [OF scheduled.errgroup_axioms _ d z example_list_all] show ?thesis
    by (force simp: example_inventory list_actions_def example_command_def)
qed

text \<open>
  C35: reading a log. A stream longer than the limit gives its first \<open>maxBytes\<close> bytes and the flag;
  a shorter one is returned whole, unless it ended in an error, which is reported. This is for limits below the
  largest 64-bit number, where the code's \<open>maxBytes + 1\<close> does not wrap.
\<close>

theorem pod_logs_limited:
  assumes "0 <s m" and "m <s word_of_int int64_max"
    and "k8s_pod_logs api ctx ns pod c t w = (w', Inr (data, err))"
  shows "Service_GetPodLogs api ctx ns pod c t m w =
    (if sint m < int (length data)
     then (w', Inr (Inr \<lparr>log_Logs = take (nat (sint m)) data, log_Truncated = True\<rparr>))
     else case err of
       Some e \<Rightarrow> (w', Inr (Inl (wrapf ''read pod logs'' e)))
     | None \<Rightarrow> (w', Inr (Inr \<lparr>log_Logs = data, log_Truncated = False\<rparr>)))"
  by (rule Service_GetPodLogs_stream [OF assms])

theorem pod_logs_limited_witness:
  "Service_GetPodLogs example_api None ''shop'' ''web'' [] 10 4 0 =
    (0, Inr (Inr \<lparr>log_Logs = ''abcd'', log_Truncated = True\<rparr>))"
  using pod_logs_limited [of 4 example_api None "''shop''" "''web''" "[]" 10 0 0 "''abcdef''" None]
  by (simp add: example_api_def word_sless_alt sint_word_of_int_64 int64_max_def wrap64_id)

text \<open>
  C36: the largest limit that the configuration accepts is a bug: \<open>maxBytes + 1\<close> wraps to a negative
  number, nothing is read, and every log comes back empty and not marked as truncated.
\<close>

theorem pod_logs_wrap:
  assumes "k8s_pod_logs api ctx ns pod c t w = (w', Inr (data, err))"
  shows "Service_GetPodLogs api ctx ns pod c t (word_of_int int64_max) w =
    (w', Inr (Inr \<lparr>log_Logs = [], log_Truncated = False\<rparr>))"
  using assms by (simp add: Service_GetPodLogs_def copy_n_def Let_def i64_simps sint_word_of_int_64
      int64_max_def wrap64_def)

theorem pod_logs_wrap_witness:
  "Service_GetPodLogs example_api None ''shop'' ''web'' [] 10 (word_of_int int64_max) 0 =
    (0, Inr (Inr \<lparr>log_Logs = [], log_Truncated = False\<rparr>))"
  by (rule pod_logs_wrap) (simp add: example_api_def)



end
