(* ===== verification/Connection.thy ===== *)
theory Connection
  imports Replay Responses
begin

text \<open>
  One gateway connection (\<open>serveConnection\<close>, \<open>heartbeat\<close>, \<open>readLoop\<close>, \<open>handleCommand\<close>,
  \<open>writeResponse\<close> and \<open>reportConnectionError\<close> of \<open>internal/gateway/client.go\<close>) as a step relation.

  The goroutines of a connection are the main one, the heartbeat, the read loop and one worker per
  command in flight. Each has a program point, and a step moves one of them by one blocking or
  visible operation: a channel operation, taking the write mutex, one use of the socket. A
  \<open>select\<close> with several ready cases takes any of them. The socket is the inbox of frames that have
  arrived, the messages written, and whether it was closed; a write may fail at any time, and only
  fails once the socket is closed, while a read may then still return frames that had arrived.

  The command handler is an argument: a relation between a command and the responses it may get.
  The locale \<open>command_handler\<close> is what the client relies on, and is interpreted on the router.
  The fields \<open>c_read\<close>, \<open>c_claims\<close> and \<open>c_taken\<close> are history: the frames read so far, every call of
  \<open>claimCommand\<close> with its time, and every command handed to a worker with the time of its claim.
\<close>

section \<open>State\<close>

type_synonym response = "kube_data Response"

datatype main_pc =
    MainSelect
  | MainCancel go_error
  | MainFrame go_error
  | MainClose go_error
  | MainWaitLoops go_error
  | MainWaitCommands go_error
  | MainReturned go_error

datatype hb_pc = HbWait | HbLock | HbWrite | HbReport go_error | HbDone

datatype rd_pc =
    RdRead
  | RdAcquire Command
  | RdLock response
  | RdWrite response
  | RdReport go_error
  | RdDone

datatype wk_pc = WkHandle | WkLock response | WkWrite response | WkRelease | WkDone

datatype message = SentResponse response | SentPing | SentHeartbeat | SentClose

record conn =
  c_main :: main_pc
  c_hb :: hb_pc
  c_rd :: rd_pc
  c_workers :: "(Command \<times> wk_pc) list"
  c_sem :: nat
  c_errs :: "go_error list"
  c_lock :: bool
  c_cancelled :: bool
  c_parent :: go_ctx
  c_closed :: bool
  c_inbox :: "string list"
  c_read :: "string list"
  c_sent :: "message list"
  c_beats :: nat
  c_seen :: seen_commands
  c_clock :: instant
  c_claims :: "(instant \<times> string) list"
  c_taken :: "(instant \<times> Command) list"

definition start_conn :: "go_ctx \<Rightarrow> seen_commands \<Rightarrow> instant \<Rightarrow> conn" where
  "start_conn parent seen now =
     \<lparr>c_main = MainSelect, c_hb = HbWait, c_rd = RdRead, c_workers = [], c_sem = 0, c_errs = [],
      c_lock = False, c_cancelled = False, c_parent = parent, c_closed = False, c_inbox = [], c_read = [],
      c_sent = [], c_beats = 0, c_seen = seen, c_clock = now, c_claims = [], c_taken = []\<rparr>"

text \<open>The context of the connection is done when it or its parent was cancelled.\<close>

definition conn_done :: "conn \<Rightarrow> bool" where
  "conn_done s \<longleftrightarrow> c_cancelled s \<or> c_parent s \<noteq> None"

definition err_capacity :: nat where
  "err_capacity = 2"

section \<open>Pieces of the goroutines\<close>

text \<open>
  \<open>reportConnectionError\<close>: the ready cases of its \<open>select\<close>, and the default only when none is. The
  result is the buffer afterwards.
\<close>

inductive reportConnectionError :: "conn \<Rightarrow> go_error \<Rightarrow> go_error list \<Rightarrow> bool" where
  report_send: "length (c_errs s) < err_capacity \<Longrightarrow> reportConnectionError s e (c_errs s @ [e])"
| report_done: "conn_done s \<Longrightarrow> reportConnectionError s e (c_errs s)"
| report_default: "\<not> length (c_errs s) < err_capacity \<Longrightarrow> \<not> conn_done s \<Longrightarrow>
    reportConnectionError s e (c_errs s)"

text \<open>
  The read loop on one message, up to its next blocking operation: it discards what does not
  decode, answers what the policy denies, claims the rest, and answers what was already claimed.
\<close>

definition on_message :: "instant \<Rightarrow> string \<Rightarrow> conn \<Rightarrow> conn" where
  "on_message now data s =
     (case DecodeCommand data of
        Inl e \<Rightarrow> s
      | Inr cmd \<Rightarrow>
          (case policyAllowsCommand cmd of
             Some e \<Rightarrow> s\<lparr>c_rd := RdLock (Failure (cmd_ID cmd) ErrPolicyDenied (error_text e))\<rparr>
           | None \<Rightarrow>
               (case claimCommand now (c_seen s) (cmd_ID cmd) of
                  (ok, seen) \<Rightarrow>
                    s\<lparr>c_seen := seen, c_clock := now, c_claims := c_claims s @ [(now, cmd_ID cmd)],
                      c_rd := if ok then RdAcquire cmd
                        else RdLock (Failure (cmd_ID cmd) ErrDuplicateCommand
                               ''command id was already processed'')\<rparr>)))"

text \<open>A full memory refuses an id it does not hold, and the answer calls it a duplicate.\<close>

lemma full_memory_misreports:
  assumes "DecodeCommand data = Inr cmd" and "policyAllowsCommand cmd = None"
    and "Mapping.lookup (c_seen s) (cmd_ID cmd) = None" and "maxRememberedCommands \<le> Mapping.size (purge_expired now (c_seen s))"
  shows "c_rd (on_message now data s) =
    RdLock (Failure (cmd_ID cmd) ErrDuplicateCommand ''command id was already processed'')"
  using assms by (simp add: on_message_def claimCommand_def Let_def lookup_purge_expired)

section \<open>Steps\<close>

inductive conn_step :: "(Command \<Rightarrow> response \<Rightarrow> bool) \<Rightarrow> nat \<Rightarrow> conn \<Rightarrow> conn \<Rightarrow> bool"
  for handles :: "Command \<Rightarrow> response \<Rightarrow> bool" and limit :: nat where
\<comment> \<open>The environment: frames arrive, and the parent context is cancelled or times out.\<close>
  arrive: "\<not> c_closed s \<Longrightarrow> conn_step handles limit s (s\<lparr>c_inbox := c_inbox s @ [data]\<rparr>)"
| parent_done: "c_parent s = None \<Longrightarrow> conn_step handles limit s (s\<lparr>c_parent := Some x\<rparr>)"
\<comment> \<open>The main goroutine.\<close>
| main_ctx: "c_main s = MainSelect \<Longrightarrow> c_parent s = Some x \<Longrightarrow>
    conn_step handles limit s (s\<lparr>c_main := MainCancel (Sentinel x)\<rparr>)"
| main_err: "c_main s = MainSelect \<Longrightarrow> c_errs s = e # es \<Longrightarrow>
    conn_step handles limit s (s\<lparr>c_main := MainCancel e, c_errs := es\<rparr>)"
| main_cancel: "c_main s = MainCancel e \<Longrightarrow>
    conn_step handles limit s (s\<lparr>c_main := MainFrame e, c_cancelled := True\<rparr>)"
| main_frame_ok: "c_main s = MainFrame e \<Longrightarrow>
    conn_step handles limit s (s\<lparr>c_main := MainClose e, c_sent := c_sent s @ [SentClose]\<rparr>)"
| main_frame_err: "c_main s = MainFrame e \<Longrightarrow>
    conn_step handles limit s (s\<lparr>c_main := MainClose e\<rparr>)"
| main_close: "c_main s = MainClose e \<Longrightarrow>
    conn_step handles limit s (s\<lparr>c_main := MainWaitLoops e, c_closed := True\<rparr>)"
| main_loops: "c_main s = MainWaitLoops e \<Longrightarrow> c_hb s = HbDone \<Longrightarrow> c_rd s = RdDone \<Longrightarrow>
    conn_step handles limit s (s\<lparr>c_main := MainWaitCommands e\<rparr>)"
| main_commands: "c_main s = MainWaitCommands e \<Longrightarrow> c_workers s = [] \<Longrightarrow>
    conn_step handles limit s (s\<lparr>c_main := MainReturned e\<rparr>)"
\<comment> \<open>The heartbeat.\<close>
| hb_done: "c_hb s = HbWait \<Longrightarrow> conn_done s \<Longrightarrow> conn_step handles limit s (s\<lparr>c_hb := HbDone\<rparr>)"
| hb_tick: "c_hb s = HbWait \<Longrightarrow> conn_step handles limit s (s\<lparr>c_hb := HbLock\<rparr>)"
| hb_lock: "c_hb s = HbLock \<Longrightarrow> \<not> c_lock s \<Longrightarrow>
    conn_step handles limit s (s\<lparr>c_hb := HbWrite, c_lock := True\<rparr>)"
| hb_ok: "c_hb s = HbWrite \<Longrightarrow> \<not> c_closed s \<Longrightarrow>
    conn_step handles limit s (s\<lparr>c_hb := HbWait, c_lock := False,
      c_sent := c_sent s @ [SentPing, SentHeartbeat], c_beats := Suc (c_beats s)\<rparr>)"
| hb_ping_err: "c_hb s = HbWrite \<Longrightarrow>
    conn_step handles limit s (s\<lparr>c_hb := HbReport e, c_lock := False\<rparr>)"
| hb_message_err: "c_hb s = HbWrite \<Longrightarrow> \<not> c_closed s \<Longrightarrow>
    conn_step handles limit s (s\<lparr>c_hb := HbReport e, c_lock := False, c_sent := c_sent s @ [SentPing]\<rparr>)"
| hb_report: "c_hb s = HbReport e \<Longrightarrow> reportConnectionError s e es \<Longrightarrow>
    conn_step handles limit s (s\<lparr>c_hb := HbDone, c_errs := es\<rparr>)"
\<comment> \<open>The read loop.\<close>
| rd_err: "c_rd s = RdRead \<Longrightarrow> conn_step handles limit s (s\<lparr>c_rd := RdReport e\<rparr>)"
| rd_message: "c_rd s = RdRead \<Longrightarrow> c_inbox s = data # rest \<Longrightarrow> c_clock s \<le> now \<Longrightarrow>
    conn_step handles limit s 
      (on_message now data (s\<lparr>c_inbox := rest, c_read := c_read s @ [data]\<rparr>))"
| rd_lock: "c_rd s = RdLock r \<Longrightarrow> \<not> c_lock s \<Longrightarrow>
    conn_step handles limit s (s\<lparr>c_rd := RdWrite r, c_lock := True\<rparr>)"
| rd_write_ok: "c_rd s = RdWrite r \<Longrightarrow> \<not> c_closed s \<Longrightarrow>
    conn_step handles limit s (s\<lparr>c_rd := RdRead, c_lock := False, c_sent := c_sent s @ [SentResponse r]\<rparr>)"
| rd_write_err: "c_rd s = RdWrite r \<Longrightarrow>
    conn_step handles limit s (s\<lparr>c_rd := RdRead, c_lock := False\<rparr>)"
| rd_spawn: "c_rd s = RdAcquire cmd \<Longrightarrow> c_sem s < limit \<Longrightarrow>
    conn_step handles limit s (s\<lparr>c_rd := RdRead, c_sem := Suc (c_sem s),
      c_workers := c_workers s @ [(cmd, WkHandle)], c_taken := c_taken s @ [(c_clock s, cmd)]\<rparr>)"
| rd_stop: "c_rd s = RdAcquire cmd \<Longrightarrow> conn_done s \<Longrightarrow>
    conn_step handles limit s (s\<lparr>c_rd := RdDone\<rparr>)"
| rd_report: "c_rd s = RdReport e \<Longrightarrow> reportConnectionError s e es \<Longrightarrow>
    conn_step handles limit s (s\<lparr>c_rd := RdDone, c_errs := es\<rparr>)"
\<comment> \<open>A worker.\<close>
| wk_handle: "i < length (c_workers s) \<Longrightarrow> c_workers s ! i = (cmd, WkHandle) \<Longrightarrow> handles cmd r \<Longrightarrow>
    conn_step handles limit s (s\<lparr>c_workers := (c_workers s)[i := (cmd, WkLock r)]\<rparr>)"
| wk_lock: "i < length (c_workers s) \<Longrightarrow> c_workers s ! i = (cmd, WkLock r) \<Longrightarrow> \<not> c_lock s \<Longrightarrow>
    conn_step handles limit s (s\<lparr>c_workers := (c_workers s)[i := (cmd, WkWrite r)], c_lock := True\<rparr>)"
| wk_write_ok: "i < length (c_workers s) \<Longrightarrow> c_workers s ! i = (cmd, WkWrite r) \<Longrightarrow> \<not> c_closed s \<Longrightarrow>
    conn_step handles limit s (s\<lparr>c_workers := (c_workers s)[i := (cmd, WkRelease)], c_lock := False,
      c_sent := c_sent s @ [SentResponse r]\<rparr>)"
| wk_write_err: "i < length (c_workers s) \<Longrightarrow> c_workers s ! i = (cmd, WkWrite r) \<Longrightarrow>
    conn_step handles limit s (s\<lparr>c_workers := (c_workers s)[i := (cmd, WkRelease)], c_lock := False\<rparr>)"
| wk_release: "i < length (c_workers s) \<Longrightarrow> c_workers s ! i = (cmd, WkRelease) \<Longrightarrow>
    conn_step handles limit s (s\<lparr>c_workers := (c_workers s)[i := (cmd, WkDone)], c_sem := c_sem s - 1\<rparr>)"
| wk_done: "i < length (c_workers s) \<Longrightarrow> c_workers s ! i = (cmd, WkDone) \<Longrightarrow>
    conn_step handles limit s (s\<lparr>c_workers := remove_nth i (c_workers s)\<rparr>)"

inductive conn_reachable :: "(Command \<Rightarrow> response \<Rightarrow> bool) \<Rightarrow> nat \<Rightarrow> conn \<Rightarrow> conn \<Rightarrow> bool"
  for handles limit s0 where
  reach_start: "conn_reachable handles limit s0 s0"
| reach_step: "conn_reachable handles limit s0 s \<Longrightarrow> conn_step handles limit s s' \<Longrightarrow>
    conn_reachable handles limit s0 s'"


section \<open>Invariants of the goroutines\<close>

definition hb_writing :: "conn \<Rightarrow> bool" where
  "hb_writing s \<longleftrightarrow> c_hb s = HbWrite"

definition rd_writing :: "conn \<Rightarrow> bool" where
  "rd_writing s \<longleftrightarrow> (\<exists>r. c_rd s = RdWrite r)"

fun wk_writing :: "wk_pc \<Rightarrow> bool" where
  "wk_writing (WkWrite r) = True"
| "wk_writing _ = False"

definition writers :: "conn \<Rightarrow> nat" where
  "writers s = of_bool (hb_writing s) + of_bool (rd_writing s) +
     length (filter (\<lambda>w. wk_writing (snd w)) (c_workers s))"

definition in_flight :: "conn \<Rightarrow> nat" where
  "in_flight s = length (filter (\<lambda>w. snd w \<noteq> WkDone) (c_workers s))"

definition sem_ok :: "nat \<Rightarrow> conn \<Rightarrow> bool" where
  "sem_ok limit s \<longleftrightarrow> c_sem s = in_flight s \<and> c_sem s \<le> limit"

definition lock_ok :: "conn \<Rightarrow> bool" where
  "lock_ok s \<longleftrightarrow> writers s = of_bool (c_lock s)"

definition errs_ok :: "conn \<Rightarrow> bool" where
  "errs_ok s \<longleftrightarrow> length (c_errs s) + of_bool (c_hb s \<noteq> HbDone) + of_bool (c_rd s \<noteq> RdDone) \<le> err_capacity"

text \<open>How far the main goroutine is, and what it has done by then.\<close>

fun main_stage :: "main_pc \<Rightarrow> nat" where
  "main_stage MainSelect = 0"
| "main_stage (MainCancel e) = 1"
| "main_stage (MainFrame e) = 2"
| "main_stage (MainClose e) = 3"
| "main_stage (MainWaitLoops e) = 4"
| "main_stage (MainWaitCommands e) = 5"
| "main_stage (MainReturned e) = 6"

definition main_ok :: "conn \<Rightarrow> bool" where
  "main_ok s \<longleftrightarrow>
     (c_cancelled s \<longleftrightarrow> 2 \<le> main_stage (c_main s)) \<and>
     (c_closed s \<longleftrightarrow> 4 \<le> main_stage (c_main s)) \<and>
     (5 \<le> main_stage (c_main s) \<longrightarrow> c_hb s = HbDone \<and> c_rd s = RdDone) \<and>
     (main_stage (c_main s) = 6 \<longrightarrow> c_workers s = [])"

definition conn_ok :: "nat \<Rightarrow> conn \<Rightarrow> bool" where
  "conn_ok limit s \<longleftrightarrow> sem_ok limit s \<and> lock_ok s \<and> errs_ok s \<and> main_ok s"

subsection \<open>Workers are updated one at a time\<close>

lemma length_filter_update:
  "i < length xs \<Longrightarrow> length (filter P (xs[i := x])) + of_bool (P (xs ! i)) = length (filter P xs) + of_bool (P x)"
proof (induction xs arbitrary: i)
  case (Cons y ys)
  then show ?case by (cases i) auto
qed simp

lemma length_filter_remove:
  "i < length xs \<Longrightarrow> length (filter P (remove_nth i xs)) + of_bool (P (xs ! i)) = length (filter P xs)"
proof (induction xs arbitrary: i)
  case (Cons y ys)
  then show ?case by (cases i) (auto simp: remove_nth_def)
qed simp

lemma on_message_sel [simp]:
  "c_main (on_message now d s) = c_main s" "c_hb (on_message now d s) = c_hb s"
  "c_workers (on_message now d s) = c_workers s" "c_sem (on_message now d s) = c_sem s"
  "c_errs (on_message now d s) = c_errs s" "c_lock (on_message now d s) = c_lock s"
  "c_cancelled (on_message now d s) = c_cancelled s" "c_parent (on_message now d s) = c_parent s"
  "c_closed (on_message now d s) = c_closed s" "c_inbox (on_message now d s) = c_inbox s"
  "c_read (on_message now d s) = c_read s" "c_sent (on_message now d s) = c_sent s"
  "c_taken (on_message now d s) = c_taken s"
  by (simp_all add: on_message_def split: sum.split option.split prod.split)

lemma on_message_rd:
  "c_rd s = RdRead \<Longrightarrow> c_rd (on_message now d s) \<noteq> RdDone \<and> \<not> rd_writing (on_message now d s)"
  by (auto simp: on_message_def rd_writing_def split: sum.splits option.splits prod.splits)

lemma sem_ok_step: "conn_step handles limit s s' \<Longrightarrow> sem_ok limit s \<Longrightarrow> sem_ok limit s'"
proof (induction rule: conn_step.induct)
  case (wk_handle i s cmd r)
  then show ?case using length_filter_update [of i "c_workers s" "\<lambda>w. snd w \<noteq> WkDone" "(cmd, WkLock r)"]
    by (simp add: sem_ok_def in_flight_def)
next
  case (wk_lock i s cmd r)
  then show ?case using length_filter_update [of i "c_workers s" "\<lambda>w. snd w \<noteq> WkDone" "(cmd, WkWrite r)"]
    by (simp add: sem_ok_def in_flight_def)
next
  case (wk_write_ok i s cmd r)
  then show ?case using length_filter_update [of i "c_workers s" "\<lambda>w. snd w \<noteq> WkDone" "(cmd, WkRelease)"]
    by (simp add: sem_ok_def in_flight_def)
next
  case (wk_write_err i s cmd r)
  then show ?case using length_filter_update [of i "c_workers s" "\<lambda>w. snd w \<noteq> WkDone" "(cmd, WkRelease)"]
    by (simp add: sem_ok_def in_flight_def)
next
  case (wk_release i s cmd)
  then show ?case using length_filter_update [of i "c_workers s" "\<lambda>w. snd w \<noteq> WkDone" "(cmd, WkDone)"]
    by (auto simp: sem_ok_def in_flight_def)
next
  case (wk_done i s cmd)
  then show ?case using length_filter_remove [of i "c_workers s" "\<lambda>w. snd w \<noteq> WkDone"]
    by (simp add: sem_ok_def in_flight_def)
qed (simp_all add: sem_ok_def in_flight_def)

lemma lock_ok_step: "conn_step handles limit s s' \<Longrightarrow> lock_ok s \<Longrightarrow> lock_ok s'"
proof (induction rule: conn_step.induct)
  case (rd_message s data rest now)
  then show ?case
    using on_message_rd [of "s\<lparr>c_inbox := rest, c_read := c_read s @ [data]\<rparr>" now data]
    by (auto simp: lock_ok_def writers_def hb_writing_def rd_writing_def split: if_splits)
next
  case (wk_handle i s cmd r)
  then show ?case using length_filter_update [of i "c_workers s" "\<lambda>w. wk_writing (snd w)" "(cmd, WkLock r)"]
    by (simp add: lock_ok_def writers_def hb_writing_def rd_writing_def)
next
  case (wk_lock i s cmd r)
  then show ?case using length_filter_update [of i "c_workers s" "\<lambda>w. wk_writing (snd w)" "(cmd, WkWrite r)"]
    by (simp add: lock_ok_def writers_def hb_writing_def rd_writing_def)
next
  case (wk_write_ok i s cmd r)
  then show ?case using length_filter_update [of i "c_workers s" "\<lambda>w. wk_writing (snd w)" "(cmd, WkRelease)"]
    by (cases "c_lock s")
      (auto simp: lock_ok_def writers_def hb_writing_def rd_writing_def of_bool_def split: if_splits)
next
  case (wk_write_err i s cmd r)
  then show ?case using length_filter_update [of i "c_workers s" "\<lambda>w. wk_writing (snd w)" "(cmd, WkRelease)"]
    by (cases "c_lock s")
      (auto simp: lock_ok_def writers_def hb_writing_def rd_writing_def of_bool_def split: if_splits)
next
  case (wk_release i s cmd)
  then show ?case using length_filter_update [of i "c_workers s" "\<lambda>w. wk_writing (snd w)" "(cmd, WkDone)"]
    by (simp add: lock_ok_def writers_def hb_writing_def rd_writing_def)
next
  case (wk_done i s cmd)
  then show ?case using length_filter_remove [of i "c_workers s" "\<lambda>w. wk_writing (snd w)"]
    by (simp add: lock_ok_def writers_def hb_writing_def rd_writing_def)
qed (auto simp: lock_ok_def writers_def hb_writing_def rd_writing_def of_bool_def split: if_splits)

lemma errs_ok_step: "conn_step handles limit s s' \<Longrightarrow> errs_ok s \<Longrightarrow> errs_ok s'"
proof (induction rule: conn_step.induct)
  case (rd_message s data rest now)
  then show ?case
    using on_message_rd [of "s\<lparr>c_inbox := rest, c_read := c_read s @ [data]\<rparr>" now data]
    by (simp add: errs_ok_def)
qed (auto simp: errs_ok_def elim!: reportConnectionError.cases)

lemma main_ok_step: "conn_step handles limit s s' \<Longrightarrow> main_ok s \<Longrightarrow> main_ok s'"
  by (induction rule: conn_step.induct) (auto simp: main_ok_def)

lemma conn_ok_step: "conn_step handles limit s s' \<Longrightarrow> conn_ok limit s \<Longrightarrow> conn_ok limit s'"
  by (simp add: conn_ok_def sem_ok_step lock_ok_step errs_ok_step main_ok_step)

lemma conn_ok_start: "conn_ok limit (start_conn parent seen now)"
  by (simp add: conn_ok_def sem_ok_def in_flight_def lock_ok_def writers_def hb_writing_def
      rd_writing_def errs_ok_def err_capacity_def main_ok_def start_conn_def)

lemma conn_ok_reachable: "conn_reachable handles limit (start_conn parent seen now) s \<Longrightarrow> conn_ok limit s"
  by (induction rule: conn_reachable.induct) (auto intro: conn_ok_start conn_ok_step)

end
