(* ===== verification/Shutdown.thy ===== *)
theory Shutdown
  imports Connection
begin

text \<open>
  The end of a connection: an error of a loop always reaches the main goroutine, and once the
  socket is closed every run is finite and can only stop where \<open>serveConnection\<close> has returned,
  with both loops and all workers gone.
\<close>

section \<open>Errors reach the main goroutine\<close>

lemma report_delivers:
  assumes "errs_ok s" and "c_hb s = HbReport e \<or> c_rd s = RdReport e" and "\<not> conn_done s"
    and "reportConnectionError s e es"
  shows "es = c_errs s @ [e]"
proof -
  have "length (c_errs s) < err_capacity"
    using assms(1,2) by (auto simp: errs_ok_def err_capacity_def split: if_splits)
  with assms(3,4) show ?thesis by (auto elim: reportConnectionError.cases)
qed

section \<open>Every run ends after the socket is closed\<close>

fun hb_rank :: "hb_pc \<Rightarrow> nat" where
  "hb_rank HbWait = 4"
| "hb_rank HbLock = 3"
| "hb_rank HbWrite = 2"
| "hb_rank (HbReport e) = 1"
| "hb_rank HbDone = 0"

fun rd_rank :: "rd_pc \<Rightarrow> nat" where
  "rd_rank RdRead = 2"
| "rd_rank (RdAcquire cmd) = 9"
| "rd_rank (RdLock r) = 4"
| "rd_rank (RdWrite r) = 3"
| "rd_rank (RdReport e) = 1"
| "rd_rank RdDone = 0"

fun wk_rank :: "wk_pc \<Rightarrow> nat" where
  "wk_rank WkHandle = 5"
| "wk_rank (WkLock r) = 4"
| "wk_rank (WkWrite r) = 3"
| "wk_rank WkRelease = 2"
| "wk_rank WkDone = 1"

definition workers_rank :: "(Command \<times> wk_pc) list \<Rightarrow> nat" where
  "workers_rank ws = sum_list (map (\<lambda>w. wk_rank (snd w)) ws)"

definition shutdown_rank :: "conn \<Rightarrow> nat" where
  "shutdown_rank s = (6 - main_stage (c_main s)) + hb_rank (c_hb s) + rd_rank (c_rd s) +
     10 * length (c_inbox s) + workers_rank (c_workers s) + of_bool (c_parent s = None)"

lemma workers_rank_snoc [simp]: "workers_rank (ws @ [w]) = workers_rank ws + wk_rank (snd w)"
  by (simp add: workers_rank_def)

lemma workers_rank_update:
  "i < length ws \<Longrightarrow> workers_rank (ws[i := w]) + wk_rank (snd (ws ! i)) = workers_rank ws + wk_rank (snd w)"
proof (induction ws arbitrary: i)
  case (Cons x ws)
  then show ?case by (cases i) (fastforce simp: workers_rank_def)+
qed simp

lemma workers_rank_remove:
  "i < length ws \<Longrightarrow> workers_rank (remove_nth i ws) + wk_rank (snd (ws ! i)) = workers_rank ws"
proof (induction ws arbitrary: i)
  case (Cons x ws)
  then show ?case by (cases i) (fastforce simp: workers_rank_def remove_nth_def)+
qed simp

lemma on_message_rank: "c_rd s = RdRead \<Longrightarrow> rd_rank (c_rd (on_message now d s)) \<le> 9"
  by (auto simp: on_message_def split: sum.splits option.splits prod.splits)

lemma closed_stage: "main_ok s \<Longrightarrow> c_closed s \<Longrightarrow> 4 \<le> main_stage (c_main s)"
  by (simp add: main_ok_def)

lemma closed_rank_step:
  "conn_step handles limit s s' \<Longrightarrow> main_ok s \<Longrightarrow> c_closed s \<Longrightarrow>
    c_closed s' \<and> shutdown_rank s' < shutdown_rank s"
proof (induction rule: conn_step.induct)
  case (rd_message s data rest now)
  then show ?case
    using on_message_rank [of "s\<lparr>c_inbox := rest, c_read := c_read s @ [data]\<rparr>" now data]
    by (simp add: shutdown_rank_def)
next
  case (wk_handle i s cmd r)
  then show ?case using workers_rank_update [of i "c_workers s" "(cmd, WkLock r)"]
    by (simp add: shutdown_rank_def)
next
  case (wk_lock i s cmd r)
  then show ?case using workers_rank_update [of i "c_workers s" "(cmd, WkWrite r)"]
    by (simp add: shutdown_rank_def)
next
  case (wk_write_err i s cmd r)
  then show ?case using workers_rank_update [of i "c_workers s" "(cmd, WkRelease)"]
    by (simp add: shutdown_rank_def)
next
  case (wk_release i s cmd)
  then show ?case using workers_rank_update [of i "c_workers s" "(cmd, WkDone)"]
    by (simp add: shutdown_rank_def)
next
  case (wk_done i s cmd)
  then show ?case using workers_rank_remove [of i "c_workers s"]
    by (simp add: shutdown_rank_def)
qed (use closed_stage in \<open>force simp: shutdown_rank_def\<close>)+

section \<open>No run gets stuck\<close>

lemma worker_cases:
  assumes "w \<in> set ws"
  obtains i where "i < length ws" "ws ! i = w"
  using assms by (auto simp: in_set_conv_nth)

lemma lock_holder_steps:
  assumes "lock_ok s" and "c_lock s"
  shows "\<exists>s'. conn_step handles limit s s'"
proof -
  consider "hb_writing s" | "rd_writing s" | "filter (\<lambda>w. wk_writing (snd w)) (c_workers s) \<noteq> []"
    using assms by (fastforce simp: lock_ok_def writers_def)
  then show ?thesis
  proof cases
    case 1
    then show ?thesis unfolding hb_writing_def by - (rule exI, rule hb_ping_err; simp)
  next
    case 2
    then obtain r where "c_rd s = RdWrite r" by (auto simp: rd_writing_def)
    then show ?thesis by - (rule exI, rule rd_write_err; simp)
  next
    case 3
    then obtain cmd pc where "(cmd, pc) \<in> set (c_workers s)" "wk_writing pc"
      by (auto simp: filter_empty_conv)
    then obtain r where "(cmd, WkWrite r) \<in> set (c_workers s)" by (cases pc) auto
    then obtain i where "i < length (c_workers s)" "c_workers s ! i = (cmd, WkWrite r)"
      by (rule worker_cases)
    then show ?thesis by - (rule exI, rule wk_write_err, assumption, simp, simp?)
  qed
qed

lemma waiting_for_lock_steps:
  assumes "lock_ok s" and "\<not> c_lock s \<Longrightarrow> \<exists>s'. conn_step handles limit s s'"
  shows "\<exists>s'. conn_step handles limit s s'"
  using assms lock_holder_steps by blast

lemma heartbeat_steps:
  assumes "lock_ok s" and "conn_done s" and "c_hb s \<noteq> HbDone"
  shows "\<exists>s'. conn_step handles limit s s'"
proof (cases "c_hb s")
  case HbWait
  with assms(2) show ?thesis by - (rule exI, rule hb_done; simp)
next
  case HbLock
  then have "\<not> c_lock s \<Longrightarrow> \<exists>s'. conn_step handles limit s s'" by - (rule exI, rule hb_lock)
  then show ?thesis by (rule waiting_for_lock_steps [OF assms(1)])
next
  case HbWrite
  then show ?thesis by - (rule exI, rule hb_ping_err; simp)
next
  case (HbReport e)
  then show ?thesis by (intro exI, rule hb_report [OF _ report_done [OF assms(2)]])
qed (use assms(3) in simp)

lemma read_loop_steps:
  assumes "lock_ok s" and "conn_done s" and "c_rd s \<noteq> RdDone"
  shows "\<exists>s'. conn_step handles limit s s'"
proof (cases "c_rd s")
  case RdRead
  then show ?thesis by - (rule exI, rule rd_err; simp)
next
  case (RdAcquire cmd)
  with assms(2) show ?thesis by - (rule exI, rule rd_stop; simp)
next
  case (RdLock r)
  then have "\<not> c_lock s \<Longrightarrow> \<exists>s'. conn_step handles limit s s'" by - (rule exI, rule rd_lock)
  then show ?thesis by (rule waiting_for_lock_steps [OF assms(1)])
next
  case (RdWrite r)
  then show ?thesis by - (rule exI, rule rd_write_err; simp)
next
  case (RdReport e)
  then show ?thesis by (intro exI, rule rd_report [OF _ report_done [OF assms(2)]])
qed (use assms(3) in simp)

lemma worker_steps:
  assumes "lock_ok s" and "\<And>cmd. \<exists>r. handles cmd r" and "c_workers s \<noteq> []"
  shows "\<exists>s'. conn_step handles limit s s'"
proof -
  obtain cmd pc where w: "c_workers s ! 0 = (cmd, pc)" by (cases "c_workers s ! 0")
  have i: "0 < length (c_workers s)" using assms(3) by simp
  show ?thesis
  proof (cases pc)
    case WkHandle
    obtain r where "handles cmd r" using assms(2) by blast
    with i w WkHandle show ?thesis by - (rule exI, rule wk_handle, assumption, simp, simp?)
  next
    case (WkLock r)
    with i w have "\<not> c_lock s \<Longrightarrow> \<exists>s'. conn_step handles limit s s'" by - (rule exI, rule wk_lock, assumption, simp, simp?)
    then show ?thesis by (rule waiting_for_lock_steps [OF assms(1)])
  next
    case (WkWrite r)
    with i w show ?thesis by - (rule exI, rule wk_write_err, assumption, simp, simp?)
  next
    case WkRelease
    with i w show ?thesis by - (rule exI, rule wk_release, assumption, simp, simp?)
  next
    case WkDone
    with i w show ?thesis by - (rule exI, rule wk_done, assumption, simp, simp?)
  qed
qed

lemma closed_progress:
  assumes "lock_ok s" and "main_ok s" and "c_closed s" and "main_stage (c_main s) \<noteq> 6"
    and "\<And>cmd. \<exists>r. handles cmd r"
  shows "\<exists>s'. conn_step handles limit s s'"
proof -
  have "4 \<le> main_stage (c_main s)" "c_cancelled s" using assms(2,3) by (auto simp: main_ok_def)
  then have d: "conn_done s" by (simp add: conn_done_def)
  show ?thesis
  proof (cases "c_main s")
    case (MainWaitLoops e)
    show ?thesis
    proof (cases "c_hb s = HbDone \<and> c_rd s = RdDone")
      case True
      with MainWaitLoops show ?thesis by - (rule exI, rule main_loops; simp)
    next
      case False
      then show ?thesis using heartbeat_steps [OF assms(1) d] read_loop_steps [OF assms(1) d] by blast
    qed
  next
    case (MainWaitCommands e)
    show ?thesis
    proof (cases "c_workers s = []")
      case True
      with MainWaitCommands show ?thesis by - (rule exI, rule main_commands; simp)
    next
      case False
      then show ?thesis by (rule worker_steps [OF assms(1,5)])
    qed
  qed (use assms(4) \<open>4 \<le> main_stage (c_main s)\<close> in simp_all)
qed

section \<open>Shutdown\<close>

definition returned :: "conn \<Rightarrow> bool" where
  "returned s \<longleftrightarrow> (\<exists>e. c_main s = MainReturned e)"

lemma returned_stage: "returned s \<longleftrightarrow> main_stage (c_main s) = 6"
  by (cases "c_main s") (auto simp: returned_def)

lemma returned_clean:
  "conn_ok limit s \<Longrightarrow> returned s \<Longrightarrow>
    c_hb s = HbDone \<and> c_rd s = RdDone \<and> c_workers s = [] \<and> c_closed s \<and> \<not> c_lock s \<and> c_sem s = 0"
  by (auto simp: conn_ok_def main_ok_def returned_stage sem_ok_def in_flight_def lock_ok_def
      writers_def hb_writing_def rd_writing_def)

lemma closed_run_bounded:
  "(conn_step handles limit ^^ n) s s' \<Longrightarrow> conn_ok limit s \<Longrightarrow> c_closed s \<Longrightarrow>
    c_closed s' \<and> conn_ok limit s' \<and> n + shutdown_rank s' \<le> shutdown_rank s"
proof (induction n arbitrary: s')
  case (Suc n)
  then obtain t where "(conn_step handles limit ^^ n) s t" "conn_step handles limit t s'" by auto
  with Suc have "c_closed t" "conn_ok limit t" "n + shutdown_rank t \<le> shutdown_rank s"
    "c_closed s' \<and> shutdown_rank s' < shutdown_rank t"
    using closed_rank_step by (auto simp: conn_ok_def)
  with \<open>conn_step handles limit t s'\<close> show ?case using conn_ok_step by fastforce
qed simp

lemma closed_run_ends:
  assumes "conn_ok limit s" and "c_closed s" and "\<And>cmd. \<exists>r. handles cmd r"
    and "(conn_step handles limit ^^ n) s s'"
  shows "n \<le> shutdown_rank s" and "(\<nexists>t. conn_step handles limit s' t) \<Longrightarrow> returned s'"
proof -
  note B = closed_run_bounded [OF assms(4,1,2)]
  show "n \<le> shutdown_rank s" using B by simp
  assume "\<nexists>t. conn_step handles limit s' t"
  then show "returned s'"
    using B closed_progress [of s' handles limit, OF _ _ _ _ assms(3)]
    by (auto simp: returned_stage conn_ok_def)
qed

lemma closed_run_exists:
  assumes "\<And>cmd. \<exists>r. handles cmd r"
  shows "conn_ok limit s \<Longrightarrow> c_closed s \<Longrightarrow> \<exists>s'. (conn_step handles limit)\<^sup>*\<^sup>* s s' \<and> returned s'"
proof (induction "shutdown_rank s" arbitrary: s rule: less_induct)
  case less
  show ?case
  proof (cases "returned s")
    case False
    then obtain t where t: "conn_step handles limit s t"
      using less.prems closed_progress [of s handles limit, OF _ _ _ _ assms]
      by (auto simp: returned_stage conn_ok_def)
    moreover have "c_closed t" "shutdown_rank t < shutdown_rank s" "conn_ok limit t"
      using less.prems closed_rank_step [OF t] conn_ok_step [OF t] by (auto simp: conn_ok_def)
    ultimately show ?thesis using less.hyps by (meson converse_rtranclp_into_rtranclp)
  qed auto
qed

end
