(* ===== verification/Delivery.thy ===== *)
theory Delivery
  imports Shutdown
begin

text \<open>
  What a connection delivers: no command id is handed to a worker twice within the replay
  window, only commands that passed the policy are, and every response answers a command that
  was received, at most once each, under its own id.

  The locale \<open>command_handler\<close> is the contract of the interface \<open>Handler\<close> in
  \<open>internal/gateway/client.go\<close>; \<open>total_handler\<close> adds that a command is always answered. The first is
  interpreted on the router over any Kubernetes implementation, the second on the router over
  the real service under the default limits of the configuration.
\<close>

section \<open>The replay window of a connection\<close>

definition command_ok :: "Command \<Rightarrow> bool" where
  "command_ok cmd \<longleftrightarrow> policyAllowsCommand cmd = None"

definition remembered :: "conn \<Rightarrow> instant \<times> Command \<Rightarrow> bool" where
  "remembered s tc \<longleftrightarrow> fst tc \<le> c_clock s \<and>
     (commandReplayTTL < c_clock s - fst tc \<or>
      (\<exists>v\<ge>fst tc. Mapping.lookup (c_seen s) (cmd_ID (snd tc)) = Some v))"

definition acquire_ok :: "conn \<Rightarrow> bool" where
  "acquire_ok s \<longleftrightarrow>
     (\<forall>cmd. c_rd s = RdAcquire cmd \<longrightarrow> command_ok cmd \<and>
        Mapping.lookup (c_seen s) (cmd_ID cmd) = Some (c_clock s) \<and>
        (\<forall>tc\<in>set (c_taken s). cmd_ID (snd tc) = cmd_ID cmd \<longrightarrow> commandReplayTTL < c_clock s - fst tc))"

definition spaced :: "(instant \<times> Command) list \<Rightarrow> bool" where
  "spaced taken \<longleftrightarrow>
     sorted_wrt (\<lambda>a b. cmd_ID (snd a) = cmd_ID (snd b) \<longrightarrow> commandReplayTTL < fst b - fst a) taken"

definition window_ok :: "conn \<Rightarrow> bool" where
  "window_ok s \<longleftrightarrow> (\<forall>tc\<in>set (c_taken s). remembered s tc \<and> command_ok (snd tc)) \<and>
     acquire_ok s \<and> spaced (c_taken s) \<and> fst ` set (c_workers s) \<subseteq> snd ` set (c_taken s)"

lemma remembered_claim:
  assumes "remembered s tc" and "c_clock s \<le> now"
    and "claimCommand now (c_seen s) i = (b, seen)"
  shows "fst tc \<le> now \<and> (commandReplayTTL < now - fst tc \<or>
      (\<exists>v\<ge>fst tc. Mapping.lookup seen (cmd_ID (snd tc)) = Some v))"
    and "b \<Longrightarrow> cmd_ID (snd tc) = i \<Longrightarrow> commandReplayTTL < now - fst tc"
proof -
  show "fst tc \<le> now \<and> (commandReplayTTL < now - fst tc \<or>
      (\<exists>v\<ge>fst tc. Mapping.lookup seen (cmd_ID (snd tc)) = Some v))"
  proof (cases "commandReplayTTL < now - fst tc")
    case False
    with assms(1,2) obtain v where v: "fst tc \<le> v" "Mapping.lookup (c_seen s) (cmd_ID (snd tc)) = Some v"
      by (auto simp: remembered_def)
    with False have "\<not> commandReplayTTL < now - v" by simp
    from memory.claim_keeps [OF assms(3) v(2) this] v(1) assms(1,2) show ?thesis
      by (auto simp: remembered_def)
  qed (use assms(1,2) in \<open>auto simp: remembered_def\<close>)
  assume "b" and id: "cmd_ID (snd tc) = i"
  then have claim: "claimCommand now (c_seen s) i = (True, seen)" using assms(3) by simp
  show "commandReplayTTL < now - fst tc"
  proof (cases "commandReplayTTL < c_clock s - fst tc")
    case False
    with assms(1) id obtain v where "fst tc \<le> v" "Mapping.lookup (c_seen s) i = Some v"
      by (auto simp: remembered_def)
    with memory.claim_fresh [OF claim, of v] show ?thesis by simp
  qed (use assms(2) in simp)
qed

lemma window_ok_message:
  assumes "window_ok s" and "c_rd s = RdRead" and "c_clock s \<le> now"
  shows "window_ok (on_message now data s)"
proof (cases "\<exists>cmd. DecodeCommand data = Inr cmd \<and> policyAllowsCommand cmd = None")
  case False
  then show ?thesis using assms(1,2)
    by (auto simp: on_message_def window_ok_def acquire_ok_def remembered_def split: sum.split option.split)
next
  case True
  then obtain cmd where cmd: "DecodeCommand data = Inr cmd" "policyAllowsCommand cmd = None" by blast
  obtain b seen where claim: "claimCommand now (c_seen s) (cmd_ID cmd) = (b, seen)"
    by (cases "claimCommand now (c_seen s) (cmd_ID cmd)")
  let ?s = "on_message now data s"
  have s: "c_seen ?s = seen" "c_clock ?s = now" "c_rd ?s = (if b then RdAcquire cmd
      else RdLock (Failure (cmd_ID cmd) ErrDuplicateCommand ''command id was already processed''))"
    by (simp_all add: on_message_def cmd claim)
  have R: "remembered s tc \<and> command_ok (snd tc)" if "tc \<in> set (c_taken s)" for tc
    using that assms(1) by (simp add: window_ok_def)
  have "remembered ?s tc" if "tc \<in> set (c_taken s)" for tc
    using remembered_claim(1) [OF _ assms(3) claim] R [OF that] by (simp add: remembered_def s)
  moreover have "acquire_ok ?s"
    unfolding acquire_ok_def
  proof (intro allI impI conjI ballI)
    fix cmd' assume "c_rd ?s = RdAcquire cmd'"
    then have b: "b" and [simp]: "cmd' = cmd" by (simp_all add: s split: if_splits)
    show "command_ok cmd'" by (simp add: command_ok_def cmd)
    show "Mapping.lookup (c_seen ?s) (cmd_ID cmd') = Some (c_clock ?s)"
      using memory.claim_accepts [of now "c_seen s" "cmd_ID cmd" seen] claim b by (simp add: s)
    fix tc assume "tc \<in> set (c_taken ?s)" "cmd_ID (snd tc) = cmd_ID cmd'"
    then show "commandReplayTTL < c_clock ?s - fst tc"
      using remembered_claim(2) [OF _ assms(3) claim b] R by (simp add: s)
  qed
  ultimately show ?thesis using assms(1) R by (simp add: window_ok_def)
qed

lemma window_ok_same:
  assumes "window_ok s" and "c_taken s' = c_taken s" and "c_seen s' = c_seen s" and "c_clock s' = c_clock s"
    and "\<And>cmd. c_rd s' = RdAcquire cmd \<Longrightarrow> c_rd s = RdAcquire cmd"
    and "fst ` set (c_workers s') \<subseteq> fst ` set (c_workers s)"
  shows "window_ok s'"
proof -
  have "acquire_ok s'" using assms(1-5) unfolding window_ok_def acquire_ok_def by simp
  moreover have W: "fst ` set (c_workers s) \<subseteq> snd ` set (c_taken s)"
    using assms(1) by (simp add: window_ok_def)
  moreover have "fst ` set (c_workers s') \<subseteq> snd ` set (c_taken s')"
    unfolding assms(2) by (rule order_trans [OF assms(6) W])
  ultimately show ?thesis using assms(1-4) unfolding window_ok_def remembered_def by simp
qed

lemma fst_set_update: "i < length ws \<Longrightarrow> ws ! i = (cmd, p) \<Longrightarrow> fst ` set (ws[i := (cmd, q)]) \<subseteq> fst ` set ws"
  using set_update_subset_insert [of ws i "(cmd, q)"] nth_mem [of i ws] by force

lemma window_ok_spawn:
  assumes "window_ok s" and "c_rd s = RdAcquire cmd"
  shows "window_ok (s\<lparr>c_rd := RdRead, c_sem := n, c_workers := c_workers s @ [(cmd, WkHandle)],
    c_taken := c_taken s @ [(c_clock s, cmd)]\<rparr>)"
  using assms by (auto simp: window_ok_def acquire_ok_def spaced_def sorted_wrt_append remembered_def)

lemma window_ok_step: "conn_step handles limit s s' \<Longrightarrow> window_ok s \<Longrightarrow> window_ok s'"
proof (induction rule: conn_step.induct)
  case (rd_message s data rest now)
  then have "window_ok (s\<lparr>c_inbox := rest, c_read := c_read s @ [data]\<rparr>)"
    by - (erule window_ok_same; simp)
  with rd_message show ?case by (intro window_ok_message) auto
next
  case (rd_spawn s cmd)
  then show ?case by (intro window_ok_spawn)
next
  case (wk_done i s cmd)
  then show ?case using set_remove_nth [of i "c_workers s"] by (intro window_ok_same [OF wk_done(3)]) auto
next
  case (wk_handle i s cmd r)
  then show ?case using fst_set_update [OF wk_handle(1,2)] by (intro window_ok_same [OF wk_handle(4)]) auto
next
  case (wk_lock i s cmd r)
  then show ?case using fst_set_update [OF wk_lock(1,2)] by (intro window_ok_same [OF wk_lock(4)]) auto
next
  case (wk_write_ok i s cmd r)
  then show ?case using fst_set_update [OF wk_write_ok(1,2)] by (intro window_ok_same [OF wk_write_ok(4)]) auto
next
  case (wk_write_err i s cmd r)
  then show ?case using fst_set_update [OF wk_write_err(1,2)] by (intro window_ok_same [OF wk_write_err(3)]) auto
next
  case (wk_release i s cmd)
  then show ?case using fst_set_update [OF wk_release(1,2)] by (intro window_ok_same [OF wk_release(3)]) auto
qed (erule window_ok_same; simp)+

lemma window_ok_reachable:
  "conn_reachable handles limit (start_conn parent seen now) s \<Longrightarrow> window_ok s"
proof (induction rule: conn_reachable.induct)
  case reach_start
  then show ?case by (simp add: window_ok_def start_conn_def acquire_ok_def spaced_def)
qed (blast intro: window_ok_step)

section \<open>Responses answer commands\<close>

fun sent_responses :: "message list \<Rightarrow> response list" where
  "sent_responses [] = []"
| "sent_responses (SentResponse r # ms) = r # sent_responses ms"
| "sent_responses (_ # ms) = sent_responses ms"

fun rd_responses :: "rd_pc \<Rightarrow> response list" where
  "rd_responses (RdLock r) = [r]"
| "rd_responses (RdWrite r) = [r]"
| "rd_responses _ = []"

fun wk_responses :: "wk_pc \<Rightarrow> response list" where
  "wk_responses (WkLock r) = [r]"
| "wk_responses (WkWrite r) = [r]"
| "wk_responses _ = []"

text \<open>The commands not yet answered: with the read loop, or with a worker whose handler runs.\<close>

fun rd_waiting :: "rd_pc \<Rightarrow> string list" where
  "rd_waiting (RdAcquire cmd) = [cmd_ID cmd]"
| "rd_waiting _ = []"

fun wk_waiting :: "Command \<times> wk_pc \<Rightarrow> string list" where
  "wk_waiting (cmd, WkHandle) = [cmd_ID cmd]"
| "wk_waiting _ = []"

definition workers_responses :: "(Command \<times> wk_pc) list \<Rightarrow> response multiset" where
  "workers_responses ws = mset (concat (map (\<lambda>w. wk_responses (snd w)) ws))"

definition workers_waiting :: "(Command \<times> wk_pc) list \<Rightarrow> string multiset" where
  "workers_waiting ws = mset (concat (map wk_waiting ws))"

definition responses_of :: "conn \<Rightarrow> response multiset" where
  "responses_of s = mset (sent_responses (c_sent s)) + mset (rd_responses (c_rd s)) +
     workers_responses (c_workers s)"

definition waiting_of :: "conn \<Rightarrow> string multiset" where
  "waiting_of s = mset (rd_waiting (c_rd s)) + workers_waiting (c_workers s)"

definition command_ids :: "string \<Rightarrow> string list" where
  "command_ids data = (case DecodeCommand data of Inl e \<Rightarrow> [] | Inr cmd \<Rightarrow> [cmd_ID cmd])"

definition received_ids :: "conn \<Rightarrow> string multiset" where
  "received_ids s = mset (concat (map command_ids (c_read s)))"

definition answers_ok :: "conn \<Rightarrow> bool" where
  "answers_ok s \<longleftrightarrow> image_mset resp_ID (responses_of s) + waiting_of s \<subseteq># received_ids s \<and>
     (\<forall>r\<in>#responses_of s. wf_response r)"

lemma sent_responses_append [simp]: "sent_responses (xs @ ys) = sent_responses xs @ sent_responses ys"
  by (induction xs rule: sent_responses.induct) simp_all

lemma mset_concat_update:
  "i < length ws \<Longrightarrow> mset (concat (map f (ws[i := w]))) + mset (f (ws ! i)) = mset (concat (map f ws)) + mset (f w)"
proof (induction ws arbitrary: i)
  case (Cons x ws)
  then show ?case by (cases i) (auto simp: ac_simps)
qed simp

lemma mset_concat_remove:
  "i < length ws \<Longrightarrow> mset (concat (map f (remove_nth i ws))) + mset (f (ws ! i)) = mset (concat (map f ws))"
proof (induction ws arbitrary: i)
  case (Cons x ws)
  then show ?case by (cases i) (auto simp: ac_simps remove_nth_def)
qed simp

lemma workers_update:
  assumes "i < length ws" and "ws ! i = w"
  shows "workers_responses (ws[i := v]) + mset (wk_responses (snd w)) = workers_responses ws + mset (wk_responses (snd v))"
    and "workers_waiting (ws[i := v]) + mset (wk_waiting w) = workers_waiting ws + mset (wk_waiting v)"
  using mset_concat_update [OF assms(1), of "\<lambda>w. wk_responses (snd w)" v]
    mset_concat_update [OF assms(1), of wk_waiting v] assms(2)
  by (simp_all add: workers_responses_def workers_waiting_def)

lemma workers_remove:
  assumes "i < length ws" and "ws ! i = w"
  shows "workers_responses (remove_nth i ws) + mset (wk_responses (snd w)) = workers_responses ws"
    and "workers_waiting (remove_nth i ws) + mset (wk_waiting w) = workers_waiting ws"
  using mset_concat_remove [OF assms(1), of "\<lambda>w. wk_responses (snd w)"]
    mset_concat_remove [OF assms(1), of wk_waiting] assms(2)
  by (simp_all add: workers_responses_def workers_waiting_def)

lemma workers_snoc [simp]:
  "workers_responses (ws @ [w]) = workers_responses ws + mset (wk_responses (snd w))"
  "workers_waiting (ws @ [w]) = workers_waiting ws + mset (wk_waiting w)"
  by (simp_all add: workers_responses_def workers_waiting_def)

lemma answers_ok_less:
  assumes "answers_ok s" and "responses_of s' \<subseteq># responses_of s" and "waiting_of s' \<subseteq># waiting_of s"
    and "received_ids s' = received_ids s"
  shows "answers_ok s'"
proof -
  have "image_mset resp_ID (responses_of s') + waiting_of s' \<subseteq># image_mset resp_ID (responses_of s) + waiting_of s"
    by (intro subset_mset.add_mono image_mset_subseteq_mono assms)
  then show ?thesis
    using assms unfolding answers_ok_def by (metis mset_subset_eqD subset_mset.order_trans)
qed

lemma answers_ok_message:
  assumes "answers_ok s" and "c_rd s = RdRead"
  shows "answers_ok (on_message now data (s\<lparr>c_inbox := rest, c_read := c_read s @ [data]\<rparr>))"
proof -
  let ?s = "on_message now data (s\<lparr>c_inbox := rest, c_read := c_read s @ [data]\<rparr>)"
  have rd: "image_mset resp_ID (mset (rd_responses (c_rd ?s))) + mset (rd_waiting (c_rd ?s)) \<subseteq># mset (command_ids data)"
    "\<forall>r\<in>#mset (rd_responses (c_rd ?s)). wf_response r"
    using assms(2)
    by (auto simp: on_message_def command_ids_def split: sum.split option.split prod.split)
  have R: "responses_of ?s = responses_of s + mset (rd_responses (c_rd ?s))"
    "waiting_of ?s = waiting_of s + mset (rd_waiting (c_rd ?s))"
    using assms(2) by (simp_all add: responses_of_def waiting_of_def ac_simps)
  have E: "received_ids ?s = received_ids s + mset (command_ids data)"
    by (simp add: received_ids_def)
  have L: "image_mset resp_ID (responses_of ?s) + waiting_of ?s =
      (image_mset resp_ID (responses_of s) + waiting_of s) +
      (image_mset resp_ID (mset (rd_responses (c_rd ?s))) + mset (rd_waiting (c_rd ?s)))"
    unfolding R by (simp add: ac_simps)
  have "image_mset resp_ID (responses_of ?s) + waiting_of ?s \<subseteq># received_ids ?s"
    unfolding E L using assms(1) rd(1) by (intro subset_mset.add_mono) (simp_all add: answers_ok_def)
  moreover have "\<forall>r\<in>#responses_of ?s. wf_response r"
    unfolding R(1) using assms(1) rd(2) by (simp add: answers_ok_def ball_Un)
  ultimately show ?thesis by (simp only: answers_ok_def)
qed

section \<open>The contract of the handler\<close>

locale command_handler =
  fixes handles :: "Command \<Rightarrow> response \<Rightarrow> bool"
  assumes handler_responds: "handles cmd r \<Longrightarrow> wf_response r \<and> resp_ID r = cmd_ID cmd"
begin

lemma answers_ok_step: "conn_step handles limit s s' \<Longrightarrow> answers_ok s \<Longrightarrow> answers_ok s'"
proof (induction rule: conn_step.induct)
  case (rd_message s data rest now)
  then show ?case by (intro answers_ok_message)
next
  case (wk_handle i s cmd r)
  have H: "wf_response r" "resp_ID r = cmd_ID cmd" using handler_responds [OF wk_handle(3)] by simp_all
  note U = workers_update [OF wk_handle(1,2), of "(cmd, WkLock r)"]
  let ?s = "s\<lparr>c_workers := (c_workers s)[i := (cmd, WkLock r)]\<rparr>"
  have R: "responses_of ?s = add_mset r (responses_of s)" using U(1) by (simp add: responses_of_def)
  have W: "waiting_of s = add_mset (cmd_ID cmd) (waiting_of ?s)" using U(2) by (simp add: waiting_of_def)
  have E: "image_mset resp_ID (responses_of ?s) + waiting_of ?s = image_mset resp_ID (responses_of s) + waiting_of s"
    unfolding R W by (simp add: H(2))
  have "\<forall>r\<in>#responses_of ?s. wf_response r" unfolding R using wk_handle(4) H(1) by (simp add: answers_ok_def)
  with wk_handle(4) show ?case unfolding answers_ok_def E by (simp add: received_ids_def)
next
  case (wk_lock i s cmd r)
  show ?case using workers_update [OF wk_lock(1,2), of "(cmd, WkWrite r)"]
    by (intro answers_ok_less [OF wk_lock(4)]) (simp_all add: received_ids_def responses_of_def waiting_of_def)
next
  case (wk_write_ok i s cmd r)
  show ?case using workers_update [OF wk_write_ok(1,2), of "(cmd, WkRelease)"]
    by (intro answers_ok_less [OF wk_write_ok(4)]) (simp_all add: received_ids_def responses_of_def waiting_of_def)
next
  case (wk_write_err i s cmd r)
  have "workers_responses (c_workers s) = workers_responses ((c_workers s)[i := (cmd, WkRelease)]) + {#r#}"
    using workers_update(1) [OF wk_write_err(1,2), of "(cmd, WkRelease)"] by simp
  then have "workers_responses ((c_workers s)[i := (cmd, WkRelease)]) \<subseteq># workers_responses (c_workers s)"
    by (simp only: mset_subset_eq_add_left)
  then show ?case using workers_update(2) [OF wk_write_err(1,2), of "(cmd, WkRelease)"]
    by (intro answers_ok_less [OF wk_write_err(3)]) (simp_all add: received_ids_def responses_of_def waiting_of_def)
next
  case (wk_release i s cmd)
  show ?case using workers_update [OF wk_release(1,2), of "(cmd, WkDone)"]
    by (intro answers_ok_less [OF wk_release(3)]) (simp_all add: received_ids_def responses_of_def waiting_of_def)
next
  case (wk_done i s cmd)
  show ?case using workers_remove [OF wk_done(1,2)]
    by (intro answers_ok_less [OF wk_done(3)]) (simp_all add: received_ids_def responses_of_def waiting_of_def)
qed (erule answers_ok_less; simp add: received_ids_def responses_of_def waiting_of_def)+

lemma answers_ok_reachable:
  "conn_reachable handles limit (start_conn parent seen now) s \<Longrightarrow> answers_ok s"
proof (induction rule: conn_reachable.induct)
  case reach_start
  then show ?case by (simp add: answers_ok_def start_conn_def responses_of_def waiting_of_def
      workers_responses_def workers_waiting_def received_ids_def)
qed (blast intro: answers_ok_step)

end

locale total_handler = command_handler handles for handles :: "Command \<Rightarrow> response \<Rightarrow> bool" +
  assumes handler_answers: "\<exists>r. handles cmd r"
begin

lemma closed_ends:
  assumes "conn_reachable handles limit (start_conn parent seen now) s" and "c_closed s"
  shows "\<exists>s'. (conn_step handles limit)\<^sup>*\<^sup>* s s' \<and> returned s'"
    and "(conn_step handles limit ^^ n) s s' \<Longrightarrow> n \<le> shutdown_rank s \<and> (returned s' \<or> (\<exists>t. conn_step handles limit s' t))"
proof -
  note ok = conn_ok_reachable [OF assms(1)]
  show "\<exists>s'. (conn_step handles limit)\<^sup>*\<^sup>* s s' \<and> returned s'"
    by (rule closed_run_exists [where handles = handles, OF handler_answers ok assms(2)])
  assume run: "(conn_step handles limit ^^ n) s s'"
  show "n \<le> shutdown_rank s \<and> (returned s' \<or> (\<exists>t. conn_step handles limit s' t))"
    using closed_run_ends [where handles = handles, OF ok assms(2) handler_answers run] by blast
qed

end

section \<open>The router keeps the contract\<close>

definition router_handles :: "'w item_group \<Rightarrow> api_errors \<Rightarrow> 'w Router \<Rightarrow> Command \<Rightarrow> response \<Rightarrow> bool" where
  "router_handles wgroup ae r cmd resp \<longleftrightarrow> (\<exists>ctx w w'. Handle wgroup ae r ctx cmd w = (w', Inr resp))"

text \<open>The defaults of \<open>internal/config/config.go\<close>.\<close>

definition default_limits :: Limits where
  "default_limits = \<lparr>DefaultTailLines = 200, MaxTailLines = 1000, MaxLogBytes = 512 * 1024\<rparr>"

lemma default_limits_ok: "limits_ok default_limits"
  by (simp add: limits_ok_def default_limits_def word_sless_alt word_sle_eq)

interpretation router: command_handler "router_handles wgroup ae r" for wgroup ae r
  by unfold_locales (auto simp: router_handles_def dest: Handle_wf_response)

interpretation agent: total_handler
  "router_handles wgroup ae (NewRouter (kube_service api sorter) g default_limits)" for wgroup ae api sorter g
proof unfold_locales
  fix cmd
  let ?h = "Handle wgroup ae (NewRouter (kube_service api sorter) g default_limits) None cmd undefined"
  obtain w' res where h: "?h = (w', res)" by (cases ?h)
  have "res \<noteq> Inl p" for p using Handle_no_panic [OF default_limits_ok] h by metis
  then obtain resp where "res = Inr resp" by (cases res) auto
  with h show "\<exists>r. router_handles wgroup ae (NewRouter (kube_service api sorter) g default_limits) cmd r"
    unfolding router_handles_def by blast
qed

section \<open>An example session\<close>

definition quoted :: "string \<Rightarrow> string" where
  "quoted s = [CHR 0x22] @ s @ [CHR 0x22]"

definition example_frame :: string where
  "example_frame = ''{'' @ quoted ''id'' @ '':'' @ quoted ''a'' @ '','' @ quoted ''type'' @ '':'' @
     quoted ''command'' @ '','' @ quoted ''action'' @ '':'' @ quoted ''agent.discover_namespaces'' @ ''}''"

definition discover_command :: Command where
  "discover_command = zero_command\<lparr>cmd_ID := ''a'', cmd_Type := MessageTypeCommand,
     cmd_Action := ActionDiscoverNamespaces\<rparr>"

lemma example_frame_json:
  "parse_json example_frame = Some (JObj [(''id'', JStr ''a''), (''type'', JStr ''command''),
     (''action'', JStr ''agent.discover_namespaces'')])"
  by code_simp

lemma example_frame_decodes: "DecodeCommand example_frame = Inr discover_command"
proof -
  have f: "fold_name ''id'' = ''ID''" "fold_name ''type'' = ''TYPE''" "fold_name ''action'' = ''ACTION''"
    "fold_name ''params'' = ''PARAMS''"
    by code_simp+
  show ?thesis
    by (simp add: DecodeCommand_def unmarshal_def example_frame_json unmarshal_value_def
        command_fields_def field_decoder_def on_field_def f first_error_def zero_command_def
        MessageTypeCommand_def discover_command_def ActionDiscoverNamespaces_def)
qed

definition example_router :: "(Service \<times> instant) Router" where
  "example_router = NewRouter (kube_service example_api insertion_sort) (NewNamespaceGuard [''shop''] None) default_limits"

definition discover_response :: response where
  "discover_response = Success ''a'' (DiscoveredNamespaces [(''shop'', ''Active'')])"

lemma example_handled: "router_handles wgroup ae example_router discover_command discover_response"
proof -
  have "Handle wgroup ae example_router None discover_command (NewService, 0) =
      ((fst (Service_ListNamespaces example_api None (NewService, 0))), Inr discover_response)"
    by (simp add: Handle_def ValidateCommand_def discover_command_def zero_command_def IsAllowedAction_def
        allowedActions_def dispatch_def do_discover_namespaces_def answer_def example_router_def
        kube_service_def Service_ListNamespaces_def cache_hit_def NewService_def fetchNamespaces_def
        example_api_def toNamespace_def discover_response_def Let_def)
      (simp add: ActionDiscoverNamespaces_def)
  then show ?thesis unfolding router_handles_def by blast
qed

text \<open>The frame arrives, its command is claimed at time one, handled by a worker and answered.\<close>

lemma claim_first: "\<exists>seen. claimCommand now Mapping.empty i = (True, seen)"
proof -
  have "purge_expired now Mapping.empty = Mapping.empty"
    by (rule mapping_eqI) (simp add: lookup_purge_expired lookup_empty)
  then show ?thesis by (simp add: claimCommand_def maxRememberedCommands_def lookup_empty size_empty)
qed

lemma example_session_at:
  assumes "handles discover_command discover_response"
  shows "\<exists>s. conn_reachable handles 8 (start_conn None Mapping.empty t) s \<and>
    c_taken s = [(t + 1, discover_command)] \<and> c_sent s = [SentResponse discover_response] \<and>
    c_workers s = [(discover_command, WkRelease)] \<and> c_read s = [example_frame] \<and> c_main s = MainSelect \<and>
    c_rd s = RdRead \<and> c_errs s = [] \<and> c_clock s = t + 1"
proof -
  let ?s0 = "start_conn None Mapping.empty t"
  let ?s1 = "?s0\<lparr>c_inbox := c_inbox ?s0 @ [example_frame]\<rparr>"
  have "conn_step handles 8 ?s0 ?s1" by (rule arrive) (simp add: start_conn_def)
  then have 1: "conn_reachable handles 8 ?s0 ?s1" by (rule reach_step [OF reach_start])
  let ?m = "?s1\<lparr>c_inbox := [], c_read := [example_frame]\<rparr>"
  let ?s2 = "on_message (t + 1) example_frame ?m"
  have "conn_step handles 8 ?s1 (on_message (t + 1) example_frame (?s1\<lparr>c_inbox := [], c_read := c_read ?s1 @ [example_frame]\<rparr>))"
    by (rule rd_message) (simp_all add: start_conn_def)
  then have 2: "conn_reachable handles 8 ?s0 ?s2"
    by (intro reach_step [OF 1]) (simp add: start_conn_def)
  obtain seen where claim: "claimCommand (t + 1) Mapping.empty ''a'' = (True, seen)"
    using claim_first [of "t + 1" "''a''"] by blast
  have p: "policyAllowsCommand discover_command = None" "cmd_ID discover_command = ''a''"
    by (simp_all add: policyAllowsCommand_def discover_command_def ActionDiscoverNamespaces_def)
  have s2: "c_rd ?s2 = RdAcquire discover_command" "c_clock ?s2 = t + 1"
    unfolding on_message_def example_frame_decodes by (simp_all add: start_conn_def p claim)
  let ?s3 = "?s2\<lparr>c_rd := RdRead, c_sem := Suc (c_sem ?s2),
      c_workers := c_workers ?s2 @ [(discover_command, WkHandle)], c_taken := c_taken ?s2 @ [(c_clock ?s2, discover_command)]\<rparr>"
  have "conn_step handles 8 ?s2 ?s3" by (rule rd_spawn [OF s2(1)]) (simp add: start_conn_def)
  then have 3: "conn_reachable handles 8 ?s0 ?s3" by (rule reach_step [OF 2])
  let ?s4 = "?s3\<lparr>c_workers := (c_workers ?s3)[0 := (discover_command, WkLock discover_response)]\<rparr>"
  have "conn_step handles 8 ?s3 ?s4" by (rule wk_handle) (simp_all add: start_conn_def assms)
  then have 4: "conn_reachable handles 8 ?s0 ?s4" by (rule reach_step [OF 3])
  let ?s5 = "?s4\<lparr>c_workers := (c_workers ?s4)[0 := (discover_command, WkWrite discover_response)], c_lock := True\<rparr>"
  have "conn_step handles 8 ?s4 ?s5" by (rule wk_lock) (simp_all add: start_conn_def)
  then have 5: "conn_reachable handles 8 ?s0 ?s5" by (rule reach_step [OF 4])
  let ?s6 = "?s5\<lparr>c_workers := (c_workers ?s5)[0 := (discover_command, WkRelease)], c_lock := False,
      c_sent := c_sent ?s5 @ [SentResponse discover_response]\<rparr>"
  have "conn_step handles 8 ?s5 ?s6" by (rule wk_write_ok) (simp_all add: start_conn_def)
  then have 6: "conn_reachable handles 8 ?s0 ?s6" by (rule reach_step [OF 5])
  have "c_clock ?s6 = t + 1" using s2(2) by simp
  moreover have "c_taken ?s6 = [(t + 1, discover_command)]" unfolding s2(2) by (simp add: start_conn_def)
  ultimately show ?thesis by (intro exI [of _ ?s6] conjI 6) (simp_all add: start_conn_def)
qed

lemma example_session:
  assumes "handles discover_command discover_response"
  shows "\<exists>s. conn_reachable handles 8 (start_conn None Mapping.empty 0) s \<and>
    c_taken s = [(1, discover_command)] \<and> c_sent s = [SentResponse discover_response] \<and>
    c_workers s = [(discover_command, WkRelease)] \<and> c_read s = [example_frame] \<and> c_main s = MainSelect"
  using example_session_at [of handles 0] assms by auto

text \<open>The parent context is cancelled, and the main goroutine closes the socket.\<close>

lemma example_closed:
  "\<exists>s. conn_reachable handles 8 (start_conn None Mapping.empty 0) s \<and> c_closed s"
proof -
  let ?s0 = "start_conn None Mapping.empty 0"
  let ?s1 = "?s0\<lparr>c_parent := Some Canceled\<rparr>"
  let ?s2 = "?s1\<lparr>c_main := MainCancel (Sentinel Canceled)\<rparr>"
  let ?s3 = "?s2\<lparr>c_main := MainFrame (Sentinel Canceled), c_cancelled := True\<rparr>"
  let ?s4 = "?s3\<lparr>c_main := MainClose (Sentinel Canceled)\<rparr>"
  let ?s5 = "?s4\<lparr>c_main := MainWaitLoops (Sentinel Canceled), c_closed := True\<rparr>"
  have "conn_reachable handles 8 ?s0 ?s1" by (rule reach_step [OF reach_start parent_done]) (simp add: start_conn_def)
  then have "conn_reachable handles 8 ?s0 ?s2" by (rule reach_step [OF _ main_ctx]) (simp_all add: start_conn_def)
  then have "conn_reachable handles 8 ?s0 ?s3" by (rule reach_step [OF _ main_cancel]) simp
  then have "conn_reachable handles 8 ?s0 ?s4" by (rule reach_step [OF _ main_frame_err]) simp
  then have "conn_reachable handles 8 ?s0 ?s5" by (rule reach_step [OF _ main_close]) simp
  then show ?thesis by (intro exI [of _ ?s5]) simp
qed

section \<open>Properties\<close>



text \<open>
  C10: the error that ends a loop is never lost: while the connection is not already ending, the
  buffer has room for it, and reporting it appends it.
\<close>

theorem loop_error_delivered:
  assumes "conn_reachable handles limit (start_conn parent seen now) s"
    and "c_hb s = HbReport e \<or> c_rd s = RdReport e" and "\<not> conn_done s"
    and "reportConnectionError s e es"
  shows "es = c_errs s @ [e]"
  using report_delivers [OF _ assms(2-4)] conn_ok_reachable [OF assms(1)] by (simp add: conn_ok_def)

theorem loop_error_delivered_witness:
  "\<exists>s. c_rd s = RdReport (ErrorString ''EOF'') \<and> c_errs s = [] \<and>
     (\<forall>es. reportConnectionError s (ErrorString ''EOF'') es \<longrightarrow> es = [ErrorString ''EOF''])"
proof -
  let ?s0 = "start_conn None Mapping.empty 0"
  let ?t = "?s0\<lparr>c_rd := RdReport (ErrorString ''EOF'')\<rparr>"
  have r: "conn_reachable (\<lambda>c r. False) 8 ?s0 ?t" by (rule reach_step [OF reach_start rd_err]) (simp add: start_conn_def)
  have "c_rd ?t = RdReport (ErrorString ''EOF'')" "\<not> conn_done ?t" "c_errs ?t = []"
    by (simp_all add: start_conn_def conn_done_def)
  with loop_error_delivered [OF r, of "ErrorString ''EOF''"] show ?thesis
    by (intro exI [of _ ?t] conjI allI impI) simp_all
qed

text \<open>
  C4: whatever the gateway sends, the commands handed to workers all passed the access policy, and
  two of them with the same id were claimed more than ten minutes apart.
\<close>

theorem no_replayed_command:
  assumes "conn_reachable handles limit (start_conn parent seen now) s"
  shows "list_all (\<lambda>tc. policyAllowsCommand (snd tc) = None) (c_taken s) \<and>
    sorted_wrt (\<lambda>a b. cmd_ID (snd a) = cmd_ID (snd b) \<longrightarrow> 10 * minute < fst b - fst a) (c_taken s) \<and>
    fst ` set (c_workers s) \<subseteq> snd ` set (c_taken s)"
  using window_ok_reachable [OF assms]
  by (auto simp: window_ok_def command_ok_def spaced_def commandReplayTTL_def list_all_iff)

theorem no_replayed_command_witness:
  "\<exists>s::conn. c_taken s = [(1, discover_command)] \<and> fst ` set (c_workers s) \<subseteq> {discover_command} \<and>
     policyAllowsCommand discover_command = None"
proof -
  obtain s where s: "conn_reachable (router_handles (scheduled_group []) example_errors example_router) 8
      (start_conn None Mapping.empty 0) s" "c_taken s = [(1, discover_command)]"
    using example_session [where handles = "router_handles (scheduled_group []) example_errors example_router",
        OF example_handled] by blast
  note ok = no_replayed_command [OF s(1), unfolded s(2), simplified]
  show ?thesis by (rule exI [of _ s]) (use ok s(2) in simp)
qed

text \<open>
  C6: with the router as the handler, every response that a connection sends is well formed, and
  the ids of the responses, with multiplicity, are among the ids of the commands received: nothing is answered
  twice, and nothing that was not asked.
\<close>

theorem responses_answer_commands:
  assumes "conn_reachable (router_handles wgroup ae r) limit (start_conn parent seen now) s"
  shows "mset (map resp_ID (sent_responses (c_sent s))) \<subseteq># mset (concat (map command_ids (c_read s))) \<and>
    list_all wf_response (sent_responses (c_sent s))"
proof -
  have ok: "answers_ok s" using router.answers_ok_reachable [OF assms] .
  have "mset (map resp_ID (sent_responses (c_sent s))) \<subseteq># image_mset resp_ID (responses_of s) + waiting_of s"
    by (simp add: responses_of_def ac_simps)
  also have "\<dots> \<subseteq># mset (concat (map command_ids (c_read s)))"
    using ok by (simp add: answers_ok_def received_ids_def)
  finally show ?thesis using ok by (auto simp: answers_ok_def list_all_iff responses_of_def)
qed

theorem responses_answer_commands_witness:
  "{#''a''#} \<subseteq># mset (command_ids example_frame)"
proof -
  obtain s where s: "conn_reachable (router_handles (scheduled_group []) example_errors example_router) 8
      (start_conn None Mapping.empty 0) s" "c_sent s = [SentResponse discover_response]" "c_read s = [example_frame]"
    using example_session [where handles = "router_handles (scheduled_group []) example_errors example_router",
        OF example_handled] by blast
  from responses_answer_commands [OF s(1)] s(2,3) show ?thesis by (simp add: discover_response_def)
qed

text \<open>
  C8: when \<open>serveConnection\<close> returns, the connection has left nothing behind: both loops and all
  workers have ended, the socket is closed, and the write mutex and every semaphore slot are free.
\<close>

theorem returned_connection_clean:
  assumes "conn_reachable handles limit (start_conn parent seen now) s" and "returned s"
  shows "c_hb s = HbDone \<and> c_rd s = RdDone \<and> c_workers s = [] \<and> c_closed s \<and> \<not> c_lock s \<and> c_sem s = 0"
  using returned_clean [OF conn_ok_reachable [OF assms(1)] assms(2)] .



theorem returned_connection_clean_witness: "\<exists>s. returned s \<and> c_workers s = []"
proof -
  let ?h = "router_handles (scheduled_group []) example_errors example_router"
  obtain s where s: "conn_reachable ?h 8 (start_conn None Mapping.empty 0) s" "c_closed s"
    using example_closed by blast
  obtain s' where s': "(conn_step ?h 8)\<^sup>*\<^sup>* s s'" "returned s'"
    using agent.closed_ends(1) [OF s [unfolded example_router_def]] unfolding example_router_def by blast
  have "conn_reachable ?h 8 (start_conn None Mapping.empty 0) s'"
    using s'(1) s(1) by (induction rule: rtranclp_induct) (auto intro: reach_step)
  from returned_connection_clean [OF this s'(2)] s'(2) show ?thesis by blast
qed

end
