(* ===== verification/GoUrl.thy ===== *)
theory GoUrl
  imports GoErrors GoJson "HOL-Library.AList"
begin

text \<open>
  What the source uses of Go's \<open>net/url\<close>: \<open>url.Parse\<close>, the fields of the result, its
  query as \<open>Values\<close> with \<open>Set\<close> and \<open>Encode\<close>, and \<open>URL.String\<close>. The definitions follow the
  package of Go 1.25 (the version of \<open>go.mod\<close>), byte by byte; an error is its text.

  \<open>Values\<close> is a map from keys to lists of values. It is an association list with distinct
  keys here, and \<open>Encode\<close> sorts the keys, so the order of the list is not observable.
\<close>

section \<open>Percent encoding\<close>

datatype url_mode = EncPath | EncHost | EncZone | EncUserPassword | EncQuery | EncFragment

definition is_alnum :: "char \<Rightarrow> bool" where
  "is_alnum c \<longleftrightarrow> is_digit c \<or> (CHR ''a'' \<le> c \<and> c \<le> CHR ''z'') \<or> (CHR ''A'' \<le> c \<and> c \<le> CHR ''Z'')"

definition url_reserved :: "url_mode \<Rightarrow> char \<Rightarrow> bool" where
  "url_reserved m c \<longleftrightarrow>
     (case m of
        EncPath \<Rightarrow> c = CHR ''?''
      | EncUserPassword \<Rightarrow> c \<in> set ''@/?:''
      | EncQuery \<Rightarrow> True
      | EncFragment \<Rightarrow> False
      | _ \<Rightarrow> True)"

definition shouldEscape :: "char \<Rightarrow> url_mode \<Rightarrow> bool" where
  "shouldEscape c m \<longleftrightarrow>
     \<not> is_alnum c \<and>
     \<not> ((m = EncHost \<or> m = EncZone) \<and> c \<in> set (CHR 0x22 # CHR 0x27 # ''!$&()*+,;=:[]<>'')) \<and>
     c \<notin> set ''-_.~'' \<and>
     (if c \<in> set ''$&+,/:;=?@'' then url_reserved m c
      else \<not> (m = EncFragment \<and> c \<in> set ''!()*''))"

definition upper_hex :: "nat \<Rightarrow> char" where
  "upper_hex d = (if d < 10 then char_of (48 + d) else char_of (55 + d))"

definition escape_byte :: "url_mode \<Rightarrow> char \<Rightarrow> string" where
  "escape_byte m c =
     (if \<not> shouldEscape c m then [c]
      else if c = CHR '' '' \<and> m = EncQuery then ''+''
      else [CHR 0x25, upper_hex (of_char c div 16), upper_hex (of_char c mod 16)])"

definition url_escape :: "url_mode \<Rightarrow> string \<Rightarrow> string" where
  "url_escape m s = concat (map (escape_byte m) s)"

definition escape_error :: "string \<Rightarrow> string" where
  "escape_error s = ''invalid URL escape '' @ go_quote s"

definition host_error :: "string \<Rightarrow> string" where
  "host_error s = ''invalid character '' @ go_quote s @ '' in host name''"

text \<open>What the bytes after a percent sign stand for.\<close>

definition percent_byte :: "url_mode \<Rightarrow> string \<Rightarrow> string + char \<times> string" where
  "percent_byte m cs =
     (case cs of
        a # b # rest \<Rightarrow>
          (case (hex_val a, hex_val b) of
             (Some h, Some l) \<Rightarrow>
               if m = EncHost \<and> h < 8 \<and> [a, b] \<noteq> ''25'' then Inl (escape_error [CHR 0x25, a, b])
               else if m = EncZone \<and> [a, b] \<noteq> ''25'' \<and> char_of (16 * h + l) \<noteq> CHR '' '' \<and>
                 shouldEscape (char_of (16 * h + l)) EncHost then Inl (escape_error [CHR 0x25, a, b])
               else Inr (char_of (16 * h + l), rest)
           | _ \<Rightarrow> Inl (escape_error [CHR 0x25, a, b]))
      | _ \<Rightarrow> Inl (escape_error (CHR 0x25 # cs)))"

definition plain_byte :: "url_mode \<Rightarrow> char \<Rightarrow> string + char" where
  "plain_byte m c =
     (if c = CHR ''+'' then Inr (if m = EncQuery then CHR '' '' else c)
      else if (m = EncHost \<or> m = EncZone) \<and> (of_char c :: nat) < 128 \<and> shouldEscape c m then Inl (host_error [c])
      else Inr c)"

lemma percent_byte_shorter: "percent_byte m cs = Inr (c, rest) \<Longrightarrow> length rest < length cs"
  by (auto simp: percent_byte_def split: list.splits option.splits if_splits)

function url_unescape :: "url_mode \<Rightarrow> string \<Rightarrow> string + string" where
  "url_unescape m [] = Inr []"
| "url_unescape m (c # cs) =
     (if c = CHR 0x25
      then (case percent_byte m cs of
              Inl e \<Rightarrow> Inl e
            | Inr (x, rest) \<Rightarrow> map_sum id ((#) x) (url_unescape m rest))
      else (case plain_byte m c of
              Inl e \<Rightarrow> Inl e
            | Inr x \<Rightarrow> map_sum id ((#) x) (url_unescape m cs)))"
  by pat_completeness auto
termination
  by (relation "measure (\<lambda>(m, s). length s)")
    (auto dest!: percent_byte_shorter simp: less_Suc_eq)

definition QueryEscape :: "string \<Rightarrow> string" where
  "QueryEscape s = url_escape EncQuery s"

section \<open>Parsing\<close>

definition Cut_byte :: "char \<Rightarrow> string \<Rightarrow> string \<times> string" where
  "Cut_byte c s = (takeWhile (\<lambda>x. x \<noteq> c) s, tl (dropWhile (\<lambda>x. x \<noteq> c) s))"

text \<open>The parts of a text before and after the last occurrence of a byte.\<close>

definition before_last :: "char \<Rightarrow> string \<Rightarrow> string" where
  "before_last c s = rev (tl (dropWhile (\<lambda>x. x \<noteq> c) (rev s)))"

definition after_last :: "char \<Rightarrow> string \<Rightarrow> string" where
  "after_last c s = rev (takeWhile (\<lambda>x. x \<noteq> c) (rev s))"

record userinfo =
  user_name :: string
  user_password :: "string option"

record url =
  url_Scheme :: string
  url_Opaque :: string
  url_User :: "userinfo option"
  url_Host :: string
  url_Path :: string
  url_RawPath :: string
  url_OmitHost :: bool
  url_ForceQuery :: bool
  url_RawQuery :: string
  url_Fragment :: string
  url_RawFragment :: string

definition zero_url :: url where
  "zero_url = \<lparr>url_Scheme = [], url_Opaque = [], url_User = None, url_Host = [], url_Path = [],
     url_RawPath = [], url_OmitHost = False, url_ForceQuery = False, url_RawQuery = [],
     url_Fragment = [], url_RawFragment = []\<rparr>"

definition is_letter :: "char \<Rightarrow> bool" where
  "is_letter c \<longleftrightarrow> is_alnum c \<and> \<not> is_digit c"

definition scheme_char :: "char \<Rightarrow> bool" where
  "scheme_char c \<longleftrightarrow> is_alnum c \<or> c \<in> set ''+-.''"

definition getScheme :: "string \<Rightarrow> string + string \<times> string" where
  "getScheme s =
     (let p = takeWhile scheme_char s; rest = dropWhile scheme_char s in
      if p \<noteq> [] \<and> \<not> is_letter (hd p) then Inr ([], s)
      else case rest of
             [] \<Rightarrow> Inr ([], s)
           | c # r \<Rightarrow>
               if c \<noteq> CHR '':'' then Inr ([], s)
               else if p = [] then Inl ''missing protocol scheme''
               else Inr (p, r))"

definition lower_byte :: "char \<Rightarrow> char" where
  "lower_byte c = (if CHR ''A'' \<le> c \<and> c \<le> CHR ''Z'' then char_of ((of_char c :: nat) + 32) else c)"

text \<open>A port is absent, or a colon with digits after it, possibly none.\<close>

definition validOptionalPort :: "string \<Rightarrow> bool" where
  "validOptionalPort p \<longleftrightarrow> (case p of [] \<Rightarrow> True | c # ds \<Rightarrow> c = CHR '':'' \<and> list_all is_digit ds)"

definition port_error :: "string \<Rightarrow> string" where
  "port_error p = ''invalid port '' @ go_quote p @ '' after host''"

text \<open>The text before the first \<open>%25\<close>, and the rest from it on, when there is one.\<close>

fun split_zone :: "string \<Rightarrow> (string \<times> string) option" where
  "split_zone [] = None"
| "split_zone (c # cs) =
     (if prefix [CHR 0x25, CHR ''2'', CHR ''5''] (c # cs) then Some ([], c # cs)
      else map_option (\<lambda>(a, b). (c # a, b)) (split_zone cs))"

definition parseHost :: "string \<Rightarrow> string + string" where
  "parseHost host =
     (if prefix ''['' host
      then (if CHR '']'' \<notin> set host then Inl (''missing '' @ [CHR 0x27, CHR '']'', CHR 0x27] @ '' in host'')
            else let port = after_last (CHR '']'') host; literal = before_last (CHR '']'') host in
              if \<not> validOptionalPort port then Inl (port_error port)
              else case split_zone literal of
                     None \<Rightarrow> url_unescape EncHost host
                   | Some (addr, zone) \<Rightarrow>
                       (case url_unescape EncHost addr of
                          Inl e \<Rightarrow> Inl e
                        | Inr h1 \<Rightarrow>
                            (case url_unescape EncZone zone of
                               Inl e \<Rightarrow> Inl e
                             | Inr h2 \<Rightarrow>
                                 map_sum id (\<lambda>h3. h1 @ h2 @ h3) (url_unescape EncHost (CHR '']'' # port)))))
      else if CHR '':'' \<in> set host \<and> \<not> validOptionalPort (CHR '':'' # after_last (CHR '':'') host)
        then Inl (port_error (CHR '':'' # after_last (CHR '':'') host))
      else url_unescape EncHost host)"

definition validUserinfo :: "string \<Rightarrow> bool" where
  "validUserinfo s \<longleftrightarrow> list_all (\<lambda>c. is_alnum c \<or> c \<in> set (CHR 0x27 # CHR 0x25 # ''-._:~!$&()*+,;=@'')) s"

definition parseUserinfo :: "string \<Rightarrow> string + userinfo" where
  "parseUserinfo s =
     (if \<not> validUserinfo s then Inl ''net/url: invalid userinfo''
      else if CHR '':'' \<notin> set s
        then map_sum id (\<lambda>u. \<lparr>user_name = u, user_password = None\<rparr>) (url_unescape EncUserPassword s)
      else (case url_unescape EncUserPassword (fst (Cut_byte (CHR '':'') s)) of
              Inl e \<Rightarrow> Inl e
            | Inr u \<Rightarrow> map_sum id (\<lambda>p. \<lparr>user_name = u, user_password = Some p\<rparr>)
                (url_unescape EncUserPassword (snd (Cut_byte (CHR '':'') s)))))"

definition parseAuthority :: "string \<Rightarrow> string + userinfo option \<times> string" where
  "parseAuthority authority =
     (if CHR ''@'' \<notin> set authority then map_sum id (\<lambda>h. (None, h)) (parseHost authority)
      else (case parseHost (after_last (CHR ''@'') authority) of
              Inl e \<Rightarrow> Inl e
            | Inr h \<Rightarrow> map_sum id (\<lambda>u. (Some u, h)) (parseUserinfo (before_last (CHR ''@'') authority))))"

text \<open>\<open>setPath\<close> and \<open>setFragment\<close>: the decoded text, and the given one where its encoding is not the default.\<close>

definition decoded_part :: "url_mode \<Rightarrow> string \<Rightarrow> string + string \<times> string" where
  "decoded_part m p =
     map_sum id (\<lambda>d. (d, if url_escape m d = p then [] else p)) (url_unescape m p)"

definition set_path :: "string \<Rightarrow> url \<Rightarrow> string + url" where
  "set_path p u = map_sum id (\<lambda>(d, r). u\<lparr>url_Path := d, url_RawPath := r\<rparr>) (decoded_part EncPath p)"

definition parse_hier :: "string \<Rightarrow> url \<Rightarrow> string + url" where
  "parse_hier rest u =
     (if (url_Scheme u \<noteq> [] \<or> \<not> prefix ''///'' rest) \<and> prefix ''//'' rest
      then (let auth = takeWhile (\<lambda>c. c \<noteq> CHR ''/'') (drop 2 rest);
                path = dropWhile (\<lambda>c. c \<noteq> CHR ''/'') (drop 2 rest)
            in case parseAuthority auth of
                 Inl e \<Rightarrow> Inl e
               | Inr (usr, h) \<Rightarrow> set_path path (u\<lparr>url_User := usr, url_Host := h\<rparr>))
      else set_path rest (u\<lparr>url_OmitHost := url_Scheme u \<noteq> [] \<and> prefix ''/'' rest\<rparr>))"

definition split_query :: "string \<Rightarrow> string \<times> bool \<times> string" where
  "split_query rest =
     (if suffix ''?'' rest \<and> count_list rest (CHR ''?'') = 1 then (butlast rest, True, [])
      else (fst (Cut_byte (CHR ''?'') rest), False, snd (Cut_byte (CHR ''?'') rest)))"

definition is_control :: "char \<Rightarrow> bool" where
  "is_control c \<longleftrightarrow> (of_char c :: nat) < 32 \<or> c = CHR 0x7F"

definition parse_no_fragment :: "string \<Rightarrow> string + url" where
  "parse_no_fragment s =
     (if list_ex is_control s then Inl ''net/url: invalid control character in URL''
      else if s = ''*'' then Inr (zero_url\<lparr>url_Path := ''*''\<rparr>)
      else case getScheme s of
             Inl e \<Rightarrow> Inl e
           | Inr (scheme, rest0) \<Rightarrow>
               let (rest, force, raw) = split_query rest0;
                   u = zero_url\<lparr>url_Scheme := map lower_byte scheme, url_ForceQuery := force, url_RawQuery := raw\<rparr>
               in if \<not> prefix ''/'' rest \<and> scheme \<noteq> [] then Inr (u\<lparr>url_Opaque := rest\<rparr>)
                  else if \<not> prefix ''/'' rest \<and> CHR '':'' \<in> set (fst (Cut_byte (CHR ''/'') rest))
                    then Inl ''first path segment in URL cannot contain colon''
                  else parse_hier rest u)"

definition url_error :: "string \<Rightarrow> string \<Rightarrow> go_error" where
  "url_error s e = ErrorString (''parse '' @ go_quote s @ '': '' @ e)"

definition url_Parse :: "string \<Rightarrow> url go_result" where
  "url_Parse raw =
     (let (s, frag) = Cut_byte (CHR ''#'') raw in
      case parse_no_fragment s of
        Inl e \<Rightarrow> Inl (url_error s e)
      | Inr u \<Rightarrow>
          if frag = [] then Inr u
          else (case decoded_part EncFragment frag of
                  Inl e \<Rightarrow> Inl (url_error raw e)
                | Inr (d, r) \<Rightarrow> Inr (u\<lparr>url_Fragment := d, url_RawFragment := r\<rparr>)))"

section \<open>Queries\<close>

type_synonym url_values = "(string \<times> string list) list"

definition values_Set :: "string \<Rightarrow> string \<Rightarrow> url_values \<Rightarrow> url_values" where
  "values_Set k v q = AList.update k [v] q"

definition values_Get :: "url_values \<Rightarrow> string \<Rightarrow> string list" where
  "values_Get q k = (case map_of q k of None \<Rightarrow> [] | Some vs \<Rightarrow> vs)"

definition values_Encode :: "url_values \<Rightarrow> string" where
  "values_Encode q =
     Join (concat (map (\<lambda>(k, vs). map (\<lambda>v. QueryEscape k @ ''='' @ QueryEscape v) vs) (sort_key fst q))) ''&''"

text \<open>One setting of a query, with \<open>None\<close> for one that \<open>ParseQuery\<close> reports and \<open>Query\<close> drops.\<close>

definition query_setting :: "string \<Rightarrow> (string \<times> string) option" where
  "query_setting s =
     (if CHR '';'' \<in> set s then None
      else (case (url_unescape EncQuery (fst (Cut_byte (CHR ''='') s)), url_unescape EncQuery (snd (Cut_byte (CHR ''='') s))) of
              (Inr k, Inr v) \<Rightarrow> Some (k, v)
            | _ \<Rightarrow> None))"

definition query_settings :: "string \<Rightarrow> (string \<times> string) list" where
  "query_settings s = List.map_filter query_setting (filter (\<lambda>p. p \<noteq> []) (Split_byte (CHR ''&'') s))"

definition values_Add :: "string \<times> string \<Rightarrow> url_values \<Rightarrow> url_values" where
  "values_Add kv q = AList.update (fst kv) (values_Get q (fst kv) @ [snd kv]) q"

definition url_Query :: "string \<Rightarrow> url_values" where
  "url_Query raw = fold values_Add (query_settings raw) []"

section \<open>Printing\<close>

definition validEncoded :: "url_mode \<Rightarrow> string \<Rightarrow> bool" where
  "validEncoded m s \<longleftrightarrow>
     list_all (\<lambda>c. c \<in> set (CHR 0x27 # CHR 0x25 # ''!$&()*+,;=:@[]'') \<or> \<not> shouldEscape c m) s"

definition encoded_part :: "url_mode \<Rightarrow> string \<Rightarrow> string \<Rightarrow> string" where
  "encoded_part m d r =
     (if r \<noteq> [] \<and> validEncoded m r \<and> url_unescape m r = Inr d then r else url_escape m d)"

definition EscapedPath :: "url \<Rightarrow> string" where
  "EscapedPath u =
     (if url_RawPath u \<noteq> [] \<and> validEncoded EncPath (url_RawPath u) \<and>
         url_unescape EncPath (url_RawPath u) = Inr (url_Path u) then url_RawPath u
      else if url_Path u = ''*'' then ''*''
      else url_escape EncPath (url_Path u))"

definition userinfo_String :: "userinfo \<Rightarrow> string" where
  "userinfo_String u =
     (if user_name u \<noteq> [] \<or> user_password u \<noteq> None
      then url_escape EncUserPassword (user_name u) @
        (case user_password u of None \<Rightarrow> [] | Some p \<Rightarrow> '':'' @ url_escape EncUserPassword p)
      else [])"

text \<open>\<open>URL.String\<close>, first the part before the path, then the path, then query and fragment.\<close>

definition url_authority :: "url \<Rightarrow> string" where
  "url_authority u =
     (if url_Scheme u = [] \<and> url_Host u = [] \<and> url_User u = None then []
      else if url_OmitHost u \<and> url_Host u = [] \<and> url_User u = None then []
      else (if url_Host u \<noteq> [] \<or> url_Path u \<noteq> [] \<or> url_User u \<noteq> None then ''//'' else []) @
        (case url_User u of None \<Rightarrow> [] | Some usr \<Rightarrow> userinfo_String usr @ ''@'') @
        (if url_Host u \<noteq> [] then url_escape EncHost (url_Host u) else []))"

definition url_before_query :: "url \<Rightarrow> string" where
  "url_before_query u =
     (let scheme = (if url_Scheme u \<noteq> [] then url_Scheme u @ '':'' else []) in
      if url_Opaque u \<noteq> [] then scheme @ url_Opaque u
      else (let before = scheme @ url_authority u; path = EscapedPath u;
                slash = (if path \<noteq> [] \<and> hd path \<noteq> CHR ''/'' \<and> url_Host u \<noteq> [] then ''/'' else []);
                dot = (if before @ slash = [] \<and> CHR '':'' \<in> set (fst (Cut_byte (CHR ''/'') path)) then ''./'' else [])
            in before @ slash @ dot @ path))"

definition url_String :: "url \<Rightarrow> string" where
  "url_String u =
     url_before_query u @
     (if url_ForceQuery u \<or> url_RawQuery u \<noteq> [] then ''?'' @ url_RawQuery u else []) @
     (if url_Fragment u \<noteq> [] then ''#'' @ encoded_part EncFragment (url_Fragment u) (url_RawFragment u) else [])"

section \<open>Facts\<close>

text \<open>Decoding undoes encoding, and \<open>Query\<close> undoes \<open>Encode\<close>.\<close>

lemma hex_val_upper_hex: "d < 16 \<Longrightarrow> hex_val (upper_hex d) = Some d"
proof -
  have "\<forall>d\<in>set [0..<16]. hex_val (upper_hex d) = Some d" by code_simp
  then show "d < 16 \<Longrightarrow> hex_val (upper_hex d) = Some d" by simp
qed

definition lenient :: "url_mode \<Rightarrow> bool" where
  "lenient m \<longleftrightarrow> m \<noteq> EncHost \<and> m \<noteq> EncZone"


lemma of_char_div_mod: "(of_char c :: nat) div 16 < 16" "(of_char c :: nat) mod 16 < 16"
  "char_of (16 * (of_char c div 16) + of_char c mod 16 :: nat) = c"
proof -
  have "(of_char c :: nat) < 256" using nat_of_char_less_256 .
  then show "(of_char c :: nat) div 16 < 16" by linarith
qed simp_all

lemma shouldEscape_percent: "shouldEscape (CHR 0x25) m"
proof -
  have "list_all (shouldEscape (CHR 0x25)) [EncPath, EncHost, EncZone, EncUserPassword, EncQuery, EncFragment]"
    by code_simp
  then show ?thesis by (cases m) simp_all
qed

lemma shouldEscape_plus: "shouldEscape (CHR ''+'') EncQuery"
  by code_simp

lemma percent_byte_escape:
  "lenient m \<Longrightarrow> percent_byte m (upper_hex (of_char c div 16) # upper_hex (of_char c mod 16) # r) = Inr (c, r)"
  by (simp add: percent_byte_def lenient_def hex_val_upper_hex of_char_div_mod)

lemma url_unescape_escape_byte:
  assumes "lenient m"
  shows "url_unescape m (escape_byte m c @ r) = map_sum id ((#) c) (url_unescape m r)"
proof (cases "shouldEscape c m")
  case True
  then show ?thesis
    by (cases "c = CHR '' '' \<and> m = EncQuery")
      (simp_all add: escape_byte_def percent_byte_escape [OF assms] plain_byte_def del: of_char_eq_iff)
next
  case False
  then have "c \<noteq> CHR 0x25" "c = CHR ''+'' \<Longrightarrow> m \<noteq> EncQuery"
    using shouldEscape_percent [of m] shouldEscape_plus by auto
  with False assms show ?thesis by (auto simp: escape_byte_def plain_byte_def lenient_def)
qed

lemma url_unescape_escape: "lenient m \<Longrightarrow> url_unescape m (url_escape m s @ t) = map_sum id ((@) s) (url_unescape m t)"
proof (induction s)
  case Nil
  then show ?case by (cases "url_unescape m t") (simp_all add: url_escape_def)
next
  case (Cons c s)
  then show ?case by (simp add: url_escape_def url_unescape_escape_byte sum.map_comp o_def)
qed

lemma url_unescape_escape': "lenient m \<Longrightarrow> url_unescape m (url_escape m s) = Inr s"
  using url_unescape_escape [of m s "[]"] by simp

definition query_safe :: "char \<Rightarrow> bool" where
  "query_safe c \<longleftrightarrow> is_alnum c \<or> c \<in> set (CHR 0x25 # ''-_.~+'')"

lemma upper_hex_alnum: "d < 16 \<Longrightarrow> is_alnum (upper_hex d)"
proof -
  have "\<forall>d\<in>set [0..<16]. is_alnum (upper_hex d)" by code_simp
  then show "d < 16 \<Longrightarrow> is_alnum (upper_hex d)" by simp
qed

lemma QueryEscape_safe: "list_all query_safe (QueryEscape s)"
proof -
  have "list_all query_safe (escape_byte EncQuery c)" for c
    by (auto simp: escape_byte_def query_safe_def upper_hex_alnum of_char_div_mod shouldEscape_def
        url_reserved_def split: if_splits)
  then show ?thesis by (auto simp: QueryEscape_def url_escape_def list_all_iff)
qed

lemma query_safe_special: "\<not> query_safe (CHR ''&'')" "\<not> query_safe (CHR ''='')" "\<not> query_safe (CHR '';'')"
  "\<not> query_safe (CHR ''#'')" "\<not> query_safe (CHR ''?'')"
  by code_simp+


definition settings_of :: "url_values \<Rightarrow> (string \<times> string) list" where
  "settings_of q = concat (map (\<lambda>(k, vs). map (Pair k) vs) q)"

definition print_setting :: "string \<times> string \<Rightarrow> string" where
  "print_setting kv = QueryEscape (fst kv) @ ''='' @ QueryEscape (snd kv)"

lemma values_Encode_settings: "values_Encode q = Join (map print_setting (settings_of (sort_key fst q))) ''&''"
  by (simp add: values_Encode_def settings_of_def print_setting_def map_concat o_def split_def)

lemma Cut_byte_append: "c \<notin> set p \<Longrightarrow> Cut_byte c (p @ c # r) = (p, r)"
  by (induction p) (auto simp: Cut_byte_def)

lemma QueryEscape_free: "\<not> query_safe c \<Longrightarrow> c \<notin> set (QueryEscape s)"
  using QueryEscape_safe [of s] by (auto simp: list_all_iff)

lemma query_setting_print: "query_setting (print_setting kv) = Some kv"
  using query_safe_special
  by (simp add: query_setting_def print_setting_def Cut_byte_append QueryEscape_free)
    (simp add: QueryEscape_def url_unescape_escape' lenient_def)

lemma print_setting_free: "CHR ''&'' \<notin> set (print_setting kv)" "print_setting kv \<noteq> []"
  using query_safe_special by (simp_all add: print_setting_def QueryEscape_free)

lemma query_settings_Encode: "query_settings (values_Encode q) = settings_of (sort_key fst q)"
proof (cases "settings_of (sort_key fst q) = []")
  case True
  then show ?thesis by (simp add: values_Encode_settings query_settings_def List.map_filter_def)
next
  case False
  then have "Split_byte (CHR ''&'') (values_Encode q) = map print_setting (settings_of (sort_key fst q))"
    unfolding values_Encode_settings by (intro Split_byte_Join) (auto simp: list_all_iff print_setting_free)
  then show ?thesis
    by (simp add: query_settings_def List.map_filter_def filter_map o_def print_setting_free query_setting_print)
qed

lemma values_Get_Add: "values_Get (values_Add kv q) k = values_Get q k @ (if fst kv = k then [snd kv] else [])"
  by (simp add: values_Get_def values_Add_def update_conv')

lemma values_Get_fold:
  "values_Get (fold values_Add kvs q) k = values_Get q k @ map snd (filter (\<lambda>kv. fst kv = k) kvs)"
  by (induction kvs arbitrary: q) (simp_all add: values_Get_Add)

lemma settings_of_key:
  "distinct (map fst q) \<Longrightarrow> map snd (filter (\<lambda>kv. fst kv = k) (settings_of q)) = values_Get q k"
proof (induction q)
  case Nil
  then show ?case by (simp add: settings_of_def values_Get_def)
next
  case (Cons kvs q)
  obtain k' vs where kvs: "kvs = (k', vs)" by (cases kvs)
  have vs: "map snd (filter (\<lambda>kv. fst kv = k) (map (Pair k') vs)) = (if k' = k then vs else [])"
    by (induction vs) auto
  have "k' \<notin> fst ` set q" using Cons.prems by (simp add: kvs)
  then have "map_of q k' = None" by (simp add: map_of_eq_None_iff)
  then have "k' = k \<Longrightarrow> values_Get q k = []" by (simp add: values_Get_def)
  moreover have "values_Get ((k', vs) # q) k = (if k' = k then vs else values_Get q k)"
    by (simp add: values_Get_def)
  moreover have "map snd (filter (\<lambda>kv. fst kv = k) (settings_of q)) = values_Get q k"
    using Cons by (simp add: kvs)
  ultimately show ?case
    by (simp add: kvs settings_of_def vs)
qed

lemma url_Query_Encode:
  assumes "distinct (map fst q)"
  shows "values_Get (url_Query (values_Encode q)) k = values_Get q k"
proof -
  have d: "distinct (map fst (sort_key fst q))" using assms by (simp add: distinct_map)
  have m: "map_of (sort_key fst q) = map_of q" using map_of_inject_set [OF d assms] by simp
  have "values_Get (url_Query (values_Encode q)) k = map snd (filter (\<lambda>kv. fst kv = k) (settings_of (sort_key fst q)))"
    by (simp add: url_Query_def query_settings_Encode values_Get_fold) (simp add: values_Get_def)
  also have "\<dots> = values_Get (sort_key fst q) k" by (rule settings_of_key [OF d])
  also have "\<dots> = values_Get q k" by (simp add: values_Get_def m)
  finally show ?thesis .
qed

end
