(* ===== verification/GoJsonPrint.thy ===== *)
theory GoJsonPrint
  imports GoJson
begin

text \<open>
  \<open>json.Marshal\<close> of Go's standard library, from a tree to its compact text: strings with the
  escapes of the encoder (which escapes \<open><\<close>, \<open>>\<close> and \<open>&\<close> too, and the two Unicode line separators),
  objects with their members in the given order. The tree of a Go value is built where the value is
  defined. The facts show that \<open>parse_json\<close> reads back what was printed, with each string
  as valid UTF-8: an invalid byte is printed, and read, as the replacement character.
\<close>

section \<open>Printing\<close>

definition json_escape :: "char \<Rightarrow> string" where
  "json_escape c =
     (let n = (of_char c :: nat) in
      if c = CHR 0x22 \<or> c = CHR 0x5C then [CHR 0x5C, c]
      else if n = 8 then [CHR 0x5C, CHR ''b'']
      else if n = 12 then [CHR 0x5C, CHR ''f'']
      else if n = 10 then [CHR 0x5C, CHR ''n'']
      else if n = 13 then [CHR 0x5C, CHR ''r'']
      else if n = 9 then [CHR 0x5C, CHR ''t'']
      else if n < 32 \<or> c = CHR ''<'' \<or> c = CHR ''>'' \<or> c = CHR ''&''
        then CHR 0x5C # ''u00'' @ [hex_char (n div 16), hex_char (n mod 16)]
      else [c])"

text \<open>A valid multi-byte character: the line separators U+2028 and U+2029 are escaped.\<close>

definition json_rune :: "string \<Rightarrow> string" where
  "json_rune r =
     (if r = [CHR 0xE2, CHR 0x80, CHR 0xA8] then CHR 0x5C # ''u2028''
      else if r = [CHR 0xE2, CHR 0x80, CHR 0xA9] then CHR 0x5C # ''u2029''
      else r)"

function json_chars :: "string \<Rightarrow> string" where
  "json_chars [] = []"
| "json_chars (c # cs) =
     (if c < CHR 0x80 then json_escape c @ json_chars cs
      else if utf8_width (c # cs) = 0 then (CHR 0x5C # ''ufffd'') @ json_chars cs
      else json_rune (take (utf8_width (c # cs)) (c # cs)) @ json_chars (drop (utf8_width (c # cs)) (c # cs)))"
  by pat_completeness auto
termination by (relation "measure length") auto

declare json_chars.simps(2) [simp del]

definition json_quote :: "string \<Rightarrow> string" where
  "json_quote s = CHR 0x22 # json_chars s @ [CHR 0x22]"

fun print_json :: "json \<Rightarrow> string" where
  "print_json JNull = ''null''"
| "print_json (JBool b) = (if b then ''true'' else ''false'')"
| "print_json (JNum n) = n"
| "print_json (JStr s) = json_quote s"
| "print_json (JArr es) = ''['' @ Join (map print_json es) '','' @ '']''"
| "print_json (JObj ms) = ''{'' @ Join (map (\<lambda>(k, v). json_quote k @ '':'' @ print_json v) ms) '','' @ ''}''"

text \<open>The text with every invalid byte replaced.\<close>

function to_utf8 :: "string \<Rightarrow> string" where
  "to_utf8 [] = []"
| "to_utf8 (c # cs) =
     (if utf8_width (c # cs) = 0 then replacement @ to_utf8 cs
      else take (utf8_width (c # cs)) (c # cs) @ to_utf8 (drop (utf8_width (c # cs)) (c # cs)))"
  by pat_completeness auto
termination by (relation "measure length") auto

declare to_utf8.simps(2) [simp del]

section \<open>Strings read back\<close>

lemma hex_val_hex_char: "d < 16 \<Longrightarrow> hex_val (hex_char d) = Some d"
proof -
  have "\<forall>d\<in>set [0..<16]. hex_val (hex_char d) = Some d" by code_simp
  then show "d < 16 \<Longrightarrow> hex_val (hex_char d) = Some d" by simp
qed

lemma utf8_width_ascii: "c < CHR 0x80 \<Longrightarrow> utf8_width (c # cs) = 1"
  by simp

lemma utf8_width_take: "utf8_width s = w \<Longrightarrow> w \<noteq> 0 \<Longrightarrow> utf8_width (take w s @ t) = w"
  by (cases s rule: utf8_width.cases) (auto split: if_splits list.splits)

lemma utf8_width_length: "utf8_width s \<le> length s"
  by (cases s rule: utf8_width.cases) (auto split: if_splits list.splits)

lemma parse_string_u00:
  assumes "(of_char c :: nat) < 128"
  shows "parse_string (CHR 0x5C # ''u00'' @ hex_char (of_char c div 16) # hex_char (of_char c mod 16) # r) =
    map_option (\<lambda>(v, t). (c # v, t)) (parse_string r)"
proof -
  let ?n = "of_char c :: nat"
  have "?n div 16 < 16" "?n mod 16 < 16" using assms by auto
  then have "hex4 (''00'' @ hex_char (?n div 16) # hex_char (?n mod 16) # r) = Some (?n, r)"
    using hex_val_hex_char [of 0] by (simp add: hex_val_hex_char) (simp add: hex_val_def)
  moreover have "unicode_escape ?n r = ([c], r)"
    using assms by (simp add: unicode_escape_def is_surrogate_def encode_rune_def)
  ultimately show ?thesis by (simp add: parse_string.simps(2))
qed

lemma less_char_nat: "c < d \<longleftrightarrow> (of_char c :: nat) < of_char d"
  by (simp add: less_char_def)

lemma json_escape_plain:
  assumes "json_escape c = [c]" and "c < CHR 0x80" and "c \<noteq> CHR 0x22" "c \<noteq> CHR 0x5C"
  shows "\<not> c < CHR 0x20"
  using assms by (auto simp: json_escape_def Let_def less_char_nat split: if_splits)

lemma char_of_eqI: "(of_char c :: nat) = n \<Longrightarrow> c = char_of n"
  by auto

lemma parse_string_escape:
  assumes "c < CHR 0x80"
  shows "parse_string (json_escape c @ r) = map_option (\<lambda>(v, t). (c # v, t)) (parse_string r)"
proof -
  let ?n = "of_char c :: nat"
  have n: "?n < 128" using assms by (simp add: less_char_nat)
  have other: "json_escape c = CHR 0x5C # ''u00'' @ [hex_char (?n div 16), hex_char (?n mod 16)] \<or> json_escape c = [c]"
    if "\<not> (c = CHR 0x22 \<or> c = CHR 0x5C)" "?n \<noteq> 8" "?n \<noteq> 12" "?n \<noteq> 10" "?n \<noteq> 13" "?n \<noteq> 9"
    using that by (simp add: json_escape_def Let_def)
  consider "c = CHR 0x22 \<or> c = CHR 0x5C" | "?n = 8" | "?n = 12" | "?n = 10" | "?n = 13" | "?n = 9"
    | "json_escape c = CHR 0x5C # ''u00'' @ [hex_char (?n div 16), hex_char (?n mod 16)]"
    | "json_escape c = [c]" "c \<noteq> CHR 0x22" "c \<noteq> CHR 0x5C" 
    using other by blast
  then show ?thesis
  proof cases
    case 1
    then show ?thesis by (auto simp: json_escape_def parse_string.simps(2) simple_escape_def)
  next
    case 2
    have "c = CHR 0x08" using char_of_eqI [OF 2] by (simp add: char_of_def bit_0)
    then show ?thesis by (simp add: json_escape_def parse_string.simps(2) simple_escape_def)
  next
    case 3
    have "c = CHR 0x0C" using char_of_eqI [OF 3] by (simp add: char_of_def bit_0)
    then show ?thesis by (simp add: json_escape_def parse_string.simps(2) simple_escape_def)
  next
    case 4
    have "c = CHR 0x0A" using char_of_eqI [OF 4] by (simp add: char_of_def bit_0)
    then show ?thesis by (simp add: json_escape_def parse_string.simps(2) simple_escape_def)
  next
    case 5
    have "c = CHR 0x0D" using char_of_eqI [OF 5] by (simp add: char_of_def bit_0)
    then show ?thesis by (simp add: json_escape_def parse_string.simps(2) simple_escape_def)
  next
    case 6
    have "c = CHR 0x09" using char_of_eqI [OF 6] by (simp add: char_of_def bit_0)
    then show ?thesis by (simp add: json_escape_def parse_string.simps(2) simple_escape_def)
  next
    case 7
    then show ?thesis using parse_string_u00 [OF n, of r] by simp
  next
    case 8
    with json_escape_plain [OF _ assms] utf8_width_ascii [OF assms, of r] show ?thesis
      by (simp add: parse_string.simps(2))
  qed
qed

lemma parse_string_u:
  assumes "hex4 h = Some (u, [])" and "length h = 4" and "\<not> is_surrogate u"
  shows "parse_string (CHR 0x5C # CHR ''u'' # h @ r) =
    map_option (\<lambda>(v, t). (encode_rune u @ v, t)) (parse_string r)"
proof -
  obtain a b c d where h: "h = [a, b, c, d]"
    using assms(2) by (auto simp: length_Suc_conv eval_nat_numeral)
  with assms(1) have "hex4 (h @ r) = Some (u, r)" by (auto split: option.splits)
  with assms(3) show ?thesis by (simp add: parse_string.simps(2) unicode_escape_def)
qed

lemma parse_string_rune:
  assumes "utf8_width s = w" "w \<noteq> 0" "\<not> hd s < CHR 0x80"
  shows "parse_string (json_rune (take w s) @ r) = map_option (\<lambda>(v, t). (take w s @ v, t)) (parse_string r)"
proof -
  obtain c cs where s: "s = c # cs" using assms(1,2) by (cases s) auto
  define t where "t = take w s"
  have w: "utf8_width (t @ r) = w" "length t = w"
    using utf8_width_take [OF assms(1,2)] utf8_width_length [of s] assms(1) by (simp_all add: t_def)
  obtain ts where t: "t = c # ts" using assms(2) s by (cases w) (auto simp: t_def)
  have c: "c \<noteq> CHR 0x22" "c \<noteq> CHR 0x5C" "\<not> c < CHR 0x20"
    using assms(3) s by (auto simp: less_char_nat)
  have plain: "parse_string (t @ r) = map_option (\<lambda>(v, u). (t @ v, u)) (parse_string r)"
  proof -
    have "parse_string (c # (ts @ r)) = map_option (\<lambda>(v, u). (take w (c # (ts @ r)) @ v, u)) (parse_string (drop w (c # (ts @ r))))"
      using w(1) assms(2) c t by (simp add: parse_string.simps(2))
    moreover have "take w (c # (ts @ r)) = t" "drop w (c # (ts @ r)) = r" using w(2) t by auto
    ultimately show ?thesis using t by simp
  qed
  have h: "hex4 ''2028'' = Some (0x2028, [])" "hex4 ''2029'' = Some (0x2029, [])"
    "encode_rune 0x2028 = [CHR 0xE2, CHR 0x80, CHR 0xA8]" "encode_rune 0x2029 = [CHR 0xE2, CHR 0x80, CHR 0xA9]"
    by (simp_all add: hex_val_def encode_rune_def char_of_def bit_0)
  show ?thesis
    using parse_string_u [OF h(1), of r] parse_string_u [OF h(2), of r] plain
    by (simp add: json_rune_def t_def [symmetric] is_surrogate_def h(3,4))
qed

lemma parse_json_chars: "parse_string (json_chars s @ CHR 0x22 # r) = Some (to_utf8 s, r)"
proof (induction s rule: json_chars.induct)
  case 1
  then show ?case by (simp add: parse_string.simps(2))
next
  case (2 c cs)
  let ?w = "utf8_width (c # cs)"
  have f: "hex4 ''fffd'' = Some (0xFFFD, [])" "encode_rune 0xFFFD = replacement"
    by (simp_all add: hex_val_def encode_rune_def replacement_def char_of_def bit_0)
  consider "c < CHR 0x80" | "\<not> c < CHR 0x80" "?w = 0" | "\<not> c < CHR 0x80" "?w \<noteq> 0" by blast
  then show ?case
  proof cases
    case 1
    then show ?thesis
      using "2.IH"(1) parse_string_escape [OF 1] utf8_width_ascii [OF 1, of cs]
      by (simp add: json_chars.simps(2) to_utf8.simps(2))
  next
    case 2
    with "2.IH"(2) parse_string_u [OF f(1), of "json_chars cs @ CHR 0x22 # r"] show ?thesis
      by (simp add: json_chars.simps(2) to_utf8.simps(2) is_surrogate_def f(2) del: utf8_width.simps)
  next
    case 3
    with "2.IH"(3) parse_string_rune [of "c # cs" ?w "json_chars (drop ?w (c # cs)) @ CHR 0x22 # r"] show ?thesis
      by (simp add: json_chars.simps(2) to_utf8.simps(2) del: utf8_width.simps)
  qed
qed

section \<open>Values read back\<close>

text \<open>What may follow a value in a printed text, and the numbers that are read back before it.\<close>

definition value_end :: "string \<Rightarrow> bool" where
  "value_end r \<longleftrightarrow> r = [] \<or> hd r \<in> set '',]}''"

definition json_number :: "string \<Rightarrow> bool" where
  "json_number n \<longleftrightarrow> n \<noteq> [] \<and> (hd n = CHR ''-'' \<or> is_digit (hd n)) \<and>
     (\<forall>r. value_end r \<longrightarrow> parse_number (n @ r) = Some (n, r))"

text \<open>Trees that \<open>parse_json\<close> accepts: their numbers are JSON numbers and they are not nested too deep.\<close>

fun printable :: "nat \<Rightarrow> json \<Rightarrow> bool" where
  "printable d (JNum n) = json_number n"
| "printable d (JArr es) = (0 < d \<and> (\<forall>e\<in>set es. printable (d - 1) e))"
| "printable d (JObj ms) = (0 < d \<and> (\<forall>m\<in>set ms. printable (d - 1) (snd m)))"
| "printable d _ = True"

fun clean_json :: "json \<Rightarrow> json" where
  "clean_json (JStr s) = JStr (to_utf8 s)"
| "clean_json (JArr es) = JArr (map clean_json es)"
| "clean_json (JObj ms) = JObj (map (\<lambda>(k, v). (to_utf8 k, clean_json v)) ms)"
| "clean_json j = j"

definition print_member :: "string \<times> json \<Rightarrow> string" where
  "print_member m = json_quote (fst m) @ '':'' @ print_json (snd m)"

definition clean_member :: "string \<times> json \<Rightarrow> string \<times> json" where
  "clean_member m = (to_utf8 (fst m), clean_json (snd m))"

lemma print_json_obj: "print_json (JObj ms) = ''{'' @ Join (map print_member ms) '','' @ ''}''"
  by (simp add: print_member_def [abs_def] split_def)

lemma clean_json_obj: "clean_json (JObj ms) = JObj (map clean_member ms)"
  by (simp add: clean_member_def [abs_def] split_def)

definition reads_back :: "nat \<Rightarrow> json \<Rightarrow> bool" where
  "reads_back d j \<longleftrightarrow> (\<forall>r f. value_end r \<longrightarrow> 2 * length (print_json j @ r) < f \<longrightarrow>
     parse_value f d (print_json j @ r) = Some (clean_json j, r))"

lemma json_number_start:
  assumes "json_number n"
  shows "hd n \<notin> set (CHR 0x22 # ''{[]}:,ntf'')" and "\<not> is_ws (hd n)"
proof -
  have "c = CHR ''-'' \<or> is_digit c \<Longrightarrow> c \<notin> set (CHR 0x22 # ''{[]}:,ntf'') \<and> \<not> is_ws c" for c
    by (auto simp: is_digit_def is_ws_def less_eq_char_def)
  with assms show "hd n \<notin> set (CHR 0x22 # ''{[]}:,ntf'')" and "\<not> is_ws (hd n)"
    unfolding json_number_def by blast+
qed

lemma print_json_start:
  assumes "printable d j"
  shows "print_json j \<noteq> []" and "\<not> is_ws (hd (print_json j))" and "hd (print_json j) \<noteq> CHR '']''"
proof -
  have "print_json j \<noteq> [] \<and> \<not> is_ws (hd (print_json j)) \<and> hd (print_json j) \<noteq> CHR '']''"
    using assms json_number_start [of "print_json j"]
    by (cases j) (auto simp: json_quote_def is_ws_def json_number_def)
  then show "print_json j \<noteq> []" and "\<not> is_ws (hd (print_json j))" and "hd (print_json j) \<noteq> CHR '']''"
    by blast+
qed

lemma skip_ws_start: "s \<noteq> [] \<Longrightarrow> \<not> is_ws (hd s) \<Longrightarrow> skip_ws (s @ r) = s @ r"
  by (cases s) (auto simp: skip_ws_def)

lemma skip_ws_mark: "\<not> is_ws c \<Longrightarrow> skip_ws (c # s) = c # s"
  by (simp add: skip_ws_def)

lemma not_ws: "\<not> is_ws (CHR '','')" "\<not> is_ws (CHR '']'')" "\<not> is_ws (CHR ''}'')" "\<not> is_ws (CHR '':'')" "\<not> is_ws (CHR 0x22)"
  by (simp_all add: is_ws_def)


lemma parse_elems_print:
  assumes "\<forall>e\<in>set es. reads_back d e \<and> printable d e" and "es \<noteq> []"
    and "2 * length (Join (map print_json es) '','' @ '']'' @ r) + 1 < f"
  shows "parse_elems f d (Join (map print_json es) '','' @ '']'' @ r) = Some (map clean_json es, r)"
  using assms
proof (induction es arbitrary: f)
  case Nil
  then show ?case by simp
next
  case (Cons e es)
  obtain g where g: "f = Suc g" using Cons.prems(3) by (cases f) auto
  let ?t = "(if es = [] then '']'' @ r else '','' @ Join (map print_json es) '','' @ '']'' @ r)"
  have whole: "Join (map print_json (e # es)) '','' @ '']'' @ r = print_json e @ ?t"
    by (cases es) auto
  have e: "reads_back d e" "value_end ?t" using Cons.prems(1) by (auto simp: value_end_def)
  have "2 * length (print_json e @ ?t) < g" using Cons.prems(3) unfolding whole g by simp
  with e have v: "parse_value g d (print_json e @ ?t) = Some (clean_json e, ?t)" by (simp add: reads_back_def)
  show ?case
  proof (cases "es = []")
    case True
    then show ?thesis unfolding whole using v by (simp add: g parse_elems.simps(2) skip_ws_mark not_ws)
  next
    case False
    let ?j = "Join (map print_json es) '',''"
    have p: "?j \<noteq> []" "\<not> is_ws (hd ?j)"
      using False Cons.prems(1) print_json_start by (cases es; cases "tl es"; fastforce)+
    have "2 * length (?j @ '']'' @ r) + 1 < g" using Cons.prems(3) False unfolding whole g by simp
    then have "parse_elems g d (?j @ '']'' @ r) = Some (map clean_json es, r)"
      using Cons False by simp
    then show ?thesis unfolding whole using v False skip_ws_start [OF p, of "'']'' @ r"]
      by (simp add: g parse_elems.simps(2) skip_ws_mark not_ws)
  qed
qed


lemma Join_Cons_if: "Join (map g (x # xs)) '','' @ c # r = g x @ (if xs = [] then c # r else CHR '','' # (Join (map g xs) '','' @ c # r))"
  by (cases xs) auto

lemma print_member_start: "print_member m \<noteq> []" "\<not> is_ws (hd (print_member m))" "hd (print_member m) = CHR 0x22"
  by (simp_all add: print_member_def json_quote_def is_ws_def)

lemma Join_start: "xs \<noteq> [] \<Longrightarrow> (\<And>x. x \<in> set xs \<Longrightarrow> g x \<noteq> []) \<Longrightarrow> Join (map g xs) '','' \<noteq> [] \<and> hd (Join (map g xs) '','') = hd (g (hd xs))"
  by (cases xs; cases "tl xs") auto

lemma parse_members_print:
  assumes "\<forall>m\<in>set ms. reads_back d (snd m) \<and> printable d (snd m)" and "ms \<noteq> []"
    and "2 * length (Join (map print_member ms) '','' @ ''}'' @ r) + 1 < f"
  shows "parse_members f d (Join (map print_member ms) '','' @ ''}'' @ r) = Some (map clean_member ms, r)"
  using assms
proof (induction ms arbitrary: f)
  case Nil
  then show ?case by simp
next
  case (Cons m ms)
  obtain g where g: "f = Suc g" using Cons.prems(3) by (cases f) auto
  let ?t = "(if ms = [] then CHR ''}'' # r else CHR '','' # (Join (map print_member ms) '','' @ CHR ''}'' # r))"
  let ?v = "print_json (snd m) @ ?t"
  have whole: "Join (map print_member (m # ms)) '','' @ ''}'' @ r =
      CHR 0x22 # json_chars (fst m) @ CHR 0x22 # CHR '':'' # ?v"
    using Join_Cons_if [of print_member m ms "CHR ''}''" r] by (simp add: print_member_def json_quote_def)
  have m: "reads_back d (snd m)" "value_end ?t" "printable d (snd m)" using Cons.prems(1) by (auto simp: value_end_def)
  have "2 * length ?v < g" using Cons.prems(3) unfolding whole g by simp
  with m have v: "parse_value g d ?v = Some (clean_json (snd m), ?t)" by (simp only: reads_back_def)
  have ws: "skip_ws ?v = ?v" by (rule skip_ws_start [OF print_json_start(1,2) [OF m(3)]])
  note step = parse_members.simps(2) [of g d "CHR 0x22 # json_chars (fst m) @ CHR 0x22 # CHR '':'' # ?v"]
  show ?case
  proof (cases "ms = []")
    case True
    then show ?thesis unfolding whole g step using v ws
      by (simp add: parse_json_chars skip_ws_mark not_ws clean_member_def)
  next
    case False
    let ?j = "Join (map print_member ms) '',''"
    have p: "?j \<noteq> []" "\<not> is_ws (hd ?j)"
      using Join_start [OF False, of print_member] print_member_start by metis+
    have "2 * length (?j @ ''}'' @ r) + 1 < g" using Cons.prems(3) False unfolding whole g by simp
    then have rest: "parse_members g d (?j @ ''}'' @ r) = Some (map clean_member ms, r)"
      using Cons.IH Cons.prems(1) False by simp
    from skip_ws_start [OF p, of "''}'' @ r"] rest v ws False show ?thesis unfolding whole g step
      by (simp add: parse_json_chars skip_ws_mark not_ws clean_member_def)
  qed
qed

lemma reads_backI:
  assumes "\<And>g r. value_end r \<Longrightarrow> parse_value (Suc g) d (print_json j @ r) = Some (clean_json j, r)"
  shows "reads_back d j"
  unfolding reads_back_def
proof (intro allI impI)
  fix r f assume "value_end r" "2 * length (print_json j @ r) < f"
  then show "parse_value f d (print_json j @ r) = Some (clean_json j, r)"
    using assms by (cases f) auto
qed

lemma reads_back_printable: "printable d j \<Longrightarrow> reads_back d j"
proof (induction j arbitrary: d)
  case JNull
  show ?case by (rule reads_backI) (simp add: parse_value.simps(2))
next
  case (JBool b)
  show ?case by (rule reads_backI) (simp add: parse_value.simps(2))
next
  case (JNum n)
  show ?case
  proof (rule reads_backI)
    fix g r assume "value_end r"
    from JNum have num: "json_number n" by simp
    then obtain c cs where n: "n = c # cs" by (cases n) (auto simp: json_number_def)
    with json_number_start(1) [OF num] have "c \<notin> set (CHR 0x22 # ''{[]}:,ntf'')" by simp
    moreover have "parse_number (n @ r) = Some (n, r)" using num \<open>value_end r\<close> by (simp add: json_number_def)
    ultimately show "parse_value (Suc g) d (print_json (JNum n) @ r) = Some (clean_json (JNum n), r)"
      by (auto simp: parse_value.simps(2) n)
  qed
next
  case (JStr s)
  show ?case by (rule reads_backI) (simp add: parse_value.simps(2) json_quote_def parse_json_chars)
next
  case (JArr es)
  show ?case unfolding reads_back_def
  proof (intro allI impI)
    fix r f assume f: "2 * length (print_json (JArr es) @ r) < f"
    then obtain g where g: "f = Suc g" by (cases f) auto
    from JArr.prems have d: "0 < d" "\<forall>e\<in>set es. printable (d - 1) e" by simp_all
    show "parse_value f d (print_json (JArr es) @ r) = Some (clean_json (JArr es), r)"
    proof (cases "es = []")
      case True
      then show ?thesis using d(1) by (simp add: g parse_value.simps(2) skip_ws_mark not_ws)
    next
      case False
      let ?j = "Join (map print_json es) '',''"
      have p: "?j \<noteq> []" "\<not> is_ws (hd ?j)" "hd ?j \<noteq> CHR '']''"
        using Join_start [OF False, of print_json] d(2) print_json_start False by (metis list.set_sel(1))+
      have "parse_elems g (d - 1) (?j @ '']'' @ r) = Some (map clean_json es, r)"
        by (rule parse_elems_print) (use JArr.IH d(2) False f g in auto)
      with p skip_ws_start [OF p(1,2), of "'']'' @ r"] d(1) show ?thesis
        by (cases ?j) (simp_all add: g parse_value.simps(2))
    qed
  qed
next
  case (JObj ms)
  show ?case unfolding reads_back_def
  proof (intro allI impI)
    fix r f assume f: "2 * length (print_json (JObj ms) @ r) < f"
    then obtain g where g: "f = Suc g" by (cases f) auto
    from JObj.prems have d: "0 < d" "\<forall>m\<in>set ms. printable (d - 1) (snd m)" by simp_all
    show "parse_value f d (print_json (JObj ms) @ r) = Some (clean_json (JObj ms), r)"
    proof (cases "ms = []")
      case True
      then show ?thesis using d(1) by (simp add: g parse_value.simps(2) skip_ws_mark not_ws)
    next
      case False
      let ?j = "Join (map print_member ms) '',''"
      have p: "?j \<noteq> []" "\<not> is_ws (hd ?j)" "hd ?j \<noteq> CHR ''}''"
        using Join_start [OF False, of print_member] print_member_start by (simp_all add: is_ws_def)
      have "parse_members g (d - 1) (?j @ ''}'' @ r) = Some (map clean_member ms, r)"
        by (rule parse_members_print) (use JObj.IH d(2) False f g in \<open>auto simp: print_json_obj simp del: print_json.simps(6)\<close>)
      with p skip_ws_start [OF p(1,2), of "''}'' @ r"] d(1) show ?thesis
        unfolding print_json_obj clean_json_obj
        by (cases ?j) (simp_all add: g parse_value.simps(2))
    qed
  qed
qed

lemma parse_print_json:
  assumes "printable max_nesting j"
  shows "parse_json (print_json j) = Some (clean_json j)"
proof -
  have "skip_ws (print_json j) = print_json j"
    using skip_ws_start [OF print_json_start(1,2) [OF assms], of "[]"] by simp
  moreover have "parse_value (2 * length (print_json j) + 2) max_nesting (print_json j @ []) = Some (clean_json j, [])"
    using reads_back_printable [OF assms] unfolding reads_back_def by (simp add: value_end_def)
  ultimately show ?thesis by (simp add: parse_json_def skip_ws_def)
qed


text \<open>Decimal numbers, as the encoder prints integers, are JSON numbers.\<close>

lemma nat_dec_digits: "nat_dec n \<noteq> [] \<and> list_all is_digit (nat_dec n)"
proof (induction n rule: nat_dec.induct)
  case (1 n)
  have d: "is_digit (digit_char m)" if "m < 10" for m
  proof -
    have "\<forall>m\<in>set [0..<10]. is_digit (digit_char m)" by code_simp
    with that show ?thesis by simp
  qed
  with 1 show ?case by (cases "n < 10") (simp_all add: nat_dec.simps [of n])
qed

lemma nat_dec_leading: "nat_dec n = CHR ''0'' # r \<Longrightarrow> r = []"
proof (induction n arbitrary: r rule: nat_dec.induct)
  case (1 n)
  show ?case
  proof (cases "n < 10")
    case True
    then show ?thesis using 1 by (simp add: nat_dec.simps [of n])
  next
    case False
    let ?q = "nat_dec (n div 10)"
    obtain c cs where q: "?q = c # cs" using nat_dec_digits [of "n div 10"] by (cases ?q) auto
    with False 1(2) have "c = CHR ''0''" by (simp add: nat_dec.simps [of n])
    with q False 1(1) have "?q = ''0''" by simp
    moreover have "?q \<noteq> ''0''"
    proof
      assume *: "?q = ''0''"
      show False
      proof (cases "n div 10 < 10")
        case True
        have "\<forall>m\<in>set [1..<10]. digit_char m \<noteq> CHR ''0''" by code_simp
        with True False * show False by (simp add: nat_dec.simps [of "n div 10"])
      next
        case f: False
        with * nat_dec_digits [of "n div 10 div 10"] show False
          by (simp add: nat_dec.simps [of "n div 10"])
      qed
    qed
    ultimately show ?thesis by simp
  qed
qed

lemma value_end_digit: "value_end r \<Longrightarrow> takeWhile is_digit r = [] \<and> dropWhile is_digit r = r"
  by (cases r) (auto simp: value_end_def is_digit_def less_eq_char_def)

lemma json_number_nat_dec: "json_number (nat_dec n)" "json_number (CHR ''-'' # nat_dec n)"
proof -
  let ?s = "nat_dec n"
  obtain c cs where s: "?s = c # cs" using nat_dec_digits [of n] by (cases ?s) auto
  have c: "is_digit c" "list_all is_digit cs" using nat_dec_digits [of n] s by simp_all
  then have "c \<noteq> CHR ''-''" by (auto simp: is_digit_def less_eq_char_def)
  have int: "take_int (?s @ r) = Some (?s, r)" if "value_end r" for r
  proof (cases "c = CHR ''0''")
    case True
    with nat_dec_leading [of n cs] s show ?thesis by (simp add: take_int_def)
  next
    case False
    have "takeWhile is_digit (cs @ r) = cs" "dropWhile is_digit (cs @ r) = r"
      using c(2) value_end_digit [OF that] by (simp_all add: takeWhile_append2 dropWhile_append2 list_all_iff)
    with False c s show ?thesis by (simp add: take_int_def take_digits_def Let_def)
  qed
  have tail: "take_frac r = Some ([], r)" "take_exp r = Some ([], r)" if "value_end r" for r
    using that by (cases r; auto simp: value_end_def take_frac_def take_exp_def)+
  from int tail c(1) \<open>c \<noteq> CHR ''-''\<close> s show "json_number ?s" "json_number (CHR ''-'' # ?s)"
    by (simp_all add: json_number_def parse_number_def)
qed

lemma json_number_int_dec: "json_number (int_dec i)"
  by (simp add: int_dec_def json_number_nat_dec)

end
