(* ===== verification/Auth.thy ===== *)
theory Auth
  imports KubeService GoUrl GoJsonPrint
begin

text \<open>
  The agent's identity (\<open>internal/auth\<close>): the credentials kept in a Kubernetes Secret
  (\<open>credentials.go\<close>), the registration with a one-time token (\<open>registration.go\<close>,
  \<open>registration_token_source.go\<close>) and the bootstrap that chooses between them (\<open>bootstrap.go\<close>).

  The Secrets API, the classification of its errors and the HTTP client are code outside the
  repository: \<open>secrets_api\<close>, a predicate on errors and a function \<open>http\<close>, over a world \<open>'w\<close>. A Secret is its
  name and its data (\<open>None\<close> for a nil map); what else it holds is the extension of the record.
  The locale \<open>credential_store\<close> is what \<open>Bootstrap\<close> relies on; it is interpreted on the
  Kubernetes store, for every API.
\<close>

section \<open>Identities\<close>

record Identity =
  id_AgentID :: string
  id_ClusterID :: string
  id_Token :: string
  id_GatewayURL :: string

definition zero_identity :: Identity where
  "zero_identity = \<lparr>id_AgentID = [], id_ClusterID = [], id_Token = [], id_GatewayURL = []\<rparr>"

definition Identity_Valid :: "Identity \<Rightarrow> bool" where
  "Identity_Valid i \<longleftrightarrow> id_Token i \<noteq> []"

section \<open>The credentials Secret\<close>

definition AgentIDKey :: string where "AgentIDKey = ''agent_id''"
definition AgentTokenKey :: string where "AgentTokenKey = ''agent_token''"
definition legacyAgentTokenKey :: string where "legacyAgentTokenKey = ''agent-token''"
definition legacyRegistrationTokenKey :: string where "legacyRegistrationTokenKey = ''registration-token''"

lemmas key_defs = AgentIDKey_def AgentTokenKey_def legacyAgentTokenKey_def legacyRegistrationTokenKey_def

record k8s_secret =
  secret_Name :: string
  secret_Data :: "(string \<rightharpoonup> string) option"

record 'w secrets_api =
  secrets_get :: "go_ctx \<Rightarrow> string \<Rightarrow> string \<Rightarrow> ('w, k8s_secret) api"
  secrets_update :: "go_ctx \<Rightarrow> string \<Rightarrow> k8s_secret \<Rightarrow> ('w, k8s_secret) api"
  secrets_missing :: "go_error \<Rightarrow> bool"

text \<open>Reading a key of the data: a missing key, or a nil map, gives the empty text.\<close>

definition secret_value :: "k8s_secret \<Rightarrow> string \<Rightarrow> string" where
  "secret_value s k = (case secret_Data s of None \<Rightarrow> [] | Some d \<Rightarrow> (case d k of None \<Rightarrow> [] | Some v \<Rightarrow> v))"

record 'w CredentialStore =
  store_secrets :: "'w secrets_api"
  store_namespace :: string
  store_name :: string

definition missing_secret :: "string \<Rightarrow> go_error" where
  "missing_secret name = ErrorString (''credentials secret '' @ go_quote name @
     '' is missing; reapply the Helm release before registering'')"

definition Credentials_Load :: "'w CredentialStore \<Rightarrow> go_ctx \<Rightarrow> ('w, Identity) api" where
  "Credentials_Load s ctx w =
     (case secrets_get (store_secrets s) ctx (store_namespace s) (store_name s) w of
        (w', Inl e) \<Rightarrow>
          if secrets_missing (store_secrets s) e then (w', Inl (missing_secret (store_name s)))
          else (w', Inl (wrapf ''read credentials secret'' e))
      | (w', Inr secret) \<Rightarrow>
          let identity = zero_identity\<lparr>id_AgentID := secret_value secret AgentIDKey,
                id_Token := secret_value secret AgentTokenKey\<rparr>
          in if id_AgentID identity = [] \<and> id_Token identity = [] then (w', Inr zero_identity)
             else if id_AgentID identity = [] \<or> id_Token identity = []
               then (w', Inl (ErrorString (''credentials secret '' @ go_quote (store_name s) @ '' is incomplete'')))
             else (w', Inr identity))"

text \<open>The data that \<open>Save\<close> writes: the identity, the other keys as they were, and no token of a registration.\<close>

definition saved_data :: "Identity \<Rightarrow> (string \<rightharpoonup> string) option \<Rightarrow> (string \<rightharpoonup> string)" where
  "saved_data i data =
     ((case data of None \<Rightarrow> Map.empty | Some d \<Rightarrow> d)
        (AgentIDKey \<mapsto> id_AgentID i, AgentTokenKey \<mapsto> id_Token i))
        (legacyAgentTokenKey := None, legacyRegistrationTokenKey := None)"

definition Credentials_Save :: "'w CredentialStore \<Rightarrow> go_ctx \<Rightarrow> Identity \<Rightarrow> 'w \<Rightarrow> 'w \<times> go_error option" where
  "Credentials_Save s ctx identity w =
     (if id_AgentID identity = [] \<or> id_Token identity = []
      then (w, Some (ErrorString ''refusing to persist incomplete agent credentials''))
      else case secrets_get (store_secrets s) ctx (store_namespace s) (store_name s) w of
             (w', Inl e) \<Rightarrow>
               if secrets_missing (store_secrets s) e then (w', Some (missing_secret (store_name s)))
               else (w', Some (wrapf ''read credentials secret before update'' e))
           | (w', Inr secret) \<Rightarrow>
               (case secrets_update (store_secrets s) ctx (store_namespace s)
                       (secret\<lparr>secret_Data := Some (saved_data identity (secret_Data secret))\<rparr>) w' of
                  (w'', Inl e) \<Rightarrow> (w'', Some (wrapf ''update credentials secret'' e))
                | (w'', Inr _) \<Rightarrow> (w'', None)))"

section \<open>The registration token\<close>

definition TokenSource_Load :: "'w CredentialStore \<Rightarrow> go_ctx \<Rightarrow> ('w, string) api" where
  "TokenSource_Load s ctx w =
     (case secrets_get (store_secrets s) ctx (store_namespace s) (store_name s) w of
        (w', Inl e) \<Rightarrow>
          if secrets_missing (store_secrets s) e then (w', Inr [])
          else (w', Inl (wrapf ''read registration Secret'' e))
      | (w', Inr secret) \<Rightarrow> (w', Inr (secret_value secret ''registration-token'')))"

section \<open>Registration\<close>

record Registrar =
  reg_platformURL :: string
  reg_registrationToken :: string

definition NewRegistrar :: "string \<Rightarrow> string \<Rightarrow> Registrar" where
  "NewRegistrar platformURL registrationToken =
     \<lparr>reg_platformURL = platformURL, reg_registrationToken = registrationToken\<rparr>"

text \<open>\<open>errors.As\<close> finds the registration error anywhere in the chain.\<close>

definition IsPermanentRegistrationError :: "go_error \<Rightarrow> bool" where
  "IsPermanentRegistrationError e \<longleftrightarrow>
     (case as_registration_http e of
        None \<Rightarrow> False
      | Some code \<Rightarrow> 400 \<le> code \<and> code < 500 \<and> code \<noteq> 429)"

record http_request =
  req_Method :: string
  req_URL :: url
  req_Headers :: "(string \<times> string) list"
  req_Body :: string

text \<open>A response: the status, the bytes of the body and the error that ends them, if any.\<close>

record http_response =
  res_StatusCode :: int
  res_Body :: string
  res_Error :: "go_error option"

type_synonym 'w http_client = "go_ctx \<Rightarrow> http_request \<Rightarrow> ('w, http_response) api"

definition registration_body :: "string \<Rightarrow> string \<Rightarrow> string \<Rightarrow> json" where
  "registration_body token clusterName version =
     JObj [(''registration_token'', JStr token), (''cluster_name'', JStr clusterName), (''agent_version'', JStr version)]"

definition registration_response :: "Identity decoder" where
  "registration_response = dec_struct ''auth.registrationResponse''
     [(''agent_id'', on_field id_AgentID (\<lambda>v s. s\<lparr>id_AgentID := v\<rparr>) dec_string),
      (''cluster_id'', on_field id_ClusterID (\<lambda>v s. s\<lparr>id_ClusterID := v\<rparr>) dec_string),
      (''agent_token'', on_field id_Token (\<lambda>v s. s\<lparr>id_Token := v\<rparr>) dec_string),
      (''gateway_url'', on_field id_GatewayURL (\<lambda>v s. s\<lparr>id_GatewayURL := v\<rparr>) dec_string)]"

text \<open>
  \<open>json.NewDecoder(io.LimitReader(body, 1 << 20)).Decode\<close>: the first value of the body is decoded and
  what follows it is not looked at. A body that ends before it, or a value that is no JSON, is an error.
\<close>

definition decode_first :: "'s decoder \<Rightarrow> 's \<Rightarrow> http_response \<Rightarrow> 's go_result" where
  "decode_first dec zero res =
     (let s = skip_ws (take (2 ^ 20) (res_Body res)) in
      case parse_value (2 * length s + 2) max_nesting s of
        Some (j, _) \<Rightarrow> unmarshal_value dec zero j
      | None \<Rightarrow> Inl (case res_Error res of None \<Rightarrow> JsonSyntaxError | Some e \<Rightarrow> e))"

definition Register :: "'w http_client \<Rightarrow> Registrar \<Rightarrow> go_ctx \<Rightarrow> string \<Rightarrow> string \<Rightarrow> ('w, Identity) api" where
  "Register http r ctx clusterName version w =
     (case url_Parse (reg_platformURL r @ ''/api/v1/agents/register'') of
        Inl e \<Rightarrow> (w, Inl e)
      | Inr u \<Rightarrow>
          (case http ctx
                  \<lparr>req_Method = ''POST'', req_URL = u,
                   req_Headers =
                     [(''Authorization'', ''Bearer '' @ reg_registrationToken r),
                      (''Content-Type'', ''application/json''),
                      (''User-Agent'', ''incidentflow-k8s-agent/'' @ version)],
                   req_Body = print_json (registration_body (reg_registrationToken r) clusterName version)\<rparr> w of
             (w', Inl e) \<Rightarrow> (w', Inl e)
           | (w', Inr res) \<Rightarrow>
               if res_StatusCode res < 200 \<or> 300 \<le> res_StatusCode res
               then (w', Inl (RegistrationHTTPError (res_StatusCode res)))
               else (case decode_first registration_response zero_identity res of
                       Inl e \<Rightarrow> (w', Inl e)
                     | Inr decoded \<Rightarrow>
                         if id_Token decoded = []
                         then (w', Inl (ErrorString ''registration response did not include agent_token''))
                         else (w', Inr decoded))))"

section \<open>Bootstrap\<close>

text \<open>The store and the registration client are arguments, as in the code.\<close>

definition Bootstrap ::
  "(go_ctx \<Rightarrow> ('w, Identity) api) \<Rightarrow> (go_ctx \<Rightarrow> Identity \<Rightarrow> 'w \<Rightarrow> 'w \<times> go_error option) \<Rightarrow>
   (go_ctx \<Rightarrow> string \<Rightarrow> string \<Rightarrow> ('w, Identity) api) \<Rightarrow>
   go_ctx \<Rightarrow> string \<Rightarrow> string \<Rightarrow> string \<Rightarrow> ('w, Identity \<times> bool) api" where
  "Bootstrap load save register ctx registrationToken clusterName version w =
     (case load ctx w of
        (w1, Inl e) \<Rightarrow> (w1, Inl e)
      | (w1, Inr identity) \<Rightarrow>
          if Identity_Valid identity then (w1, Inr (identity, False))
          else if registrationToken = []
            then (w1, Inl (ErrorString ''agent credentials are absent; a registration token is required''))
          else (case register ctx clusterName version w1 of
                  (w2, Inl e) \<Rightarrow> (w2, Inl e)
                | (w2, Inr identity) \<Rightarrow>
                    if id_AgentID identity = [] \<or> \<not> Identity_Valid identity
                    then (w2, Inl (ErrorString ''registration response did not include complete agent credentials''))
                    else (case save ctx identity w2 of
                            (w3, Some e) \<Rightarrow> (w3, Inl e)
                          | (w3, None) \<Rightarrow> (w3, Inr (identity, True)))))"

section \<open>The store as an interface\<close>

definition complete :: "Identity \<Rightarrow> bool" where
  "complete i \<longleftrightarrow> id_AgentID i \<noteq> [] \<and> id_Token i \<noteq> []"

text \<open>
  What \<open>Bootstrap\<close> relies on: the store returns either complete credentials or none at all, and
  it never keeps incomplete ones.
\<close>

locale credential_store =
  fixes load :: "go_ctx \<Rightarrow> ('w, Identity) api"
    and save :: "go_ctx \<Rightarrow> Identity \<Rightarrow> 'w \<Rightarrow> 'w \<times> go_error option"
  assumes load_complete: "load ctx w = (w', Inr i) \<Longrightarrow> i = zero_identity \<or> complete i"
    and save_complete: "save ctx i w = (w', None) \<Longrightarrow> complete i"
    and save_refuses: "\<not> complete i \<Longrightarrow> fst (save ctx i w) = w"
begin

lemma valid_iff_complete: "load ctx w = (w', Inr i) \<Longrightarrow> Identity_Valid i \<longleftrightarrow> complete i"
  using load_complete [of ctx w w' i] by (auto simp: Identity_Valid_def complete_def zero_identity_def)

lemma bootstrap_returns:
  "Bootstrap load save register ctx token c v w = (w', Inr (i, registered)) \<longleftrightarrow>
     (if registered
      then token \<noteq> [] \<and> complete i \<and>
        (\<exists>w1 w2. load ctx w = (w1, Inr zero_identity) \<and> register ctx c v w1 = (w2, Inr i) \<and> save ctx i w2 = (w', None))
      else load ctx w = (w', Inr i) \<and> complete i)"
proof (cases "load ctx w")
  case (Pair w1 r)
  show ?thesis
  proof (cases r)
    case (Inl e)
    with Pair show ?thesis by (auto simp: Bootstrap_def)
  next
    case (Inr j)
    note l = Pair [unfolded Inr]
    have "j = zero_identity \<or> complete j" by (rule load_complete [OF l])
    with l valid_iff_complete [OF l] show ?thesis
      by (auto simp: Bootstrap_def complete_def zero_identity_def Identity_Valid_def
          split: prod.splits sum.splits option.splits if_splits)
  qed
qed

end

lemma Credentials_Load_complete:
  "Credentials_Load s ctx w = (w', Inr i) \<Longrightarrow> i = zero_identity \<or> complete i"
  by (auto simp: Credentials_Load_def complete_def Let_def split: prod.splits sum.splits if_splits)

interpretation kube_credentials: credential_store "Credentials_Load s" "Credentials_Save s" for s
  by unfold_locales
    (auto simp: Credentials_Save_def complete_def split: prod.splits sum.splits if_splits
      dest: Credentials_Load_complete [unfolded complete_def])

text \<open>
  The documented behaviour of the Secrets API that the round trip needs: a Secret is returned under the name
  asked for, and while nobody else writes it, a read after a successful update finds the data of the update.
\<close>

definition secrets_contract :: "'w secrets_api \<Rightarrow> string \<Rightarrow> bool" where
  "secrets_contract api ns \<longleftrightarrow>
     (\<forall>ctx name w w' s. secrets_get api ctx ns name w = (w', Inr s) \<longrightarrow> secret_Name s = name) \<and>
     (\<forall>ctx ctx' s w w' r w'' s'. secrets_update api ctx ns s w = (w', Inr r) \<longrightarrow>
        secrets_get api ctx' ns (secret_Name s) w' = (w'', Inr s') \<longrightarrow> secret_Data s' = secret_Data s)"

lemma saved_data_values:
  "saved_data i d AgentIDKey = Some (id_AgentID i)" "saved_data i d AgentTokenKey = Some (id_Token i)"
  "saved_data i d legacyAgentTokenKey = None" "saved_data i d legacyRegistrationTokenKey = None"
  by (simp_all add: saved_data_def key_defs)

lemma Save_written:
  assumes "Credentials_Save s ctx i w = (w', None)"
  obtains w1 secret r where "secrets_get (store_secrets s) ctx (store_namespace s) (store_name s) w = (w1, Inr secret)"
    and "secrets_update (store_secrets s) ctx (store_namespace s)
      (secret\<lparr>secret_Data := Some (saved_data i (secret_Data secret))\<rparr>) w1 = (w', Inr r)"
    and "complete i"
  using assms by (auto simp: Credentials_Save_def complete_def split: if_splits prod.splits sum.splits)

lemma Load_saved:
  assumes "secrets_contract (store_secrets s) (store_namespace s)"
    and "Credentials_Save s ctx i w = (w', None)" and "Credentials_Load s ctx' w' = (w'', r)"
    and "\<And>e. secrets_get (store_secrets s) ctx' (store_namespace s) (store_name s) w' \<noteq> (w'', Inl e)"
  shows "r = Inr (zero_identity\<lparr>id_AgentID := id_AgentID i, id_Token := id_Token i\<rparr>)"
proof -
  obtain w1 secret q where g: "secrets_get (store_secrets s) ctx (store_namespace s) (store_name s) w = (w1, Inr secret)"
    and u: "secrets_update (store_secrets s) ctx (store_namespace s)
      (secret\<lparr>secret_Data := Some (saved_data i (secret_Data secret))\<rparr>) w1 = (w', Inr q)"
    and c: "complete i"
    using Save_written [OF assms(2)] by blast
  from assms(1) g have n: "secret_Name secret = store_name s" unfolding secrets_contract_def by blast
  obtain v t where t: "secrets_get (store_secrets s) ctx' (store_namespace s) (store_name s) w' = (v, t)"
    by (cases "secrets_get (store_secrets s) ctx' (store_namespace s) (store_name s) w'")
  show ?thesis
  proof (cases t)
    case (Inl e)
    with t assms(3) have "v = w''" by (auto simp: Credentials_Load_def split: if_splits)
    with assms(4) t Inl show ?thesis by blast
  next
    case (Inr secret')
    with assms(1) u t n have "secret_Data secret' = Some (saved_data i (secret_Data secret))"
      unfolding secrets_contract_def by fastforce
    with assms(3) t Inr c show ?thesis
      by (auto simp: Credentials_Load_def Let_def secret_value_def saved_data_values complete_def split: if_splits)
  qed
qed


lemma registration_body_reads_back:
  "parse_json (print_json (registration_body token c v)) =
     Some (registration_body (to_utf8 token) (to_utf8 c) (to_utf8 v))"
proof -
  have "printable max_nesting (registration_body token c v)"
    by (simp add: registration_body_def max_nesting_def)
  moreover have "to_utf8 ''registration_token'' = ''registration_token''" "to_utf8 ''cluster_name'' = ''cluster_name''"
    "to_utf8 ''agent_version'' = ''agent_version''"
    by code_simp+
  ultimately show ?thesis using parse_print_json [of "registration_body token c v"]
    by (simp add: registration_body_def del: print_json.simps)
qed

section \<open>Properties\<close>

text \<open>
  C31: what \<open>Bootstrap\<close> returns with the Kubernetes store, whatever the API, the platform and the token are.
  Stored credentials are used as they are, without a registration; otherwise the identity was registered
  with a token, is complete, and was saved before it is returned. Nothing else is a success.
\<close>

theorem bootstrap_outcome:
  "Bootstrap (Credentials_Load s) (Credentials_Save s) (Register http r) ctx token c v w = (w', Inr (i, registered)) \<longleftrightarrow>
     (if registered
      then token \<noteq> [] \<and> complete i \<and>
        (\<exists>w1 w2. Credentials_Load s ctx w = (w1, Inr zero_identity) \<and> Register http r ctx c v w1 = (w2, Inr i) \<and>
           Credentials_Save s ctx i w2 = (w', None))
      else Credentials_Load s ctx w = (w', Inr i) \<and> complete i)"
  by (rule kube_credentials.bootstrap_returns)

text \<open>
  C32: credentials that were saved are loaded again, by this agent after a restart or by another: the id and the
  token survive. The cluster id and the gateway URL of the registration do not: they come back empty.
\<close>

theorem credentials_roundtrip:
  assumes "secrets_contract (store_secrets s) (store_namespace s)"
    and "Credentials_Save s ctx i w = (w', None)" and "Credentials_Load s ctx' w' = (w'', r)"
    and "\<And>e. secrets_get (store_secrets s) ctx' (store_namespace s) (store_name s) w' \<noteq> (w'', Inl e)"
  shows "r = Inr \<lparr>id_AgentID = id_AgentID i, id_ClusterID = [], id_Token = id_Token i, id_GatewayURL = []\<rparr>"
  using Load_saved [OF assms] by (simp add: zero_identity_def)

text \<open>An API that serves one Secret, whose data is the world.\<close>

definition example_secrets :: "(string \<rightharpoonup> string) option secrets_api" where
  "example_secrets =
     \<lparr>secrets_get = (\<lambda>ctx ns name w. (w, Inr \<lparr>secret_Name = name, secret_Data = w\<rparr>)),
      secrets_update = (\<lambda>ctx ns s w. (secret_Data s, Inr s)),
      secrets_missing = (\<lambda>e. False)\<rparr>"

definition example_store :: "(string \<rightharpoonup> string) option CredentialStore" where
  "example_store = \<lparr>store_secrets = example_secrets, store_namespace = ''agent'', store_name = ''creds''\<rparr>"

definition example_identity :: Identity where
  "example_identity = \<lparr>id_AgentID = ''agent_1'', id_ClusterID = ''c1'', id_Token = ''secret'', id_GatewayURL = []\<rparr>"

theorem credentials_roundtrip_witness:
  "\<exists>w'. Credentials_Save example_store None example_identity None = (w', None) \<and>
     snd (Credentials_Load example_store None w') =
       Inr \<lparr>id_AgentID = ''agent_1'', id_ClusterID = [], id_Token = ''secret'', id_GatewayURL = []\<rparr>"
proof -
  have c: "secrets_contract (store_secrets example_store) (store_namespace example_store)"
    by (simp add: secrets_contract_def example_store_def example_secrets_def)
  obtain w' where s: "Credentials_Save example_store None example_identity None = (w', None)"
    by (simp add: Credentials_Save_def example_store_def example_secrets_def example_identity_def)
  obtain w'' r where l: "Credentials_Load example_store None w' = (w'', r)"
    by (cases "Credentials_Load example_store None w'")
  have "secrets_get (store_secrets example_store) None (store_namespace example_store) (store_name example_store) w' \<noteq> (w'', Inl e)" for e
    by (simp add: example_store_def example_secrets_def)
  from credentials_roundtrip [OF c s l this] s l show ?thesis by (simp add: example_identity_def)
qed

end
