(* ===== verification/Dial.thy ===== *)
theory Dial
  imports Auth
begin

text \<open>
  Opening a connection (\<open>internal/gateway/websocket.go\<close>, \<open>heartbeat.go\<close>): the URL and the headers of
  the handshake, the classification of its failures, and the deadlines of the socket. The WebSocket
  dialer is a function over the world; the socket it returns is its read limit and the
  wait for a pong that \<open>configureHeartbeat\<close> sets.
\<close>

section \<open>The handshake\<close>

record handshake =
  hs_URL :: string
  hs_Headers :: "(string \<times> string) list"

definition dial_query :: "Identity \<Rightarrow> string \<Rightarrow> string \<Rightarrow> url_values \<Rightarrow> url_values" where
  "dial_query identity clusterName version q =
     (let q1 = (if id_AgentID identity \<noteq> [] then values_Set ''agent_id'' (id_AgentID identity) q else q);
          q2 = (if id_ClusterID identity \<noteq> [] then values_Set ''cluster_id'' (id_ClusterID identity) q1 else q1)
      in values_Set ''version'' version (values_Set ''cluster_name'' clusterName q2))"

definition dial_handshake :: "string \<Rightarrow> Identity \<Rightarrow> string \<Rightarrow> string \<Rightarrow> handshake go_result" where
  "dial_handshake gatewayURL identity clusterName version =
     (case url_Parse gatewayURL of
        Inl e \<Rightarrow> Inl e
      | Inr parsed \<Rightarrow>
          if url_Scheme parsed \<noteq> ''wss'' \<or> url_Host parsed = []
          then Inl (ErrorString ''gateway URL must be an absolute wss:// URL'')
          else let q = dial_query identity clusterName version (url_Query (url_RawQuery parsed))
            in Inr \<lparr>hs_URL = url_String (parsed\<lparr>url_RawQuery := values_Encode q\<rparr>),
                    hs_Headers = [(''Authorization'', ''Bearer '' @ id_Token identity),
                      (''User-Agent'', ''incidentflow-k8s-agent/'' @ version)]\<rparr>)"

section \<open>The result of the handshake\<close>

text \<open>A failed dial has an error and, when the server answered, the status of its response.\<close>

type_synonym dial_failure = "go_error \<times> int option"
type_synonym 'w dialer = "handshake \<Rightarrow> 'w \<Rightarrow> 'w \<times> (dial_failure + unit)"

record websocket =
  ws_readLimit :: int
  ws_pongWait :: int64

definition handshake_error :: "dial_failure \<Rightarrow> go_error" where
  "handshake_error f =
     (case f of
        (e, Some status) \<Rightarrow>
          if status = 403 \<or> status = 401
          then WrapError (error_text (Sentinel AccessRevoked) @ '': gateway websocket handshake returned HTTP '' @ int_dec status)
                 (Sentinel AccessRevoked)
          else wrapf (''gateway websocket handshake returned HTTP '' @ int_dec status) e
      | (e, None) \<Rightarrow> e)"

definition pongWait :: "int64 \<Rightarrow> int64" where
  "pongWait heartbeatPeriod =
     (let p = 3 * heartbeatPeriod; floor = word_of_int (2 * minute) in if p <s floor then floor else p)"

text \<open>\<open>configureHeartbeat\<close>: the read deadline now and after each pong is \<open>pongWait\<close> ahead.\<close>

definition configureHeartbeat :: "websocket \<Rightarrow> int64 \<Rightarrow> websocket" where
  "configureHeartbeat conn wait = conn\<lparr>ws_pongWait := wait\<rparr>"

definition dialWebSocket ::
  "'w dialer \<Rightarrow> string \<Rightarrow> Identity \<Rightarrow> string \<Rightarrow> string \<Rightarrow> int64 \<Rightarrow> ('w, websocket) api" where
  "dialWebSocket dialer gatewayURL identity clusterName version heartbeatPeriod w =
     (case dial_handshake gatewayURL identity clusterName version of
        Inl e \<Rightarrow> (w, Inl e)
      | Inr hs \<Rightarrow>
          (case dialer hs w of
             (w', Inl failure) \<Rightarrow> (w', Inl (handshake_error failure))
           | (w', Inr _) \<Rightarrow>
               (w', Inr (configureHeartbeat \<lparr>ws_readLimit = 4 * 1024 * 1024, ws_pongWait = 0\<rparr> (pongWait heartbeatPeriod)))))"

section \<open>Facts\<close>

lemma handshake_error_revoked:
  "errors_is (handshake_error (e, status)) AccessRevoked \<longleftrightarrow>
     status = Some 401 \<or> status = Some 403 \<or> errors_is e AccessRevoked"
  by (auto simp: handshake_error_def split: option.split)

text \<open>The dialled text up to the query, which has no question mark and no number sign.\<close>

lemma shouldEscape_marks:
  "shouldEscape (CHR ''?'') EncPath" "shouldEscape (CHR ''#'') EncPath" "shouldEscape (CHR ''?'') EncHost"
  "shouldEscape (CHR ''#'') EncHost" "shouldEscape (CHR ''?'') EncUserPassword" "shouldEscape (CHR ''#'') EncUserPassword"
  by code_simp+

lemma url_escape_mark:
  assumes "shouldEscape c m" and "c \<notin> set (CHR ''+'' # CHR 0x25 # ''0123456789ABCDEF'')"
  shows "c \<notin> set (url_escape m s)"
proof -
  have "c \<notin> set (escape_byte m x)" for x
  proof -
    have "\<forall>d\<in>set [0..<16]. upper_hex d \<in> set ''0123456789ABCDEF''" by code_simp
    then have "upper_hex (of_char x div 16) \<in> set ''0123456789ABCDEF''" "upper_hex (of_char x mod 16) \<in> set ''0123456789ABCDEF''"
      using of_char_div_mod [of x] by auto
    with assms show ?thesis by (auto simp: escape_byte_def)
  qed
  then show ?thesis by (simp add: url_escape_def)
qed

definition mark_free :: "string \<Rightarrow> bool" where
  "mark_free s \<longleftrightarrow> CHR ''?'' \<notin> set s \<and> CHR ''#'' \<notin> set s"

lemma mark_free_simps [simp]:
  "mark_free []"
  "mark_free (c # s) \<longleftrightarrow> c \<noteq> CHR ''?'' \<and> c \<noteq> CHR ''#'' \<and> mark_free s"
  "mark_free (s @ t) \<longleftrightarrow> mark_free s \<and> mark_free t"
  by (auto simp: mark_free_def)

lemma mark_free_escape:
  "mark_free (url_escape EncPath s)" "mark_free (url_escape EncHost s)" "mark_free (url_escape EncUserPassword s)"
  by (simp_all add: mark_free_def url_escape_mark shouldEscape_marks)

lemma mark_free_path: "mark_free (EscapedPath u)"
proof -
  have "mark_free s" if "validEncoded EncPath s" for s
    using that shouldEscape_marks by (fastforce simp: validEncoded_def mark_free_def list_all_iff)
  then show ?thesis by (simp add: EscapedPath_def mark_free_escape)
qed

lemma mark_free_userinfo: "mark_free (userinfo_String u)"
  by (simp add: userinfo_String_def mark_free_escape split: option.split)

lemma mark_free_before_query:
  "mark_free (url_Scheme u) \<Longrightarrow> url_Opaque u = [] \<Longrightarrow> mark_free (url_before_query u)"
  by (simp add: url_before_query_def Let_def url_authority_def mark_free_path mark_free_userinfo mark_free_escape
      split: option.split)

lemma parse_hier_opaque: "parse_hier rest u = Inr u' \<Longrightarrow> url_Opaque u' = url_Opaque u \<and> url_Scheme u' = url_Scheme u"
  by (auto simp: parse_hier_def set_path_def Let_def map_sum_def split: if_splits sum.splits prod.splits)

lemma parse_host_opaque: "parse_no_fragment s = Inr u \<Longrightarrow> url_Host u \<noteq> [] \<Longrightarrow> url_Opaque u = []"
  by (auto simp: parse_no_fragment_def zero_url_def Let_def dest: parse_hier_opaque split: if_splits sum.splits prod.splits)

lemma url_Parse_opaque: "url_Parse s = Inr u \<Longrightarrow> url_Host u \<noteq> [] \<Longrightarrow> url_Opaque u = []"
  by (auto simp: url_Parse_def dest: parse_host_opaque split: if_splits sum.splits prod.splits)

lemma QueryEscape_marks: "CHR ''#'' \<notin> set (print_setting kv)"
  using query_safe_special by (simp add: print_setting_def QueryEscape_free)

lemma Join_set: "set (Join ps sep) \<subseteq> (\<Union>p\<in>set ps. set p) \<union> set sep"
  by (induction ps sep rule: Join.induct) auto

lemma values_Encode_mark: "CHR ''#'' \<notin> set (values_Encode q)"
  using Join_set [of "map print_setting (settings_of (sort_key fst q))" "''&''"] QueryEscape_marks
  by (auto simp: values_Encode_settings)

lemma values_Encode_Nil: "values_Encode q = [] \<Longrightarrow> settings_of (sort_key fst q) = []"
  using print_setting_free(2) by (cases "settings_of (sort_key fst q)"; cases "tl (settings_of (sort_key fst q))")
    (auto simp: values_Encode_settings)

text \<open>What a server takes for the query of the text of a URL.\<close>

definition query_of :: "string \<Rightarrow> string" where
  "query_of s = snd (Cut_byte (CHR ''?'') (fst (Cut_byte (CHR ''#'') s)))"

lemma Cut_byte_free: "c \<notin> set p \<Longrightarrow> Cut_byte c p = (p, [])"
  by (induction p) (auto simp: Cut_byte_def)

lemma query_of_String:
  assumes "mark_free (url_Scheme u)" and "url_Opaque u = []" and "CHR ''#'' \<notin> set (url_RawQuery u)" and "url_RawQuery u \<noteq> []"
  shows "query_of (url_String u) = url_RawQuery u"
proof -
  let ?p = "url_before_query u"
  have p: "CHR ''?'' \<notin> set ?p" "CHR ''#'' \<notin> set ?p"
    using mark_free_before_query [OF assms(1,2)] by (simp_all add: mark_free_def)
  obtain f where f: "url_String u = (?p @ CHR ''?'' # url_RawQuery u) @ f" "f = [] \<or> (\<exists>g. f = CHR ''#'' # g)"
    using assms(4) by (auto simp: url_String_def)
  have n: "CHR ''#'' \<notin> set (?p @ CHR ''?'' # url_RawQuery u)" using p assms(3) by simp
  have "fst (Cut_byte (CHR ''#'') (url_String u)) = ?p @ CHR ''?'' # url_RawQuery u"
    using f Cut_byte_append [OF n] Cut_byte_free [OF n] by auto
  then show ?thesis using Cut_byte_append [OF p(1)] by (simp add: query_of_def)
qed

lemma distinct_values_Set: "distinct (map fst q) \<Longrightarrow> distinct (map fst (values_Set k v q))"
  by (simp add: values_Set_def distinct_update)

lemma distinct_url_Query: "distinct (map fst (url_Query s))"
proof -
  have "distinct (map fst q) \<Longrightarrow> distinct (map fst (fold values_Add kvs q))" for kvs q
    by (induction kvs arbitrary: q) (simp_all add: values_Add_def distinct_update)
  then show ?thesis by (simp add: url_Query_def)
qed

lemma distinct_dial_query: "distinct (map fst (dial_query i c v (url_Query s)))"
  by (simp add: dial_query_def Let_def distinct_values_Set distinct_url_Query)

lemma values_Get_Set: "values_Get (values_Set k v q) k' = (if k = k' then [v] else values_Get q k')"
  by (simp add: values_Get_def values_Set_def update_conv')

lemma values_Get_dial_query:
  "values_Get (dial_query i c v q) k =
     (if k = ''version'' then [v]
      else if k = ''cluster_name'' then [c]
      else if k = ''cluster_id'' \<and> id_ClusterID i \<noteq> [] then [id_ClusterID i]
      else if k = ''agent_id'' \<and> id_AgentID i \<noteq> [] then [id_AgentID i]
      else values_Get q k)"
  by (auto simp: dial_query_def Let_def values_Get_Set)

lemma dial_query_nonempty: "values_Encode (dial_query i c v q) \<noteq> []"
proof
  let ?q = "dial_query i c v q"
  assume e: "values_Encode ?q = []"
  have "map_of ?q ''version'' = Some [v]"
    using values_Get_dial_query [of i c v q "''version''"] by (simp add: values_Get_def split: option.splits)
  then have "(''version'', [v]) \<in> set (sort_key fst ?q)" by (auto dest: map_of_SomeD)
  with values_Encode_Nil [OF e] show False by (force simp: settings_of_def)
qed

lemma url_before_query_wss:
  "url_Scheme u = ''wss'' \<Longrightarrow> url_Host u \<noteq> [] \<Longrightarrow> url_Opaque u = [] \<Longrightarrow> prefix ''wss://'' (url_before_query u)"
  by (simp add: url_before_query_def Let_def url_authority_def)

section \<open>Properties\<close>

text \<open>
  C34: a handshake is only ever prepared for a \<open>wss\<close> URL, with the token as the bearer credential and nowhere in the
  query; and whatever bytes the identity, the cluster name and the version consist of, the server that splits
  and decodes the query of the dialled text gets exactly them back, and no setting that was not in the configured URL.
\<close>

theorem dial_query_roundtrip:
  assumes "dial_handshake gatewayURL i c v = Inr hs"
  shows "prefix ''wss://'' (hs_URL hs) \<and>
    hs_Headers hs = [(''Authorization'', ''Bearer '' @ id_Token i), (''User-Agent'', ''incidentflow-k8s-agent/'' @ v)] \<and>
    (\<exists>u. url_Parse gatewayURL = Inr u \<and>
      (\<forall>k. values_Get (url_Query (query_of (hs_URL hs))) k =
         (if k = ''version'' then [v]
          else if k = ''cluster_name'' then [c]
          else if k = ''cluster_id'' \<and> id_ClusterID i \<noteq> [] then [id_ClusterID i]
          else if k = ''agent_id'' \<and> id_AgentID i \<noteq> [] then [id_AgentID i]
          else values_Get (url_Query (url_RawQuery u)) k)))"
proof -
  from assms obtain u where u: "url_Parse gatewayURL = Inr u" "url_Scheme u = ''wss''" "url_Host u \<noteq> []"
    and h: "hs_URL hs = url_String (u\<lparr>url_RawQuery := values_Encode (dial_query i c v (url_Query (url_RawQuery u)))\<rparr>)"
      "hs_Headers hs = [(''Authorization'', ''Bearer '' @ id_Token i), (''User-Agent'', ''incidentflow-k8s-agent/'' @ v)]"
    by (auto simp: dial_handshake_def Let_def split: sum.splits if_splits)
  let ?q = "dial_query i c v (url_Query (url_RawQuery u))"
  let ?u = "u\<lparr>url_RawQuery := values_Encode ?q\<rparr>"
  have o: "url_Opaque ?u = []" using url_Parse_opaque [OF u(1,3)] by simp
  have "query_of (url_String ?u) = values_Encode ?q"
    using query_of_String [of ?u] o u(2) values_Encode_mark [of ?q] dial_query_nonempty by simp
  moreover have "prefix ''wss://'' (url_String ?u)"
    using url_before_query_wss [of ?u] o u(2,3) by (simp add: url_String_def prefix_def) force
  ultimately show ?thesis
    using u(1) h url_Query_Encode [OF distinct_dial_query, of i c v "url_RawQuery u"] by (auto simp: values_Get_dial_query)
qed

theorem dial_query_roundtrip_witness:
  "\<exists>hs. dial_handshake ''wss://gateway.example.com/ws?a=1'' example_identity ''a&b=c'' ''v 1'' = Inr hs \<and>
     values_Get (url_Query (query_of (hs_URL hs))) ''cluster_name'' = [''a&b=c''] \<and>
     values_Get (url_Query (query_of (hs_URL hs))) ''agent_id'' = [''agent_1'']"
proof -
  let ?g = "''wss://gateway.example.com/ws?a=1''"
  have "\<not> (case dial_handshake ?g example_identity ''a&b=c'' ''v 1'' of Inl e \<Rightarrow> True | Inr hs \<Rightarrow> False)"
    by code_simp
  then obtain hs where hs: "dial_handshake ?g example_identity ''a&b=c'' ''v 1'' = Inr hs"
    by (cases "dial_handshake ?g example_identity ''a&b=c'' ''v 1''") auto
  from dial_query_roundtrip [OF hs] hs show ?thesis by (auto simp: example_identity_def)
qed

text \<open>
  The wait for a pong is longer than the time between two pings, so that a connection whose gateway answers is
  not dropped between them, for periods that three times over still fit 64 bits (97 years).
\<close>

theorem pong_wait_exceeds_period:
  assumes "0 < sint heartbeatPeriod" and "3 * sint heartbeatPeriod < 2 ^ 63"
  shows "sint heartbeatPeriod < sint (pongWait heartbeatPeriod) \<and> 2 * minute \<le> sint (pongWait heartbeatPeriod)"
proof -
  have "sint (3 * heartbeatPeriod) = 3 * sint heartbeatPeriod"
    using assms by (simp add: i64_simps wrap64_id)
  moreover have "sint (word_of_int (2 * minute) :: int64) = 2 * minute"
    by (simp add: sint_word_of_int_64 wrap64_id minute_def second_def)
  ultimately show ?thesis using assms(1) by (auto simp: pongWait_def Let_def sless_64 minute_def second_def)
qed

theorem pong_wait_exceeds_period_witness:
  "sint (pongWait (word_of_int (30 * second))) \<ge> 2 * minute"
proof -
  have "sint (word_of_int (30 * second) :: int64) = 30 * second"
    by (simp add: sint_word_of_int_64 wrap64_id second_def)
  with pong_wait_exceeds_period [of "word_of_int (30 * second)"] show ?thesis by (simp add: second_def)
qed

end
