(* ===== verification/GatewayClient.thy ===== *)
theory GatewayClient
  imports Delivery Dial
begin

text \<open>
  The client of the gateway (\<open>NewClient\<close> and \<open>Run\<close> of \<open>internal/gateway/client.go\<close>): the loop that dials,
  serves a connection and waits before the next attempt, as a step relation. One step is an iteration's
  dial, a whole connection (any run of \<open>conn_step\<close> from its start to the return of \<open>serveConnection\<close>),
  the decision after it, or a wait. The replay memory, the backoff and the context live across
  connections; \<open>cl_taken\<close> is the history of commands handed to workers by all of them.

  The environment chooses: when the context is cancelled, what the dialer answers, how a connection
  runs, the random draw of the backoff, and, where both are ready, the case of a \<open>select\<close>.
\<close>

section \<open>The client\<close>

definition defaultMaxConcurrentCommands :: int where
  "defaultMaxConcurrentCommands = 8"

definition stableConnectionDuration :: int where
  "stableConnectionDuration = 30 * second"

record Options =
  opt_GatewayURL :: string
  opt_Identity :: Identity
  opt_ClusterName :: string
  opt_Version :: string
  opt_CommandTimeout :: int64
  opt_HeartbeatPeriod :: int64
  opt_MaxConcurrentCommands :: int

record Client =
  client_gatewayURL :: string
  client_identity :: Identity
  client_clusterName :: string
  client_version :: string
  client_commandTimeout :: int64
  client_heartbeatPeriod :: int64
  client_maxConcurrentCommands :: int
  client_seenCommands :: seen_commands

definition NewClient :: "Options \<Rightarrow> Client" where
  "NewClient opts =
     \<lparr>client_gatewayURL = opt_GatewayURL opts, client_identity = opt_Identity opts,
      client_clusterName = opt_ClusterName opts, client_version = opt_Version opts,
      client_commandTimeout = opt_CommandTimeout opts, client_heartbeatPeriod = opt_HeartbeatPeriod opts,
      client_maxConcurrentCommands =
        (if opt_MaxConcurrentCommands opts \<le> 0 then defaultMaxConcurrentCommands else opt_MaxConcurrentCommands opts),
      client_seenCommands = Mapping.empty\<rparr>"

section \<open>The loop\<close>

datatype client_pc =
    ClTop
  | ClDial
  | ClConnected
  | ClServed go_error instant
  | ClWait int64
  | ClReturned go_error
  | ClPanicked go_panic

record client_state =
  cl_pc :: client_pc
  cl_backoff :: Backoff
  cl_seen :: seen_commands
  cl_clock :: instant
  cl_ctx :: go_ctx
  cl_connected :: bool
  cl_reconnects :: nat
  cl_taken :: "(instant \<times> Command) list"

definition start_client :: "Client \<Rightarrow> go_ctx \<Rightarrow> instant \<Rightarrow> client_state" where
  "start_client c ctx now =
     \<lparr>cl_pc = ClTop, cl_backoff = NewBackoff (word_of_int second) (word_of_int (30 * second)),
      cl_seen = client_seenCommands c, cl_clock = now, cl_ctx = ctx, cl_connected = False,
      cl_reconnects = 0, cl_taken = []\<rparr>"

text \<open>The dial of an iteration, for a reply of the dialer.\<close>

definition client_dial :: "Client \<Rightarrow> dial_failure + unit \<Rightarrow> websocket go_result" where
  "client_dial c reply =
     snd (dialWebSocket (\<lambda>hs w. (w, reply)) (client_gatewayURL c) (client_identity c) (client_clusterName c)
       (client_version c) (client_heartbeatPeriod c) ())"

text \<open>\<open>time.NewTicker\<close> panics for a period that is not positive; \<open>heartbeat\<close> starts with it.\<close>

definition NewTicker :: "int64 \<Rightarrow> go_panic option" where
  "NewTicker d = (if d \<le>s 0 then Some (Panic ''non-positive interval for NewTicker'') else None)"

text \<open>The backoff after a connection that began at \<open>t\<close>: a stable one starts it afresh.\<close>

definition backoff_after :: "client_state \<Rightarrow> instant \<Rightarrow> Backoff" where
  "backoff_after st t =
     (if stableConnectionDuration \<le> time_sub (cl_clock st) t then Backoff_Reset (cl_backoff st) else cl_backoff st)"

definition revoked_by :: "go_error \<Rightarrow> go_error" where
  "revoked_by e = WrapError (error_text (Sentinel AccessRevoked) @ '': '' @ error_text e) (Sentinel AccessRevoked)"

definition policy_violation :: int where
  "policy_violation = 1008"

inductive client_step :: "(Command \<Rightarrow> response \<Rightarrow> bool) \<Rightarrow> Client \<Rightarrow> client_state \<Rightarrow> client_state \<Rightarrow> bool"
  for handles :: "Command \<Rightarrow> response \<Rightarrow> bool" and c :: Client where
  cancelled: "cl_ctx st = None \<Longrightarrow> client_step handles c st (st\<lparr>cl_ctx := Some x\<rparr>)"
| top_done: "cl_pc st = ClTop \<Longrightarrow> cl_ctx st = Some x \<Longrightarrow>
    client_step handles c st (st\<lparr>cl_pc := ClReturned (Sentinel x)\<rparr>)"
| top_dial: "cl_pc st = ClTop \<Longrightarrow> cl_ctx st = None \<Longrightarrow> client_step handles c st (st\<lparr>cl_pc := ClDial\<rparr>)"
| dial_ok: "cl_pc st = ClDial \<Longrightarrow> client_dial c reply = Inr ws \<Longrightarrow>
    client_step handles c st (st\<lparr>cl_pc := ClConnected, cl_connected := True\<rparr>)"
| dial_revoked: "cl_pc st = ClDial \<Longrightarrow> client_dial c reply = Inl e \<Longrightarrow> errors_is e AccessRevoked \<Longrightarrow>
    client_step handles c st (st\<lparr>cl_pc := ClReturned e\<rparr>)"
| dial_failed: "cl_pc st = ClDial \<Longrightarrow> client_dial c reply = Inl e \<Longrightarrow> \<not> errors_is e AccessRevoked \<Longrightarrow>
    Backoff_Next ovf rnd (cl_backoff st) = Inr (delay, b) \<Longrightarrow>
    client_step handles c st (st\<lparr>cl_pc := ClWait delay, cl_backoff := b\<rparr>)"
| dial_panic: "cl_pc st = ClDial \<Longrightarrow> client_dial c reply = Inl e \<Longrightarrow> \<not> errors_is e AccessRevoked \<Longrightarrow>
    Backoff_Next ovf rnd (cl_backoff st) = Inl p \<Longrightarrow>
    client_step handles c st (st\<lparr>cl_pc := ClPanicked p\<rparr>)"
| serve: "cl_pc st = ClConnected \<Longrightarrow> NewTicker (client_heartbeatPeriod c) = None \<Longrightarrow> cl_clock st \<le> now \<Longrightarrow>
    conn_reachable handles (nat (client_maxConcurrentCommands c))
      ((start_conn (cl_ctx st) (cl_seen st) now)\<lparr>c_taken := cl_taken st\<rparr>) s \<Longrightarrow>
    c_main s = MainReturned e \<Longrightarrow> c_clock s \<le> later \<Longrightarrow>
    client_step handles c st (st\<lparr>cl_pc := ClServed e now, cl_seen := c_seen s, cl_clock := later,
      cl_ctx := c_parent s, cl_connected := False, cl_taken := c_taken s\<rparr>)"
| serve_panic: "cl_pc st = ClConnected \<Longrightarrow> NewTicker (client_heartbeatPeriod c) = Some p \<Longrightarrow>
    client_step handles c st (st\<lparr>cl_pc := ClPanicked p\<rparr>)"
| served_done: "cl_pc st = ClServed e t \<Longrightarrow> errors_is e Canceled \<Longrightarrow>
    client_step handles c st (st\<lparr>cl_pc := ClReturned e\<rparr>)"
| served_revoked: "cl_pc st = ClServed e t \<Longrightarrow> \<not> errors_is e Canceled \<Longrightarrow>
    as_close_error e = Some policy_violation \<Longrightarrow>
    client_step handles c st (st\<lparr>cl_pc := ClReturned (revoked_by e)\<rparr>)"
| served_again: "cl_pc st = ClServed e t \<Longrightarrow> \<not> errors_is e Canceled \<Longrightarrow>
    as_close_error e \<noteq> Some policy_violation \<Longrightarrow>
    Backoff_Next ovf rnd (backoff_after st t) = Inr (delay, b) \<Longrightarrow>
    client_step handles c st
      (st\<lparr>cl_pc := ClWait delay, cl_backoff := b, cl_reconnects := Suc (cl_reconnects st)\<rparr>)"
| served_panic: "cl_pc st = ClServed e t \<Longrightarrow> \<not> errors_is e Canceled \<Longrightarrow>
    as_close_error e \<noteq> Some policy_violation \<Longrightarrow>
    Backoff_Next ovf rnd (backoff_after st t) = Inl p \<Longrightarrow>
    client_step handles c st (st\<lparr>cl_pc := ClPanicked p\<rparr>)"
| wait_over: "cl_pc st = ClWait delay \<Longrightarrow> cl_clock st \<le> now \<Longrightarrow>
    client_step handles c st (st\<lparr>cl_pc := ClTop, cl_clock := now\<rparr>)"
| wait_done: "cl_pc st = ClWait delay \<Longrightarrow> cl_ctx st = Some x \<Longrightarrow>
    client_step handles c st (st\<lparr>cl_pc := ClReturned (Sentinel x)\<rparr>)"

inductive client_reachable :: "(Command \<Rightarrow> response \<Rightarrow> bool) \<Rightarrow> Client \<Rightarrow> client_state \<Rightarrow> client_state \<Rightarrow> bool"
  for handles c st0 where
  client_start: "client_reachable handles c st0 st0"
| client_more: "client_reachable handles c st0 st \<Longrightarrow> client_step handles c st st' \<Longrightarrow>
    client_reachable handles c st0 st'"

section \<open>Invariants\<close>

definition remembered_at :: "instant \<Rightarrow> seen_commands \<Rightarrow> instant \<times> Command \<Rightarrow> bool" where
  "remembered_at now seen tc \<longleftrightarrow> fst tc \<le> now \<and>
     (commandReplayTTL < now - fst tc \<or> (\<exists>v\<ge>fst tc. Mapping.lookup seen (cmd_ID (snd tc)) = Some v))"

lemma remembered_conn: "remembered s tc = remembered_at (c_clock s) (c_seen s) tc"
  by (simp add: remembered_def remembered_at_def)

lemma remembered_later: "remembered_at now seen tc \<Longrightarrow> now \<le> later \<Longrightarrow> remembered_at later seen tc"
  by (auto simp: remembered_at_def)

definition history_ok :: "client_state \<Rightarrow> bool" where
  "history_ok st \<longleftrightarrow> (\<forall>tc\<in>set (cl_taken st). remembered_at (cl_clock st) (cl_seen st) tc \<and> command_ok (snd tc)) \<and>
     spaced (cl_taken st)"

lemma window_ok_from: "conn_reachable handles limit s0 s \<Longrightarrow> window_ok s0 \<Longrightarrow> window_ok s"
  by (induction rule: conn_reachable.induct) (blast intro: window_ok_step)+

lemma history_start_conn:
  "history_ok st \<Longrightarrow> cl_clock st \<le> now \<Longrightarrow> window_ok ((start_conn ctx (cl_seen st) now)\<lparr>c_taken := cl_taken st\<rparr>)"
  by (auto simp: window_ok_def start_conn_def acquire_ok_def history_ok_def remembered_conn intro: remembered_later)

text \<open>What the loop may return, and that it does not panic where the heartbeat period is positive.\<close>

definition return_ok :: "client_state \<Rightarrow> bool" where
  "return_ok st \<longleftrightarrow>
     (\<forall>e. cl_pc st = ClReturned e \<longrightarrow>
        errors_is e AccessRevoked \<or> errors_is e Canceled \<or> (\<exists>x. cl_ctx st = Some x \<and> e = Sentinel x))"

definition delay_ok :: "client_state \<Rightarrow> bool" where
  "delay_ok st \<longleftrightarrow> backoff_ok (cl_backoff st) \<and> sint (bo_Min (cl_backoff st)) = second \<and>
     sint (bo_Max (cl_backoff st)) = 30 * second \<and>
     (\<forall>d. cl_pc st = ClWait d \<longrightarrow> second \<le> sint d \<and> sint d < 45 * second)"

definition gauge_ok :: "client_state \<Rightarrow> bool" where
  "gauge_ok st \<longleftrightarrow> (cl_connected st \<longrightarrow> cl_pc st = ClConnected \<or> (\<exists>p. cl_pc st = ClPanicked p))"

lemma history_ok_step: "client_step handles c st st' \<Longrightarrow> history_ok st \<Longrightarrow> history_ok st'"
proof (induction rule: client_step.induct)
  case (serve st now s e later)
  have w: "window_ok s" using window_ok_from [OF serve(4) history_start_conn [OF serve(7,3)]] .
  then show ?case using serve(6)
    by (auto simp: history_ok_def window_ok_def remembered_conn intro: remembered_later)
next
  case (wait_over st delay now)
  then show ?case by (auto simp: history_ok_def intro: remembered_later)
qed (simp_all add: history_ok_def)

lemma return_ok_step: "client_step handles c st st' \<Longrightarrow> return_ok st \<Longrightarrow> return_ok st'"
  by (induction rule: client_step.induct) (auto simp: return_ok_def revoked_by_def)

lemma gauge_ok_step: "client_step handles c st st' \<Longrightarrow> gauge_ok st \<Longrightarrow> gauge_ok st'"
  by (induction rule: client_step.induct) (auto simp: gauge_ok_def)

lemma Backoff_delay:
  assumes "backoff_ok b" "sint (bo_Min b) = second" "sint (bo_Max b) = 30 * second"
  shows "\<exists>delay b'. Backoff_Next ovf rnd b = Inr (delay, b') \<and> backoff_ok b' \<and> sint (bo_Min b') = second \<and>
    sint (bo_Max b') = 30 * second \<and> second \<le> sint delay \<and> sint delay < 45 * second"
proof -
  obtain d b' where N: "Backoff_Next ovf rnd b = Inr (d, b')" "backoff_ok b'" "bo_Min b' = bo_Min b"
      "bo_Max b' = bo_Max b" "ideal_next b \<le> sint d" "2 * sint d < 3 * ideal_next b"
    using Backoff_Next_spec [OF assms(1)] by metis
  moreover have "second \<le> ideal_next b" "ideal_next b \<le> 30 * second"
    using ideal_next_range [OF assms(1)] assms(2,3) by simp_all
  ultimately show ?thesis using assms(2,3) by auto
qed

lemma delay_ok_step: "client_step handles c st st' \<Longrightarrow> delay_ok st \<Longrightarrow> delay_ok st'"
proof (induction rule: client_step.induct)
  case (dial_failed st reply e ovf rnd delay b)
  with Backoff_delay [of "cl_backoff st" ovf rnd] show ?case by (auto simp: delay_ok_def)
next
  case (served_again st e t ovf rnd delay b)
  have "backoff_ok (backoff_after st t)" "sint (bo_Min (backoff_after st t)) = second"
    "sint (bo_Max (backoff_after st t)) = 30 * second"
    using served_again(5) Backoff_Reset_ok by (auto simp: backoff_after_def delay_ok_def Backoff_Reset_def)
  with Backoff_delay [of "backoff_after st t" ovf rnd] served_again show ?case by (auto simp: delay_ok_def)
qed (auto simp: delay_ok_def)

lemma no_panic_step:
  "client_step handles c st st' \<Longrightarrow> delay_ok st \<Longrightarrow> NewTicker (client_heartbeatPeriod c) = None \<Longrightarrow>
    (\<And>p. cl_pc st \<noteq> ClPanicked p) \<Longrightarrow> cl_pc st' \<noteq> ClPanicked p"
proof (induction rule: client_step.induct)
  case (dial_panic st reply e ovf rnd q)
  with Backoff_delay [of "cl_backoff st" ovf rnd] show ?case by (auto simp: delay_ok_def)
next
  case (served_panic st e t ovf rnd q)
  have "backoff_ok (backoff_after st t)" "sint (bo_Min (backoff_after st t)) = second"
    "sint (bo_Max (backoff_after st t)) = 30 * second"
    using served_panic(5) Backoff_Reset_ok by (auto simp: backoff_after_def delay_ok_def Backoff_Reset_def)
  with Backoff_delay [of "backoff_after st t" ovf rnd] served_panic show ?case by (auto simp: delay_ok_def)
qed auto

definition client_ok :: "client_state \<Rightarrow> bool" where
  "client_ok st \<longleftrightarrow> history_ok st \<and> return_ok st \<and> gauge_ok st \<and> delay_ok st"

lemma client_ok_start: "client_ok (start_client c ctx now)"
  using reconnect_backoff_start(1)
  by (simp add: client_ok_def history_ok_def return_ok_def gauge_ok_def delay_ok_def start_client_def spaced_def
      reconnect_backoff_def NewBackoff_def sint_word_of_int_64 wrap64_id second_def)

lemma client_ok_reachable: "client_reachable handles c (start_client c ctx now) st \<Longrightarrow> client_ok st"
proof (induction rule: client_reachable.induct)
  case client_start
  show ?case by (rule client_ok_start)
next
  case (client_more st st')
  then show ?case unfolding client_ok_def
    using history_ok_step return_ok_step gauge_ok_step delay_ok_step by blast
qed

lemma client_no_panic:
  "client_reachable handles c (start_client c ctx now) st \<Longrightarrow> NewTicker (client_heartbeatPeriod c) = None \<Longrightarrow>
    cl_pc st \<noteq> ClPanicked p"
proof (induction arbitrary: p rule: client_reachable.induct)
  case client_start
  then show ?case by (simp add: start_client_def)
next
  case (client_more st st')
  then show ?case using no_panic_step client_ok_reachable unfolding client_ok_def by blast
qed

section \<open>An example run\<close>

definition example_options :: Options where
  "example_options = \<lparr>opt_GatewayURL = ''wss://gateway.example.com/ws'', opt_Identity = example_identity,
     opt_ClusterName = ''c'', opt_Version = ''v'', opt_CommandTimeout = word_of_int (30 * second),
     opt_HeartbeatPeriod = word_of_int (30 * second), opt_MaxConcurrentCommands = 0\<rparr>"

lemma example_dial: "\<exists>hs. dial_handshake ''wss://gateway.example.com/ws'' example_identity ''c'' ''v'' = Inr hs"
proof -
  have "\<not> (case dial_handshake ''wss://gateway.example.com/ws'' example_identity ''c'' ''v'' of Inl e \<Rightarrow> True | Inr hs \<Rightarrow> False)"
    by code_simp
  then show ?thesis by (cases "dial_handshake ''wss://gateway.example.com/ws'' example_identity ''c'' ''v''") auto
qed

lemma example_client_dial:
  "\<exists>ws. client_dial (NewClient example_options) (Inr ()) = Inr ws"
  "client_dial (NewClient example_options) (Inl f) = Inl (handshake_error f)"
  using example_dial by (auto simp: client_dial_def dialWebSocket_def NewClient_def example_options_def)

lemma example_ticker: "NewTicker (client_heartbeatPeriod (NewClient example_options)) = None"
  by (simp add: NewTicker_def NewClient_def example_options_def i64_simps sint_word_of_int_64 wrap64_id second_def)

lemma taken_grows: "conn_step handles limit s s' \<Longrightarrow> prefix (c_taken s) (c_taken s')"
  by (induction rule: conn_step.induct) (auto simp: on_message_def split: sum.split option.split prod.split)

lemma reachable_closes:
  assumes "conn_reachable handles limit s0 s" and "c_main s = MainSelect"
  shows "\<exists>s'. conn_reachable handles limit s0 s' \<and> c_closed s' \<and> c_taken s' = c_taken s"
proof -
  obtain s1 x where 1: "conn_reachable handles limit s0 s1"
    and x: "c_parent s1 = Some x" "c_main s1 = MainSelect" "c_taken s1 = c_taken s"
  proof (cases "c_parent s")
    case None
    from reach_step [OF assms(1) parent_done [OF None, of handles limit Canceled]] that assms(2) show ?thesis by simp
  next
    case (Some x)
    from that [OF assms(1) Some assms(2)] show ?thesis by simp
  qed
  let ?s2 = "s1\<lparr>c_main := MainCancel (Sentinel x)\<rparr>"
  let ?s3 = "?s2\<lparr>c_main := MainFrame (Sentinel x), c_cancelled := True\<rparr>"
  let ?s4 = "?s3\<lparr>c_main := MainClose (Sentinel x)\<rparr>"
  let ?s5 = "?s4\<lparr>c_main := MainWaitLoops (Sentinel x), c_closed := True\<rparr>"
  have 2: "conn_reachable handles limit s0 ?s2" by (rule reach_step [OF 1 main_ctx [OF x(2,1)]])
  have 3: "conn_reachable handles limit s0 ?s3" by (rule reach_step [OF 2 main_cancel]) simp
  have 4: "conn_reachable handles limit s0 ?s4" by (rule reach_step [OF 3 main_frame_err]) simp
  have "conn_reachable handles limit s0 ?s5" by (rule reach_step [OF 4 main_close]) simp
  then show ?thesis using x(3) by (intro exI [of _ ?s5]) simp
qed

lemma reachable_rtrancl: "(conn_step handles limit)\<^sup>*\<^sup>* s s' \<Longrightarrow> conn_reachable handles limit s0 s \<Longrightarrow>
    conn_reachable handles limit s0 s' \<and> prefix (c_taken s) (c_taken s')"
  by (induction rule: rtranclp_induct) (auto intro: reach_step dest: taken_grows)

abbreviation example_handles :: "Command \<Rightarrow> response \<Rightarrow> bool" where
  "example_handles \<equiv> router_handles (scheduled_group []) example_errors example_router"

lemma example_connection:
  "\<exists>s e. conn_reachable example_handles 8 (start_conn None Mapping.empty 0) s \<and> c_main s = MainReturned e \<and>
     prefix [(1, discover_command)] (c_taken s)"
proof -
  obtain s where s: "conn_reachable example_handles 8 (start_conn None Mapping.empty 0) s"
    "c_taken s = [(1, discover_command)]" "c_main s = MainSelect"
    using example_session [where handles = example_handles, OF example_handled] by blast
  obtain s1 where s1: "conn_reachable example_handles 8 (start_conn None Mapping.empty 0) s1" "c_closed s1"
    "c_taken s1 = c_taken s" using reachable_closes [OF s(1,3)] by blast
  obtain s2 where s2: "(conn_step example_handles 8)\<^sup>*\<^sup>* s1 s2" "returned s2"
    using agent.closed_ends(1) [OF s1(1,2) [unfolded example_router_def]] unfolding example_router_def by blast
  from reachable_rtrancl [OF s2(1) s1(1)] s1(3) s(2) s2(2) show ?thesis by (auto simp: returned_def)
qed

text \<open>
  The gateway closes the connection after a command, with the code of a policy violation: once the read loop has reported
  that, nothing is taken any more, and the main goroutine returns this very error.
\<close>

fun main_error :: "main_pc \<Rightarrow> go_error option" where
  "main_error MainSelect = None"
| "main_error (MainCancel e) = Some e"
| "main_error (MainFrame e) = Some e"
| "main_error (MainClose e) = Some e"
| "main_error (MainWaitLoops e) = Some e"
| "main_error (MainWaitCommands e) = Some e"
| "main_error (MainReturned e) = Some e"

lemma ended_kept:
  "conn_step handles limit s s' \<Longrightarrow> c_rd s = RdDone \<Longrightarrow> main_error (c_main s) = Some e \<Longrightarrow>
    c_rd s' = RdDone \<and> main_error (c_main s') = Some e \<and> c_clock s' = c_clock s \<and> c_taken s' = c_taken s"
  by (induction rule: conn_step.induct) auto

lemma ended_kept_rtrancl:
  "(conn_step handles limit)\<^sup>*\<^sup>* s s' \<Longrightarrow> c_rd s = RdDone \<Longrightarrow> main_error (c_main s) = Some e \<Longrightarrow>
    c_rd s' = RdDone \<and> main_error (c_main s') = Some e \<and> c_clock s' = c_clock s \<and> c_taken s' = c_taken s"
proof (induction rule: rtranclp_induct)
  case (step y z)
  from ended_kept [OF step.hyps(2)] step.IH [OF step.prems] show ?case by auto
qed simp

lemma read_error_closes:
  assumes "conn_reachable handles limit s0 s" and "c_main s = MainSelect" and "c_rd s = RdRead" and "c_errs s = []"
  shows "\<exists>s'. conn_reachable handles limit s0 s' \<and> c_closed s' \<and> c_rd s' = RdDone \<and> main_error (c_main s') = Some e \<and>
    c_clock s' = c_clock s \<and> c_taken s' = c_taken s"
proof -
  let ?s1 = "s\<lparr>c_rd := RdReport e\<rparr>"
  let ?s2 = "?s1\<lparr>c_rd := RdDone, c_errs := [e]\<rparr>"
  let ?s3 = "?s2\<lparr>c_main := MainCancel e, c_errs := []\<rparr>"
  let ?s4 = "?s3\<lparr>c_main := MainFrame e, c_cancelled := True\<rparr>"
  let ?s5 = "?s4\<lparr>c_main := MainClose e\<rparr>"
  let ?s6 = "?s5\<lparr>c_main := MainWaitLoops e, c_closed := True\<rparr>"
  have "reportConnectionError ?s1 e [e]"
    using report_send [of ?s1 e] assms(4) by (simp add: err_capacity_def)
  then have "conn_reachable handles limit s0 ?s2"
    by (rule reach_step [OF reach_step [OF assms(1) rd_err [OF assms(3)]] rd_report [rotated]]) simp
  then have "conn_reachable handles limit s0 ?s3" by (rule reach_step [OF _ main_err]) (simp_all add: assms(2))
  then have "conn_reachable handles limit s0 ?s4" by (rule reach_step [OF _ main_cancel]) simp
  then have "conn_reachable handles limit s0 ?s5" by (rule reach_step [OF _ main_frame_err]) simp
  then have "conn_reachable handles limit s0 ?s6" by (rule reach_step [OF _ main_close]) simp
  then show ?thesis by (intro exI [of _ ?s6]) simp
qed

lemma example_revoked_connection:
  "\<exists>s. conn_reachable example_handles 8 (start_conn None Mapping.empty t) s \<and> c_main s = MainReturned e \<and>
     c_clock s = t + 1 \<and> c_taken s = [(t + 1, discover_command)]"
proof -
  obtain s where s: "conn_reachable example_handles 8 (start_conn None Mapping.empty t) s" "c_main s = MainSelect"
    "c_rd s = RdRead" "c_errs s = []" and h: "c_clock s = t + 1" "c_taken s = [(t + 1, discover_command)]"
    using example_session_at [where handles = example_handles and t = t, OF example_handled] by blast
  obtain s1 where s1: "conn_reachable example_handles 8 (start_conn None Mapping.empty t) s1" "c_closed s1" "c_rd s1 = RdDone"
    "main_error (c_main s1) = Some e" "c_clock s1 = c_clock s" "c_taken s1 = c_taken s"
    using read_error_closes [OF s] by blast
  obtain s2 where s2: "(conn_step example_handles 8)\<^sup>*\<^sup>* s1 s2" "returned s2"
    using agent.closed_ends(1) [OF s1(1,2) [unfolded example_router_def]] unfolding example_router_def by blast
  from ended_kept_rtrancl [OF s2(1) s1(3,4)] reachable_rtrancl [OF s2(1) s1(1)] s1(5,6) h s2(2)
  show ?thesis by (auto simp: returned_def)
qed

lemma example_revoked_client:
  assumes "client_dial c (Inr ()) = Inr ws" and "NewTicker (client_heartbeatPeriod c) = None"
    and "client_maxConcurrentCommands c = 8" and "client_seenCommands c = Mapping.empty"
  shows "\<exists>st. client_reachable example_handles c (start_client c None t) st \<and>
    cl_pc st = ClReturned (revoked_by (CloseError policy_violation [])) \<and> cl_clock st = t + 1 \<and>
    cl_taken st = [(t + 1, discover_command)]"
proof -
  let ?e = "CloseError policy_violation []"
  let ?st0 = "start_client c None t"
  let ?st1 = "?st0\<lparr>cl_pc := ClDial\<rparr>"
  let ?st2 = "?st1\<lparr>cl_pc := ClConnected, cl_connected := True\<rparr>"
  have "client_step example_handles c ?st0 ?st1" by (rule top_dial) (simp_all add: start_client_def)
  then have "client_reachable example_handles c ?st0 ?st1" by (rule client_more [OF client_start])
  moreover have "client_step example_handles c ?st1 ?st2" using assms(1) by (rule dial_ok [rotated]) simp
  ultimately have 2: "client_reachable example_handles c ?st0 ?st2" by (rule client_more)
  obtain s where s: "conn_reachable example_handles 8 (start_conn None Mapping.empty t) s" "c_main s = MainReturned ?e"
    "c_clock s = t + 1" "c_taken s = [(t + 1, discover_command)]" using example_revoked_connection by blast
  have i: "(start_conn (cl_ctx ?st2) (cl_seen ?st2) t)\<lparr>c_taken := cl_taken ?st2\<rparr> = start_conn None Mapping.empty t"
    by (simp add: start_client_def start_conn_def assms(4))
  let ?st3 = "?st2\<lparr>cl_pc := ClServed ?e t, cl_seen := c_seen s, cl_clock := c_clock s,
      cl_ctx := c_parent s, cl_connected := False, cl_taken := c_taken s\<rparr>"
  have "client_step example_handles c ?st2 ?st3"
    by (rule serve [where s = s]) (use s(1,2) i in \<open>simp_all add: assms(2,3), simp_all add: start_client_def\<close>)
  then have 3: "client_reachable example_handles c ?st0 ?st3" by (rule client_more [OF 2])
  have "client_step example_handles c ?st3 (?st3\<lparr>cl_pc := ClReturned (revoked_by ?e)\<rparr>)"
    by (rule served_revoked) (simp_all add: policy_violation_def)
  from client_more [OF 3 this] s(3,4) show ?thesis by (intro exI conjI) (assumption, simp_all)
qed

lemma example_client_run:
  "\<exists>st. client_reachable example_handles (NewClient example_options) (start_client (NewClient example_options) None 0) st \<and>
     prefix [(1, discover_command)] (cl_taken st)"
proof -
  let ?c = "NewClient example_options"
  let ?st0 = "start_client ?c None 0"
  let ?st1 = "?st0\<lparr>cl_pc := ClDial\<rparr>"
  let ?st2 = "?st1\<lparr>cl_pc := ClConnected, cl_connected := True\<rparr>"
  have "client_step example_handles ?c ?st0 ?st1" by (rule top_dial) (simp_all add: start_client_def)
  then have 1: "client_reachable example_handles ?c ?st0 ?st1" by (rule client_more [OF client_start])
  obtain ws where "client_dial ?c (Inr ()) = Inr ws" using example_client_dial(1) by blast
  then have "client_step example_handles ?c ?st1 ?st2" by (rule dial_ok [rotated]) simp
  then have 2: "client_reachable example_handles ?c ?st0 ?st2" by (rule client_more [OF 1])
  obtain s e where s: "conn_reachable example_handles 8 (start_conn None Mapping.empty 0) s" "c_main s = MainReturned e"
    "prefix [(1, discover_command)] (c_taken s)" using example_connection by blast
  have i: "(start_conn (cl_ctx ?st2) (cl_seen ?st2) 0)\<lparr>c_taken := cl_taken ?st2\<rparr> = start_conn None Mapping.empty 0"
    by (simp add: start_client_def start_conn_def NewClient_def)
  have n: "nat (client_maxConcurrentCommands ?c) = 8"
    by (simp add: NewClient_def example_options_def defaultMaxConcurrentCommands_def)
  have "client_step example_handles ?c ?st2 (?st2\<lparr>cl_pc := ClServed e 0, cl_seen := c_seen s, cl_clock := c_clock s,
      cl_ctx := c_parent s, cl_connected := False, cl_taken := c_taken s\<rparr>)"
    by (rule serve [where s = s]) (use s(1,2) i n in \<open>simp_all add: example_ticker, simp_all add: start_client_def\<close>)
  from client_more [OF 2 this] s(3) show ?thesis by (intro exI conjI) (assumption, simp)
qed

section \<open>Properties\<close>

text \<open>
  C5: over the whole life of a client, through every reconnect, the commands handed to workers passed the
  access policy, and two with the same id are more than ten minutes apart: a gateway that drops the connection
  and repeats a command does not get it executed twice.
\<close>

theorem client_never_replays:
  assumes "client_reachable handles c (start_client c ctx now) st"
  shows "list_all (\<lambda>tc. policyAllowsCommand (snd tc) = None) (cl_taken st) \<and>
    sorted_wrt (\<lambda>a b. cmd_ID (snd a) = cmd_ID (snd b) \<longrightarrow> 10 * minute < fst b - fst a) (cl_taken st)"
  using client_ok_reachable [OF assms]
  by (auto simp: client_ok_def history_ok_def command_ok_def spaced_def commandReplayTTL_def list_all_iff)

theorem client_never_replays_witness:
  "\<exists>st. client_reachable example_handles (NewClient example_options) (start_client (NewClient example_options) None 0) st \<and>
     prefix [(1, discover_command)] (cl_taken st) \<and> policyAllowsCommand discover_command = None"
proof -
  obtain st where st: "client_reachable example_handles (NewClient example_options) (start_client (NewClient example_options) None 0) st"
    "prefix [(1, discover_command)] (cl_taken st)" using example_client_run by blast
  from client_never_replays [OF st(1)] st(2) have "policyAllowsCommand discover_command = None"
    by (auto simp: prefix_def)
  with st show ?thesis by blast
qed

text \<open>
  C11: the loop ends only for a reason that a retry cannot cure: its context is done, access was revoked, or a
  connection ended with a cancellation. Every other failure leads to a wait of at least one second and less than
  forty-five, and the loop never panics, when the heartbeat period is positive.
\<close>

theorem client_loop_ends:
  assumes "client_reachable handles c (start_client c ctx now) st" and "0 < sint (client_heartbeatPeriod c)"
  shows "case cl_pc st of
      ClReturned e \<Rightarrow> errors_is e AccessRevoked \<or> errors_is e Canceled \<or> (\<exists>x. cl_ctx st = Some x \<and> e = Sentinel x)
    | ClWait delay \<Rightarrow> second \<le> sint delay \<and> sint delay < 45 * second
    | ClPanicked p \<Rightarrow> False
    | _ \<Rightarrow> True"
proof -
  have "NewTicker (client_heartbeatPeriod c) = None" using assms(2) by (simp add: NewTicker_def i64_simps)
  from client_ok_reachable [OF assms(1)] client_no_panic [OF assms(1) this] show ?thesis
    by (auto simp: client_ok_def return_ok_def delay_ok_def split: client_pc.split)
qed

theorem client_loop_ends_witness:
  "\<exists>st e. client_reachable example_handles (NewClient example_options) (start_client (NewClient example_options) None 0) st \<and>
     cl_pc st = ClReturned e \<and> cl_ctx st = None \<and> (errors_is e AccessRevoked \<or> errors_is e Canceled)"
proof -
  let ?c = "NewClient example_options"
  let ?st0 = "start_client ?c None 0"
  let ?st1 = "?st0\<lparr>cl_pc := ClDial\<rparr>"
  define e where "e = handshake_error (ErrorString ''bad handshake'', Some 401)"
  let ?st2 = "?st1\<lparr>cl_pc := ClReturned e\<rparr>"
  have "client_step example_handles ?c ?st0 ?st1" by (rule top_dial) (simp_all add: start_client_def)
  then have 1: "client_reachable example_handles ?c ?st0 ?st1" by (rule client_more [OF client_start])
  have "client_step example_handles ?c ?st1 ?st2"
    by (rule dial_revoked [OF _ example_client_dial(2) [of "(ErrorString ''bad handshake'', Some 401)", folded e_def]])
      (simp_all add: e_def handshake_error_revoked)
  then have 2: "client_reachable example_handles ?c ?st0 ?st2" by (rule client_more [OF 1])
  have "0 < sint (client_heartbeatPeriod ?c)" using example_ticker by (simp add: NewTicker_def i64_simps split: if_splits)
  from client_loop_ends [OF 2 this] 2 show ?thesis
    by (intro exI [of _ ?st2] exI [of _ e]) (simp add: start_client_def)
qed


end
