(* ===== verification/GoDuration.thy ===== *)
theory GoDuration
  imports Backoff
begin

text \<open>
  \<open>time.ParseDuration\<close> and \<open>strconv.ParseBool\<close> of Go's standard library, as the configuration
  uses them: the callers only test for an error, so it is \<open>None\<close>.

  A fraction is computed by the library in \<open>float64\<close>: \<open>uint64(float64(f) * (float64(unit) / scale))\<close>.
  \<open>f64_div\<close> is the quotient rounded to 53 bits, as a natural number of units \<open>2 ^ - k\<close>, with a
  sticky bit for what the integer division drops; the sizes that occur have no overflow, and an
  underflow could only make smaller what is truncated to zero.
\<close>

definition f64_div_scale :: "nat \<Rightarrow> nat" where
  "f64_div_scale b = bit_length b + 64"

definition f64_div :: "nat \<Rightarrow> nat \<Rightarrow> nat" where
  "f64_div a b =
     (let n = a * 2 ^ f64_div_scale b in
      f64_round_nat (2 * (n div b) + (if n mod b = 0 then 0 else 1)))"

definition f64_fraction :: "nat \<Rightarrow> nat \<Rightarrow> nat \<Rightarrow> nat" where
  "f64_fraction f unit scale =
     f64_round_nat (f64_round_nat f * f64_div unit scale) div 2 ^ Suc (f64_div_scale scale)"

definition leadingInt :: "string \<Rightarrow> (nat \<times> string) option" where
  "leadingInt s =
     (let n = digits_val (takeWhile is_digit s) in
      if n > 2 ^ 63 then None else Some (n, dropWhile is_digit s))"

text \<open>The digits after the point: their value, the power of ten they are over, and whether they no longer count.\<close>

fun fraction_digits :: "string \<Rightarrow> nat \<times> nat \<times> bool \<Rightarrow> nat \<times> nat \<times> bool" where
  "fraction_digits [] st = st"
| "fraction_digits (c # cs) (x, scale, overflow) =
     fraction_digits cs
       (if overflow \<or> x > (2 ^ 63 - 1) div 10 \<or> x * 10 + digit_val c > 2 ^ 63 then (x, scale, True)
        else (x * 10 + digit_val c, f64_round_nat (scale * 10), False))"

definition leadingFraction :: "string \<Rightarrow> nat \<times> nat \<times> string" where
  "leadingFraction s =
     (let (x, scale, overflow) = fraction_digits (takeWhile is_digit s) (0, 1, False)
      in (x, scale, dropWhile is_digit s))"

definition duration_units :: "(string \<times> nat) list" where
  "duration_units =
     [(''ns'', 1), (''us'', 10 ^ 3), ([CHR 0xC2, CHR 0xB5, CHR ''s''], 10 ^ 3), ([CHR 0xCE, CHR 0xBC, CHR ''s''], 10 ^ 3),
      (''ms'', 10 ^ 6), (''s'', 10 ^ 9), (''m'', 60 * 10 ^ 9), (''h'', 3600 * 10 ^ 9)]"

definition number_char :: "char \<Rightarrow> bool" where
  "number_char c \<longleftrightarrow> c = CHR ''.'' \<or> is_digit c"

text \<open>One number with its unit, in nanoseconds, and the rest of the text.\<close>

definition duration_item :: "string \<Rightarrow> (nat \<times> string) option" where
  "duration_item s =
     (if s = [] \<or> \<not> number_char (hd s) then None
      else case leadingInt s of
        None \<Rightarrow> None
      | Some (v, s1) \<Rightarrow>
          let (f, scale, s2) = (if s1 \<noteq> [] \<and> hd s1 = CHR ''.'' then leadingFraction (tl s1) else (0, 1, s1));
              pre = (s1 \<noteq> s);
              post = (s1 \<noteq> [] \<and> hd s1 = CHR ''.'' \<and> s2 \<noteq> tl s1);
              u = takeWhile (\<lambda>c. \<not> number_char c) s2
          in if (\<not> pre \<and> \<not> post) \<or> u = [] then None
             else case map_of duration_units u of
                    None \<Rightarrow> None
                  | Some unit \<Rightarrow>
                      if v > 2 ^ 63 div unit then None
                      else let w = v * unit + (if f > 0 then f64_fraction f unit scale else 0) in
                        if f > 0 \<and> w > 2 ^ 63 then None
                        else Some (w, dropWhile (\<lambda>c. \<not> number_char c) s2))"

lemma dropWhile_length: "length (dropWhile P xs) \<le> length xs"
  by (induction xs) auto

lemma dropWhile_shorter: "takeWhile P xs \<noteq> [] \<Longrightarrow> length (dropWhile P xs) < length xs"
  by (cases xs) (auto simp: le_imp_less_Suc dropWhile_length split: if_splits)

lemma leading_length:
  "leadingInt s = Some (v, r) \<Longrightarrow> length r \<le> length s"
  "leadingFraction s = (f, scale, r) \<Longrightarrow> length r \<le> length s"
  by (auto simp: leadingInt_def leadingFraction_def Let_def dropWhile_length split: if_splits prod.splits)

lemma duration_item_shorter:
  assumes "duration_item s = Some (w, r)"
  shows "length r < length s"
proof -
  from assms obtain v s1 where v: "leadingInt s = Some (v, s1)"
    by (auto simp: duration_item_def split: if_splits option.splits)
  obtain f scale s2 where f: "(if s1 \<noteq> [] \<and> hd s1 = CHR ''.'' then leadingFraction (tl s1) else (0, 1, s1)) = (f, scale, s2)"
    by (cases "if s1 \<noteq> [] \<and> hd s1 = CHR ''.'' then leadingFraction (tl s1) else (0, 1, s1)") auto
  have "length s2 \<le> length s1" using f leading_length(2) [of "tl s1" f scale s2]
    by (cases "s1 \<noteq> [] \<and> hd s1 = CHR ''.''") auto
  with leading_length(1) [OF v] have l: "length s2 \<le> length s" by simp
  from assms have u: "takeWhile (\<lambda>c. \<not> number_char c) s2 \<noteq> []" and r: "r = dropWhile (\<lambda>c. \<not> number_char c) s2"
    unfolding duration_item_def v option.case prod.case f Let_def
    by (simp_all split: if_splits option.splits)
  from dropWhile_shorter [OF u] l show ?thesis by (simp add: r)
qed

function duration_sum :: "string \<Rightarrow> nat \<Rightarrow> nat option" where
  "duration_sum s d =
     (if s = [] then Some d
      else case duration_item s of
             None \<Rightarrow> None
           | Some (w, r) \<Rightarrow>
               let d' = (d + w) mod 2 ^ 64 in
               if d' > 2 ^ 63 then None else duration_sum r d')"
  by pat_completeness auto
termination
  by (relation "measure (\<lambda>(s, d). length s)") (auto dest: duration_item_shorter)

declare duration_sum.simps [simp del]

definition ParseDuration :: "string \<Rightarrow> int64 option" where
  "ParseDuration orig =
     (let neg = (orig \<noteq> [] \<and> hd orig = CHR ''-'');
          s = (if orig \<noteq> [] \<and> (hd orig = CHR ''-'' \<or> hd orig = CHR ''+'') then tl orig else orig)
      in if s = ''0'' then Some 0
         else if s = [] then None
         else case duration_sum s 0 of
                None \<Rightarrow> None
              | Some d \<Rightarrow>
                  if neg then Some (- word_of_int (int d))
                  else if d > 2 ^ 63 - 1 then None
                  else Some (word_of_int (int d)))"

definition ParseBool :: "string \<Rightarrow> bool option" where
  "ParseBool s =
     (if s \<in> set [''1'', ''t'', ''T'', ''true'', ''TRUE'', ''True''] then Some True
      else if s \<in> set [''0'', ''f'', ''F'', ''false'', ''FALSE'', ''False''] then Some False
      else None)"

end
