(* ===== verification/Config.thy ===== *)
theory Config
  imports GoUrl GoDuration Security
begin

text \<open>
  The configuration (\<open>internal/config/config.go\<close>): \<open>Load\<close> with the readers of environment
  variables, their defaults, and \<open>Validate\<close>. The environment is a function from names to values,
  as \<open>os.Getenv\<close> sees it: the empty text stands for an unset variable too.
\<close>

section \<open>Constants and the record\<close>

definition DefaultCredentialsSecretName :: string where
  "DefaultCredentialsSecretName = ''incidentflow-agent-credentials''"

definition DefaultLogFormat :: string where
  "DefaultLogFormat = ''json''"

definition DefaultCommandTimeout :: int64 where
  "DefaultCommandTimeout = word_of_int (30 * second)"

definition DefaultHeartbeatPeriod :: int64 where
  "DefaultHeartbeatPeriod = word_of_int (30 * second)"

definition DefaultMaxTailLines :: int64 where
  "DefaultMaxTailLines = 1000"

definition DefaultLogTailLines :: int64 where
  "DefaultLogTailLines = 200"

definition DefaultMaxLogBytes :: int64 where
  "DefaultMaxLogBytes = 512 * 1024"

definition DefaultMetricsAddr :: string where
  "DefaultMetricsAddr = '':9090''"

record Config =
  cfg_PlatformURL :: string
  cfg_GatewayURL :: string
  cfg_RegistrationToken :: string
  cfg_ClusterName :: string
  cfg_LogLevel :: string
  cfg_LogFormat :: string
  cfg_CredentialsSecretName :: string
  cfg_RegistrationTokenSecretName :: string
  cfg_Namespace :: string
  cfg_NamespaceAllowlist :: "string list"
  cfg_NamespaceDenylist :: "string list option"
  cfg_CommandTimeout :: int64
  cfg_HeartbeatPeriod :: int64
  cfg_MaxTailLines :: int64
  cfg_DefaultTailLines :: int64
  cfg_MaxLogBytes :: int64
  cfg_MetricsAddr :: string
  cfg_CredentialsWriteEnabled :: bool

section \<open>Reading the environment\<close>

type_synonym environment = "string \<Rightarrow> string"

definition getenv :: "environment \<Rightarrow> string \<Rightarrow> string \<Rightarrow> string" where
  "getenv env key fallback = (if env key \<noteq> [] then env key else fallback)"

definition getenvDuration :: "environment \<Rightarrow> string \<Rightarrow> int64 \<Rightarrow> int64" where
  "getenvDuration env key fallback =
     (if env key = [] then fallback
      else case ParseDuration (env key) of None \<Rightarrow> fallback | Some parsed \<Rightarrow> parsed)"

definition getenvInt64 :: "environment \<Rightarrow> string \<Rightarrow> int64 \<Rightarrow> int64" where
  "getenvInt64 env key fallback =
     (if env key = [] then fallback
      else case parse_int64 (env key) of None \<Rightarrow> fallback | Some parsed \<Rightarrow> parsed)"

definition getenvBool :: "environment \<Rightarrow> string \<Rightarrow> bool \<Rightarrow> bool" where
  "getenvBool env key fallback =
     (if env key = [] then fallback
      else case ParseBool (env key) of None \<Rightarrow> fallback | Some parsed \<Rightarrow> parsed)"

text \<open>The slice that \<open>splitCSV\<close> returns, \<open>None\<close> for its \<open>nil\<close>.\<close>

definition splitCSV :: "string \<Rightarrow> string list option" where
  "splitCSV value =
     (if value = [] then None
      else Some (filter (\<lambda>part. part \<noteq> []) (map TrimSpace (Split_byte (CHR '','') value))))"

section \<open>Validation and loading\<close>

definition missing_variables :: "Config \<Rightarrow> string list" where
  "missing_variables c =
     (if cfg_PlatformURL c = [] then [''INCIDENTFLOW_PLATFORM_URL''] else []) @
     (if cfg_GatewayURL c = [] then [''INCIDENTFLOW_GATEWAY_URL''] else [])"

text \<open>The test of the gateway URL that \<open>Validate\<close> and the dialer share.\<close>

definition secure_url :: "string \<Rightarrow> bool" where
  "secure_url s \<longleftrightarrow>
     (case url_Parse s of
        Inl e \<Rightarrow> False
      | Inr u \<Rightarrow> url_Scheme u = ''wss'' \<and> url_Host u \<noteq> [])"

definition Config_Validate :: "Config \<Rightarrow> go_error option" where
  "Config_Validate c =
     (if cfg_GatewayURL c \<noteq> [] \<and> \<not> secure_url (cfg_GatewayURL c)
        then Some (ErrorString ''INCIDENTFLOW_GATEWAY_URL must be an absolute wss:// URL'')
      else if cfg_NamespaceAllowlist c = []
        then Some (ErrorString ''INCIDENTFLOW_NAMESPACE_ALLOWLIST must contain at least one namespace'')
      else if missing_variables c \<noteq> []
        then Some (ErrorString (''missing required configuration: '' @ Join (missing_variables c) '', ''))
      else if cfg_MaxTailLines c \<le>s 0
        then Some (ErrorString ''INCIDENTFLOW_MAX_TAIL_LINES must be positive'')
      else if cfg_DefaultTailLines c \<le>s 0 \<or> cfg_MaxTailLines c <s cfg_DefaultTailLines c
        then Some (ErrorString
          ''INCIDENTFLOW_DEFAULT_TAIL_LINES must be positive and <= INCIDENTFLOW_MAX_TAIL_LINES'')
      else if cfg_MaxLogBytes c \<le>s 0
        then Some (ErrorString ''INCIDENTFLOW_MAX_LOG_BYTES must be positive'')
      else None)"

definition read_config :: "environment \<Rightarrow> Config" where
  "read_config env =
     \<lparr>cfg_PlatformURL = TrimRight_byte (env ''INCIDENTFLOW_PLATFORM_URL'') (CHR ''/''),
      cfg_GatewayURL = env ''INCIDENTFLOW_GATEWAY_URL'',
      cfg_RegistrationToken = env ''INCIDENTFLOW_REGISTRATION_TOKEN'',
      cfg_ClusterName = getenv env ''INCIDENTFLOW_CLUSTER_NAME'' ''unknown-cluster'',
      cfg_LogLevel = getenv env ''INCIDENTFLOW_LOG_LEVEL'' ''info'',
      cfg_LogFormat = getenv env ''INCIDENTFLOW_LOG_FORMAT'' DefaultLogFormat,
      cfg_CredentialsSecretName = getenv env ''INCIDENTFLOW_CREDENTIALS_SECRET_NAME'' DefaultCredentialsSecretName,
      cfg_RegistrationTokenSecretName = env ''INCIDENTFLOW_REGISTRATION_TOKEN_SECRET_NAME'',
      cfg_Namespace = getenv env ''K8S_NAMESPACE_NAME'' ''default'',
      cfg_NamespaceAllowlist =
        (case splitCSV (env ''INCIDENTFLOW_NAMESPACE_ALLOWLIST'') of None \<Rightarrow> [] | Some ns \<Rightarrow> ns),
      cfg_NamespaceDenylist =
        splitCSV (getenv env ''INCIDENTFLOW_NAMESPACE_DENYLIST'' ''kube-system,kube-public,kube-node-lease''),
      cfg_CommandTimeout = getenvDuration env ''INCIDENTFLOW_COMMAND_TIMEOUT'' DefaultCommandTimeout,
      cfg_HeartbeatPeriod = getenvDuration env ''INCIDENTFLOW_HEARTBEAT_PERIOD'' DefaultHeartbeatPeriod,
      cfg_MaxTailLines = getenvInt64 env ''INCIDENTFLOW_MAX_TAIL_LINES'' DefaultMaxTailLines,
      cfg_DefaultTailLines = getenvInt64 env ''INCIDENTFLOW_DEFAULT_TAIL_LINES'' DefaultLogTailLines,
      cfg_MaxLogBytes = getenvInt64 env ''INCIDENTFLOW_MAX_LOG_BYTES'' DefaultMaxLogBytes,
      cfg_MetricsAddr = getenv env ''INCIDENTFLOW_METRICS_ADDR'' DefaultMetricsAddr,
      cfg_CredentialsWriteEnabled = getenvBool env ''INCIDENTFLOW_CREDENTIALS_WRITE_ENABLED'' False\<rparr>"

definition Config_Load :: "environment \<Rightarrow> Config go_result" where
  "Config_Load env =
     (case Config_Validate (read_config env) of
        Some e \<Rightarrow> Inl e
      | None \<Rightarrow> Inr (read_config env))"

section \<open>Facts\<close>

definition config_limits :: "Config \<Rightarrow> Limits" where
  "config_limits c = \<lparr>DefaultTailLines = cfg_DefaultTailLines c, MaxTailLines = cfg_MaxTailLines c,
     MaxLogBytes = cfg_MaxLogBytes c\<rparr>"

definition config_guard :: "Config \<Rightarrow> NamespaceGuard" where
  "config_guard c = NewNamespaceGuard (cfg_NamespaceAllowlist c) (cfg_NamespaceDenylist c)"

definition env_parts :: "string \<Rightarrow> string list" where
  "env_parts value = filter (\<lambda>part. part \<noteq> []) (map TrimSpace (Split_byte (CHR '','') value))"

lemma splitCSV_parts: "splitCSV value = (if value = [] then None else Some (env_parts value))"
  by (simp add: splitCSV_def env_parts_def)

lemma TrimSpace_Nil [simp]: "TrimSpace [] = []"
  by code_simp

lemma env_parts_Nil [simp]: "env_parts [] = []"
  by (simp add: env_parts_def)

lemma TrimSpace_sublist: "set (TrimSpace s) \<subseteq> set s"
proof -
  have "set (strip_words ws t) \<subseteq> set t" for ws t
    using strip_words_suffix [of ws t] set_mono_suffix by blast
  then show ?thesis
    unfolding TrimSpace_def trim_left_words_def trim_right_words_def
    by (metis (no_types, lifting) order_trans set_rev)
qed

lemma env_parts_name: "n \<in> set (env_parts value) \<Longrightarrow> n \<noteq> [] \<and> CHR '','' \<notin> set n"
  using TrimSpace_sublist Split_byte_no_sep by (fastforce simp: env_parts_def)

lemma read_config_allowlist: "cfg_NamespaceAllowlist (read_config env) = env_parts (env ''INCIDENTFLOW_NAMESPACE_ALLOWLIST'')"
  by (simp add: read_config_def splitCSV_parts)

lemma Config_Validate_limits: "Config_Validate c = None \<Longrightarrow> limits_ok (config_limits c)"
  by (auto simp: Config_Validate_def limits_ok_def config_limits_def i64_simps split: if_splits)

lemma Config_Validate_iff:
  "Config_Validate c = None \<longleftrightarrow>
     cfg_PlatformURL c \<noteq> [] \<and> secure_url (cfg_GatewayURL c) \<and> cfg_NamespaceAllowlist c \<noteq> [] \<and>
     limits_ok (config_limits c)"
proof -
  have "\<not> secure_url []" by code_simp
  then show ?thesis
    by (auto simp: Config_Validate_def missing_variables_def limits_ok_def config_limits_def i64_simps)
qed

text \<open>An environment with the three variables that have no default.\<close>

definition example_env :: environment where
  "example_env = (\<lambda>_. [])
     (''INCIDENTFLOW_PLATFORM_URL'' := ''https://api.example.com/'',
      ''INCIDENTFLOW_GATEWAY_URL'' := ''wss://gateway.example.com/ws'',
      ''INCIDENTFLOW_NAMESPACE_ALLOWLIST'' := ''prod, staging'')"

lemma example_url: "secure_url ''wss://gateway.example.com/ws''"
  by code_simp

lemma example_parts: "env_parts ''prod, staging'' = [''prod'', ''staging'']"
  by code_simp

lemma default_parts: "env_parts ''kube-system,kube-public,kube-node-lease'' = [''kube-system'', ''kube-public'', ''kube-node-lease'']"
  by code_simp

lemma default_config_limits:
  assumes "env ''INCIDENTFLOW_MAX_TAIL_LINES'' = []" and "env ''INCIDENTFLOW_DEFAULT_TAIL_LINES'' = []"
    and "env ''INCIDENTFLOW_MAX_LOG_BYTES'' = []"
  shows "config_limits (read_config env) = \<lparr>DefaultTailLines = 200, MaxTailLines = 1000, MaxLogBytes = 512 * 1024\<rparr>"
  using assms by (simp add: config_limits_def read_config_def getenvInt64_def DefaultMaxTailLines_def
      DefaultLogTailLines_def DefaultMaxLogBytes_def)

lemma defaults_suffice:
  assumes "env ''INCIDENTFLOW_MAX_TAIL_LINES'' = []" and "env ''INCIDENTFLOW_DEFAULT_TAIL_LINES'' = []"
    and "env ''INCIDENTFLOW_MAX_LOG_BYTES'' = []"
    and "TrimRight_byte (env ''INCIDENTFLOW_PLATFORM_URL'') (CHR ''/'') \<noteq> []"
    and "secure_url (env ''INCIDENTFLOW_GATEWAY_URL'')"
    and "env_parts (env ''INCIDENTFLOW_NAMESPACE_ALLOWLIST'') \<noteq> []"
  shows "Config_Load env = Inr (read_config env)"
proof -
  have "limits_ok (config_limits (read_config env))"
    unfolding default_config_limits [OF assms(1-3)] by (simp add: limits_ok_def word_sless_alt word_sle_eq)
  moreover have "cfg_PlatformURL (read_config env) \<noteq> []" "cfg_GatewayURL (read_config env) = env ''INCIDENTFLOW_GATEWAY_URL''"
    using assms(4) by (simp_all add: read_config_def)
  ultimately have "Config_Validate (read_config env) = None"
    using assms(5,6) by (simp add: Config_Validate_iff read_config_allowlist)
  then show ?thesis by (simp add: Config_Load_def)
qed

lemma example_loads:
  "Config_Load (example_env(''INCIDENTFLOW_HEARTBEAT_PERIOD'' := h)) = 
   Inr (read_config (example_env(''INCIDENTFLOW_HEARTBEAT_PERIOD'' := h)))"
  by (rule defaults_suffice) (simp_all add: example_env_def example_url example_parts TrimRight_byte_def)

text \<open>
  The guard built from an accepted configuration never falls back to allowing every namespace: it lets
  a named namespace through exactly when a trimmed part of the allowlist variable names it and no part of the
  denylist variable, or of its default, does.
\<close>

lemma loaded_guard:
  assumes "Config_Load env = Inr cfg" and "n \<noteq> []"
  shows "Check (config_guard cfg) n = None \<longleftrightarrow>
     n \<in> set (env_parts (env ''INCIDENTFLOW_NAMESPACE_ALLOWLIST'')) \<and>
     n \<notin> set (env_parts (getenv env ''INCIDENTFLOW_NAMESPACE_DENYLIST'' ''kube-system,kube-public,kube-node-lease''))"
proof -
  let ?denied = "getenv env ''INCIDENTFLOW_NAMESPACE_DENYLIST'' ''kube-system,kube-public,kube-node-lease''"
  from assms(1) have cfg: "cfg = read_config env" and ok: "Config_Validate (read_config env) = None"
    by (auto simp: Config_Load_def split: option.splits)
  obtain m where m: "m \<in> set (env_parts (env ''INCIDENTFLOW_NAMESPACE_ALLOWLIST''))"
    using ok Config_Validate_iff by (metis read_config_allowlist last_in_set)
  then have "m \<noteq> []" by (simp add: env_parts_name)
  with m have "\<not> set (env_parts (env ''INCIDENTFLOW_NAMESPACE_ALLOWLIST'')) \<subseteq> {[]}" by blast
  moreover have "?denied \<noteq> []" by (simp add: getenv_def)
  then have "cfg_NamespaceDenylist cfg = Some (env_parts ?denied)"
    by (simp add: cfg read_config_def splitCSV_parts)
  ultimately show ?thesis
    using assms(2) by (auto simp: config_guard_def cfg read_config_allowlist guard_simps)
qed


lemma example_env_loads: "Config_Load example_env = Inr (read_config example_env)"
proof -
  have "example_env(''INCIDENTFLOW_HEARTBEAT_PERIOD'' := []) = example_env"
    by (rule ext) (simp add: example_env_def)
  with example_loads [of "[]"] show ?thesis by simp
qed

lemma example_guard: "Check (config_guard (read_config example_env)) ''prod'' = None"
  using loaded_guard [OF example_env_loads, of "''prod''"]
  by (simp add: example_env_def example_parts getenv_def default_parts)

text \<open>The system namespaces are denied by default only: a denylist variable replaces the default.\<close>

lemma system_namespace_served:
  "\<exists>env cfg. Config_Load env = Inr cfg \<and> Check (config_guard cfg) ''kube-system'' = None"
proof -
  let ?env = "example_env(''INCIDENTFLOW_NAMESPACE_ALLOWLIST'' := ''kube-system'', ''INCIDENTFLOW_NAMESPACE_DENYLIST'' := ''other'')"
  have p: "env_parts ''kube-system'' = [''kube-system'']" "env_parts ''other'' = [''other'']" by code_simp+
  have l: "Config_Load ?env = Inr (read_config ?env)"
    by (rule defaults_suffice) (simp_all add: example_env_def example_url p TrimRight_byte_def)
  then have "Check (config_guard (read_config ?env)) ''kube-system'' = None"
    using loaded_guard [OF l, of "''kube-system''"] by (simp add: p getenv_def)
  with l show ?thesis by blast
qed

text \<open>Without an allowlist nothing starts.\<close>

lemma empty_allowlist_rejected:
  assumes "env_parts (env ''INCIDENTFLOW_NAMESPACE_ALLOWLIST'') = []"
  shows "\<exists>e. Config_Load env = Inl e"
proof -
  have "Config_Validate (read_config env) \<noteq> None" using assms by (simp add: Config_Validate_iff read_config_allowlist)
  then show ?thesis by (auto simp: Config_Load_def)
qed

section \<open>Properties\<close>


end
