(* ===== verification/Telemetry.thy ===== *)
theory Telemetry
  imports Commands Config
begin

text \<open>
  What the agent tells about itself: readiness, the metrics server and counters (\<open>internal/telemetry\<close>), the
  outcome of a command as it is recorded (\<open>handleCommand\<close> and \<open>metricStatus\<close> of
  \<open>internal/gateway/client.go\<close>), the tracing configuration (\<open>internal/observability/tracing.go\<close>), the choice of
  the logger's encoding and level, and the version (\<open>internal/version/version.go\<close>).

  Prometheus, OpenTelemetry and zap are not part of the repository: a metric is the value that the code gives it,
  the parser of log levels is an argument, and so is what the set-up of tracing uses of OpenTelemetry.
\<close>

section \<open>Readiness\<close>

record HealthState =
  credentialsReady :: bool
  gatewayConnected :: bool

definition NewHealthState :: HealthState where
  "NewHealthState = \<lparr>credentialsReady = False, gatewayConnected = False\<rparr>"

definition SetCredentialsReady :: "bool \<Rightarrow> HealthState \<Rightarrow> HealthState" where
  "SetCredentialsReady ready s = s\<lparr>credentialsReady := ready\<rparr>"

definition SetGatewayConnected :: "bool \<Rightarrow> HealthState \<Rightarrow> HealthState" where
  "SetGatewayConnected connected s = s\<lparr>gatewayConnected := connected\<rparr>"

definition Health_Ready :: "HealthState \<Rightarrow> bool" where
  "Health_Ready s \<longleftrightarrow> credentialsReady s \<and> gatewayConnected s"

text \<open>The status of the handlers that \<open>NewMetricsServer\<close> registers; \<open>None\<close> is the nil health state. The
  \<open>/metrics\<close> page is Prometheus' own, and the mux answers 404 to other paths.\<close>

definition readyz :: "HealthState option \<Rightarrow> int" where
  "readyz health = (case health of None \<Rightarrow> 503 | Some h \<Rightarrow> if \<not> Health_Ready h then 503 else 200)"

definition metrics_server :: "int \<Rightarrow> HealthState option \<Rightarrow> string \<Rightarrow> int" where
  "metrics_server metrics_page health path =
     (if path = ''/metrics'' then metrics_page
      else if path = ''/healthz'' then 200
      else if path = ''/readyz'' then readyz health
      else 404)"

section \<open>Counters\<close>

text \<open>\<open>atomic.Int64\<close> counters, which wrap.\<close>

record Metrics =
  commandsHandled :: int64
  commandsFailed :: int64
  reconnects :: int64

definition IncCommandsHandled :: "Metrics \<Rightarrow> Metrics" where
  "IncCommandsHandled m = m\<lparr>commandsHandled := commandsHandled m + 1\<rparr>"

definition IncCommandsFailed :: "Metrics \<Rightarrow> Metrics" where
  "IncCommandsFailed m = m\<lparr>commandsFailed := commandsFailed m + 1\<rparr>"

definition IncReconnects :: "Metrics \<Rightarrow> Metrics" where
  "IncReconnects m = m\<lparr>reconnects := reconnects m + 1\<rparr>"

text \<open>The metrics that are registered when the program starts. The buckets of the histogram are the library's default.\<close>

datatype metric_kind = HistogramVec | Gauge | Counter

record metric =
  metric_Kind :: metric_kind
  metric_Name :: string
  metric_Help :: string
  metric_Labels :: "string list"

definition K8sAPIDuration :: metric where
  "K8sAPIDuration = \<lparr>metric_Kind = HistogramVec, metric_Name = ''k8s_api_duration_seconds'',
     metric_Help = ''Latency of Kubernetes operations handled by the agent.'', metric_Labels = [''operation'', ''status'']\<rparr>"

definition GatewayConnected :: metric where
  "GatewayConnected = \<lparr>metric_Kind = Gauge, metric_Name = ''gateway_connected'',
     metric_Help = ''1 when the agent has an active gateway WebSocket connection, 0 otherwise.'', metric_Labels = []\<rparr>"

definition GatewayReconnects :: metric where
  "GatewayReconnects = \<lparr>metric_Kind = Counter, metric_Name = ''gateway_reconnects_total'',
     metric_Help = ''Total number of gateway WebSocket reconnects.'', metric_Labels = []\<rparr>"

text \<open>
  Registering a name twice would panic at the start of the program, and so would, at the first command, an
  observation whose label values are not as many as the labels: neither can happen.
\<close>

lemma metrics_distinct: "distinct (map metric_Name [K8sAPIDuration, GatewayConnected, GatewayReconnects])"
  by (simp add: K8sAPIDuration_def GatewayConnected_def GatewayReconnects_def)

section \<open>The record of a command\<close>

definition metricStatus :: "string \<Rightarrow> string" where
  "metricStatus status = (if status = StatusSuccess then ''success'' else ''error'')"

datatype span_status = SpanOk | SpanError string

record command_record =
  rec_operation :: string
  rec_metric :: string
  rec_span :: span_status

definition record_command :: "Command \<Rightarrow> 'd Response \<Rightarrow> command_record" where
  "record_command cmd resp =
     \<lparr>rec_operation = cmd_Action cmd, rec_metric = metricStatus (resp_Status resp),
      rec_span =
        (if resp_Status resp \<noteq> StatusSuccess
         then (case resp_Error resp of Some e \<Rightarrow> SpanError (eb_Code e) | None \<Rightarrow> SpanError ''command failed'')
         else SpanOk)\<rparr>"

lemma record_command_wf:
  assumes "wf_response resp"
  shows "rec_span (record_command cmd resp) = (case resp_Error resp of None \<Rightarrow> SpanOk | Some e \<Rightarrow> SpanError (eb_Code e))"
    and "rec_metric (record_command cmd resp) = ''success'' \<longleftrightarrow> resp_Error resp = None"
  using assms by (auto simp: record_command_def wf_response_def metricStatus_def StatusSuccess_def StatusError_def)

definition label_values :: "command_record \<Rightarrow> string list" where
  "label_values r = [rec_operation r, rec_metric r]"

lemma label_values_fit: "length (label_values r) = length (metric_Labels K8sAPIDuration)"
  by (simp add: label_values_def K8sAPIDuration_def)

text \<open>The status label takes two values only, whatever the response holds.\<close>

lemma status_label_bounded: "label_values (record_command cmd resp) ! 1 \<in> {''success'', ''error''}"
  by (simp add: label_values_def record_command_def metricStatus_def)

section \<open>Tracing and logging\<close>

record TracingConfig =
  tr_OTLPEndpoint :: string
  tr_ServiceName :: string
  tr_ServiceVersion :: string
  tr_Environment :: string
  tr_K8sNamespace :: string
  tr_Enabled :: bool

definition envOr :: "environment \<Rightarrow> string \<Rightarrow> string \<Rightarrow> string" where
  "envOr env key fallback = (if env key \<noteq> [] then env key else fallback)"

definition ConfigFromEnv :: "environment \<Rightarrow> TracingConfig" where
  "ConfigFromEnv env =
     (let endpoint = (if env ''OTEL_EXPORTER_OTLP_ENDPOINT'' = []
            then ''otel-collector.observability.svc.cluster.local:4317''
            else env ''OTEL_EXPORTER_OTLP_ENDPOINT'')
      in \<lparr>tr_OTLPEndpoint = endpoint, tr_ServiceName = ''incidentflow-k8s-agent'',
          tr_ServiceVersion = envOr env ''SERVICE_VERSION'' ''0.0.0'',
          tr_Environment = envOr env ''ENV'' ''unknown'',
          tr_K8sNamespace = env ''K8S_NAMESPACE_NAME'',
          tr_Enabled = (env ''OBSERVABILITY_TRACING_ENABLED'' = ''true'')\<rparr>)"

text \<open>The attributes of the resource that \<open>Init\<close> describes the agent with.\<close>

definition tracing_attributes :: "TracingConfig \<Rightarrow> (string \<times> string) list" where
  "tracing_attributes cfg =
     [(''service.name'', tr_ServiceName cfg), (''service.version'', tr_ServiceVersion cfg),
      (''deployment.environment'', tr_Environment cfg)] @
     (if tr_K8sNamespace cfg \<noteq> [] then [(''k8s.namespace.name'', tr_K8sNamespace cfg)] else [])"

text \<open>
  \<open>Init\<close>: what it uses of OpenTelemetry and gRPC is a record. The three calls that may fail are asked in order;
  the shutdown of the provider gets its timeout. The function that \<open>Init\<close> returns leaves the world and the warnings it logs.
\<close>

record 'w otel =
  otel_new_client :: "string \<Rightarrow> go_error option"
  otel_new_exporter :: "go_error option"
  otel_new_resource :: "(string \<times> string) list \<Rightarrow> go_error option"
  otel_provider_Shutdown :: "int \<Rightarrow> 'w \<Rightarrow> 'w \<times> go_error option"
  otel_conn_Close :: "'w \<Rightarrow> 'w \<times> go_error option"

type_synonym 'w shutdown = "'w \<Rightarrow> 'w \<times> (string \<times> go_error) list"

record 'w tracing_setup =
  ts_provider :: "(string \<times> string) list option"
  ts_shutdown :: "'w shutdown"
  ts_error :: "go_error option"

definition noop :: "'w shutdown" where
  "noop w = (w, [])"

definition warning :: "string \<Rightarrow> go_error option \<Rightarrow> (string \<times> go_error) list" where
  "warning message err = (case err of None \<Rightarrow> [] | Some e \<Rightarrow> [(message, e)])"

definition tracing_shutdown :: "'w otel \<Rightarrow> 'w shutdown" where
  "tracing_shutdown otel w =
     (case otel_provider_Shutdown otel (5 * second) w of
        (w1, shutdownErr) \<Rightarrow>
          (case otel_conn_Close otel w1 of
             (w2, connErr) \<Rightarrow>
               (w2, warning ''otel provider shutdown error'' shutdownErr @ warning ''otel grpc conn close error'' connErr)))"

definition tracing_Init :: "'w otel \<Rightarrow> TracingConfig \<Rightarrow> 'w tracing_setup" where
  "tracing_Init otel cfg =
     (if \<not> tr_Enabled cfg then \<lparr>ts_provider = None, ts_shutdown = noop, ts_error = None\<rparr>
      else case otel_new_client otel (tr_OTLPEndpoint cfg) of
             Some e \<Rightarrow> \<lparr>ts_provider = None, ts_shutdown = noop, ts_error = Some e\<rparr>
           | None \<Rightarrow>
               (case otel_new_exporter otel of
                  Some e \<Rightarrow> \<lparr>ts_provider = None, ts_shutdown = noop, ts_error = Some e\<rparr>
                | None \<Rightarrow>
                    (let attrs = tracing_attributes cfg in
                     case otel_new_resource otel attrs of
                       Some e \<Rightarrow> \<lparr>ts_provider = None, ts_shutdown = noop, ts_error = Some e\<rparr>
                     | None \<Rightarrow> \<lparr>ts_provider = Some attrs, ts_shutdown = tracing_shutdown otel, ts_error = None\<rparr>)))"

text \<open>
  The shutdown does something exactly when a provider was installed, and a failure to install one is only a reason to go on
  without: it changes nothing and its shutdown is harmless. A connection that was made before the failure stays open.
\<close>

lemma tracing_Init_outcome:
  "ts_provider (tracing_Init otel cfg) = None \<Longrightarrow> ts_shutdown (tracing_Init otel cfg) = noop"
  "ts_provider (tracing_Init otel cfg) = Some attrs \<Longrightarrow>
     ts_shutdown (tracing_Init otel cfg) = tracing_shutdown otel \<and> ts_error (tracing_Init otel cfg) = None \<and>
     tr_Enabled cfg \<and> attrs = tracing_attributes cfg"
  "ts_error (tracing_Init otel cfg) \<noteq> None \<Longrightarrow> ts_provider (tracing_Init otel cfg) = None"
  by (auto simp: tracing_Init_def Let_def split: if_splits option.splits)

text \<open>An error of the provider does not keep the connection open, and at most two warnings are logged.\<close>

lemma tracing_shutdown_closes:
  "fst (tracing_shutdown otel w) = fst (otel_conn_Close otel (fst (otel_provider_Shutdown otel (5 * second) w)))"
  "length (snd (tracing_shutdown otel w)) \<le> 2"
  by (auto simp: tracing_shutdown_def warning_def split: prod.split option.split)

text \<open>The stub \<open>telemetry/tracing.go\<close>.\<close>

definition WithTraceContext :: "go_ctx \<Rightarrow> go_ctx" where
  "WithTraceContext ctx = ctx"

definition EqualFold :: "string \<Rightarrow> string \<Rightarrow> bool" where
  "EqualFold s t \<longleftrightarrow> fold_name s = fold_name t"

text \<open>The encoding and the level of the logger; production defaults are JSON and the given info level.\<close>

definition logger_config :: "(string \<Rightarrow> 'level option) \<Rightarrow> 'level \<Rightarrow> string \<Rightarrow> string \<Rightarrow> string \<times> 'level" where
  "logger_config parse_level info level format =
     (if EqualFold format ''console'' then ''console'' else ''json'',
      case parse_level level of None \<Rightarrow> info | Some l \<Rightarrow> l)"

section \<open>Version\<close>

definition Version :: string where "Version = ''0.1.0''"
definition Commit :: string where "Commit = ''dev''"

definition Runtime :: "environment \<Rightarrow> string" where
  "Runtime env =
     (let value = TrimSpace (env ''SERVICE_VERSION'') in if value \<noteq> [] then value else Version)"

end
