(* ===== verification/InCluster.thy ===== *)
theory InCluster
  imports Auth
begin

text \<open>
  The clients that the agent builds from the Pod it runs in: \<open>NewInClusterService\<close> of \<open>internal/kube/client.go\<close>,
  \<open>NewInClusterCredentialStore\<close> and \<open>NewInClusterRegistrationTokenSource\<close> of \<open>internal/auth\<close>. The two functions of client-go
  that they call, \<open>rest.InClusterConfig\<close> and \<open>kubernetes.NewForConfig\<close>, are the record \<open>client_go\<close>; the client
  they lead to serves the Secrets and the resources.
\<close>

section \<open>The client\<close>

record 'w clientset =
  cs_secrets :: "'w secrets_api"
  cs_resources :: "'w k8s_api"

record ('c, 'w) client_go =
  InClusterConfig :: "'c go_result"
  NewForConfig :: "'c \<Rightarrow> 'w clientset go_result"

text \<open>The beginning that the three constructors share.\<close>

definition in_cluster_client :: "('c, 'w) client_go \<Rightarrow> 'w clientset go_result" where
  "in_cluster_client lib =
     (case InClusterConfig lib of
        Inl e \<Rightarrow> Inl (wrapf ''load in-cluster Kubernetes config'' e)
      | Inr cfg \<Rightarrow>
          (case NewForConfig lib cfg of
             Inl e \<Rightarrow> Inl (wrapf ''create Kubernetes client'' e)
           | Inr client \<Rightarrow> Inr client))"

section \<open>The constructors\<close>

definition NewKubernetesCredentialStore :: "'w clientset \<Rightarrow> string \<Rightarrow> string \<Rightarrow> 'w CredentialStore" where
  "NewKubernetesCredentialStore client namespace name =
     \<lparr>store_secrets = cs_secrets client, store_namespace = namespace, store_name = name\<rparr>"

definition NewInClusterCredentialStore :: "('c, 'w) client_go \<Rightarrow> string \<Rightarrow> string \<Rightarrow> 'w CredentialStore go_result" where
  "NewInClusterCredentialStore lib namespace name =
     (case in_cluster_client lib of
        Inl e \<Rightarrow> Inl e
      | Inr client \<Rightarrow> Inr (NewKubernetesCredentialStore client namespace name))"

definition NewKubernetesRegistrationTokenSource :: "'w clientset \<Rightarrow> string \<Rightarrow> string \<Rightarrow> 'w CredentialStore" where
  "NewKubernetesRegistrationTokenSource client namespace name =
     \<lparr>store_secrets = cs_secrets client, store_namespace = namespace, store_name = name\<rparr>"

definition NewInClusterRegistrationTokenSource :: "('c, 'w) client_go \<Rightarrow> string \<Rightarrow> string \<Rightarrow> 'w CredentialStore go_result" where
  "NewInClusterRegistrationTokenSource lib namespace name =
     (case in_cluster_client lib of
        Inl e \<Rightarrow> Inl e
      | Inr client \<Rightarrow> Inr (NewKubernetesRegistrationTokenSource client namespace name))"

text \<open>A service starts with an empty cache; \<open>sorter\<close> is the sort of its events.\<close>

definition NewInClusterService :: "('c, 'w) client_go \<Rightarrow> Event sorter \<Rightarrow> ((Service \<times> 'w) Kubernetes \<times> Service) go_result" where
  "NewInClusterService lib sorter =
     (case in_cluster_client lib of
        Inl e \<Rightarrow> Inl e
      | Inr client \<Rightarrow> Inr (kube_service (cs_resources client) sorter, NewService))"

section \<open>Facts\<close>

text \<open>The three succeed together: whether the agent can reach its cluster does not depend on which client it asks for.\<close>

lemma in_cluster_together:
  "NewInClusterCredentialStore lib ns name = Inl e \<longleftrightarrow> in_cluster_client lib = Inl e"
  "NewInClusterRegistrationTokenSource lib ns name = Inl e \<longleftrightarrow> in_cluster_client lib = Inl e"
  "NewInClusterService lib sorter = Inl e \<longleftrightarrow> in_cluster_client lib = Inl e"
  by (auto simp: NewInClusterCredentialStore_def NewInClusterRegistrationTokenSource_def NewInClusterService_def
      split: sum.split)

lemma NewInClusterCredentialStore_secrets:
  "NewInClusterCredentialStore lib ns name = Inr s \<Longrightarrow>
    \<exists>client. in_cluster_client lib = Inr client \<and> s = NewKubernetesCredentialStore client ns name"
  by (auto simp: NewInClusterCredentialStore_def split: sum.splits)

end
