(* ===== verification/App.thy ===== *)
theory App
  imports GatewayClient Telemetry InCluster
begin

text \<open>
  The application (\<open>internal/app/app.go\<close>): how the agent gets its
  identity, what it builds from the configuration, the loop that runs a client and waits for
  rotated credentials when access is revoked, and the polling loops.

  A context, the timers and the scheduler are the record \<open>runtime\<close> over the world: whether the context is
  done, and a wait that ends with the timer or with the context. A polling loop may run for ever; it gets
  fuel, and \<open>None\<close> means that it still polls.
\<close>

section \<open>The identity of the agent\<close>

definition registrationToken :: "Config \<Rightarrow> 'w CredentialStore option \<Rightarrow> go_ctx \<Rightarrow> ('w, string) api" where
  "registrationToken cfg source ctx w =
     (case source of
        None \<Rightarrow> (w, Inr (cfg_RegistrationToken cfg))
      | Some s \<Rightarrow> TokenSource_Load s ctx w)"

definition App_identity ::
  "Config \<Rightarrow> 'w http_client \<Rightarrow> 'w CredentialStore \<Rightarrow> 'w CredentialStore option \<Rightarrow> string \<Rightarrow> go_ctx \<Rightarrow> ('w, Identity) api" where
  "App_identity cfg http store source runtimeVersion ctx w =
     (case Credentials_Load store ctx w of
        (w1, Inl e) \<Rightarrow> (w1, Inl (wrapf ''load agent credentials'' e))
      | (w1, Inr identity) \<Rightarrow>
          if Identity_Valid identity then (w1, Inr identity)
          else if \<not> cfg_CredentialsWriteEnabled cfg
            then (w1, Inl (ErrorString (''agent credentials are absent; provision agent_id and agent_token '' @
              ''through an external Secret manager'')))
          else (case registrationToken cfg source ctx w1 of
                  (w2, Inl e) \<Rightarrow> (w2, Inl e)
                | (w2, Inr token) \<Rightarrow>
                    (case Bootstrap (Credentials_Load store) (Credentials_Save store)
                            (Register http (NewRegistrar (cfg_PlatformURL cfg) token))
                            ctx token (cfg_ClusterName cfg) runtimeVersion w2 of
                       (w3, Inl e) \<Rightarrow> (w3, Inl (wrapf ''register agent'' e))
                     | (w3, Inr (identity, registered)) \<Rightarrow> (w3, Inr identity))))"

section \<open>Polling\<close>

record 'w runtime =
  rt_ctx :: "'w \<Rightarrow> go_ctx"
  rt_wait :: "int64 \<Rightarrow> 'w \<Rightarrow> 'w \<times> bool"

text \<open>\<open>waitContext\<close>: the timer fires, or the context is done; its error is one of the two of the package \<open>context\<close>.\<close>

definition waitContext :: "'w runtime \<Rightarrow> int64 \<Rightarrow> 'w \<Rightarrow> 'w \<times> bool" where
  "waitContext rt delay w = rt_wait rt delay w"

definition runtime_contract :: "'w runtime \<Rightarrow> bool" where
  "runtime_contract rt \<longleftrightarrow> (\<forall>d w w'. rt_wait rt d w = (w', False) \<longrightarrow> rt_ctx rt w' \<noteq> None) \<and>
     (\<forall>w. rt_ctx rt w \<in> {None, Some Canceled, Some DeadlineExceeded})"

text \<open>\<open>return auth.Identity{}, ctx.Err()\<close>.\<close>

definition ctx_result :: "'w runtime \<Rightarrow> 'w \<Rightarrow> Identity go_result" where
  "ctx_result rt w = (case rt_ctx rt w of Some x \<Rightarrow> Inl (Sentinel x) | None \<Rightarrow> Inr zero_identity)"

definition rotated :: "Identity \<Rightarrow> Identity go_result \<Rightarrow> bool" where
  "rotated previous r \<longleftrightarrow>
     (case r of Inl e \<Rightarrow> False | Inr i \<Rightarrow> Identity_Valid i \<and> id_Token i \<noteq> id_Token previous)"

fun waitForUpdatedCredentials ::
  "'w runtime \<Rightarrow> 'w CredentialStore \<Rightarrow> Identity \<Rightarrow> int64 \<Rightarrow> nat \<Rightarrow> 'w \<Rightarrow> ('w \<times> Identity go_result) option" where
  "waitForUpdatedCredentials rt store previous pollInterval 0 w = None"
| "waitForUpdatedCredentials rt store previous pollInterval (Suc fuel) w =
     (case rt_ctx rt w of
        Some x \<Rightarrow> Some (w, Inl (Sentinel x))
      | None \<Rightarrow>
          (case Credentials_Load store None w of
             (w1, r) \<Rightarrow>
               if rotated previous r then Some (w1, r)
               else (case waitContext rt pollInterval w1 of
                       (w2, False) \<Rightarrow> Some (w2, ctx_result rt w2)
                     | (w2, True) \<Rightarrow> waitForUpdatedCredentials rt store previous pollInterval fuel w2)))"

text \<open>The inner loop of \<open>waitForNewRegistration\<close>: an identity once registered is saved until that succeeds.\<close>

fun save_registered ::
  "'w runtime \<Rightarrow> 'w CredentialStore \<Rightarrow> Identity \<Rightarrow> int64 \<Rightarrow> nat \<Rightarrow> 'w \<Rightarrow> ('w \<times> Identity go_result) option" where
  "save_registered rt store identity pollInterval 0 w = None"
| "save_registered rt store identity pollInterval (Suc fuel) w =
     (case Credentials_Save store (rt_ctx rt w) identity w of
        (w1, None) \<Rightarrow> Some (w1, Inr identity)
      | (w1, Some e) \<Rightarrow>
          (case waitContext rt pollInterval w1 of
             (w2, False) \<Rightarrow> Some (w2, ctx_result rt w2)
           | (w2, True) \<Rightarrow> save_registered rt store identity pollInterval fuel w2))"

text \<open>
  One pass of the outer loop up to its wait: the registered identity, or the token that is rejected from now
  on and whether the pass ended with \<open>continue\<close>.
\<close>

definition registration_attempt ::
  "Config \<Rightarrow> 'w http_client \<Rightarrow> 'w CredentialStore option \<Rightarrow> string \<Rightarrow> string \<Rightarrow> 'w \<Rightarrow> 'w \<times> (Identity + string \<times> bool)" where
  "registration_attempt cfg http source version rejectedToken w =
     (case registrationToken cfg source None w of
        (w1, Inl e) \<Rightarrow> (w1, Inr (rejectedToken, False))
      | (w1, Inr token) \<Rightarrow>
          if token = [] \<or> token = rejectedToken then (w1, Inr (rejectedToken, False))
          else (case Register http (NewRegistrar (cfg_PlatformURL cfg) token) None (cfg_ClusterName cfg) version w1 of
                  (w2, Inr identity) \<Rightarrow>
                    if id_AgentID identity = [] \<or> \<not> Identity_Valid identity then (w2, Inr (token, True))
                    else (w2, Inl identity)
                | (w2, Inl e) \<Rightarrow>
                    (w2, Inr (if IsPermanentRegistrationError e then token else rejectedToken, False))))"

fun waitForNewRegistration ::
  "Config \<Rightarrow> 'w http_client \<Rightarrow> 'w runtime \<Rightarrow> 'w CredentialStore \<Rightarrow> 'w CredentialStore option \<Rightarrow> string \<Rightarrow> int64 \<Rightarrow>
   nat \<Rightarrow> string \<Rightarrow> 'w \<Rightarrow> ('w \<times> Identity go_result) option" where
  "waitForNewRegistration cfg http rt store source version pollInterval 0 rejectedToken w = None"
| "waitForNewRegistration cfg http rt store source version pollInterval (Suc fuel) rejectedToken w =
     (case rt_ctx rt w of
        Some x \<Rightarrow> Some (w, Inl (Sentinel x))
      | None \<Rightarrow>
          (case registration_attempt cfg http source version rejectedToken w of
             (w1, Inl identity) \<Rightarrow> save_registered rt store identity pollInterval fuel w1
           | (w1, Inr (rejected, True)) \<Rightarrow>
               waitForNewRegistration cfg http rt store source version pollInterval fuel rejected w1
           | (w1, Inr (rejected, False)) \<Rightarrow>
               (case waitContext rt pollInterval w1 of
                  (w2, False) \<Rightarrow> Some (w2, ctx_result rt w2)
                | (w2, True) \<Rightarrow>
                    waitForNewRegistration cfg http rt store source version pollInterval fuel rejected w2)))"

section \<open>The application\<close>

text \<open>What the application takes from outside the repository: client-go, the sort of Go's library, and HTTP.\<close>

record ('c, 'w) cluster =
  cluster_go :: "('c, 'w) client_go"
  cluster_sorter :: "Event sorter"
  cluster_http :: "'w http_client"

text \<open>The address and the handler of the server for metrics and probes, which runs beside the loop.\<close>

definition App_metrics :: "Config \<Rightarrow> int \<Rightarrow> HealthState \<Rightarrow> (string \<times> (string \<Rightarrow> int)) option" where
  "App_metrics cfg metrics_page health =
     (if cfg_MetricsAddr cfg \<noteq> [] then Some (cfg_MetricsAddr cfg, metrics_server metrics_page (Some health)) else None)"

definition app_options :: "Config \<Rightarrow> Identity \<Rightarrow> string \<Rightarrow> Options" where
  "app_options cfg identity runtimeVersion =
     \<lparr>opt_GatewayURL = cfg_GatewayURL cfg, opt_Identity = identity, opt_ClusterName = cfg_ClusterName cfg,
      opt_Version = runtimeVersion, opt_CommandTimeout = cfg_CommandTimeout cfg,
      opt_HeartbeatPeriod = cfg_HeartbeatPeriod cfg, opt_MaxConcurrentCommands = 0\<rparr>"

text \<open>
  \<open>App.Run\<close> up to its loop: the identity, the store to poll, and the router with the service whose first state is the
  empty cache.
\<close>

definition App_prepare ::
  "('c, 'w) cluster \<Rightarrow> Config \<Rightarrow> string \<Rightarrow> go_ctx \<Rightarrow>
   ('w, Identity \<times> 'w CredentialStore \<times> (Service \<times> 'w) Router \<times> Service) api" where
  "App_prepare cl cfg runtimeVersion ctx w =
     (case NewInClusterCredentialStore (cluster_go cl) (cfg_Namespace cfg) (cfg_CredentialsSecretName cfg) of
        Inl e \<Rightarrow> (w, Inl (wrapf ''create credentials store'' e))
      | Inr store \<Rightarrow>
          (case (if cfg_RegistrationTokenSecretName cfg = [] then Inr None
                 else map_sum (wrapf ''create registration token source'') Some
                   (NewInClusterRegistrationTokenSource (cluster_go cl) (cfg_Namespace cfg)
                     (cfg_RegistrationTokenSecretName cfg))) of
             Inl e \<Rightarrow> (w, Inl e)
           | Inr source \<Rightarrow>
               (case App_identity cfg (cluster_http cl) store source runtimeVersion ctx w of
                  (w1, Inl e) \<Rightarrow> (w1, Inl e)
                | (w1, Inr identity) \<Rightarrow>
                    (case NewInClusterService (cluster_go cl) (cluster_sorter cl) of
                       Inl e \<Rightarrow> (w1, Inl e)
                     | Inr (kubeService, svc) \<Rightarrow>
                         (w1, Inr (identity, store, NewRouter kubeService (config_guard cfg) (config_limits cfg), svc))))))"

datatype app_pc = AppServing Identity | AppWaiting Identity | AppReturned go_error

record app_state =
  app_pc :: app_pc
  app_health :: HealthState
  app_clock :: instant
  app_identities :: "Identity list"
  app_taken :: "(instant \<times> Command) list list"

definition start_app :: "Identity \<Rightarrow> app_state" where
  "start_app identity =
     \<lparr>app_pc = AppServing identity, app_health = SetCredentialsReady (Identity_Valid identity) NewHealthState,
      app_clock = 0, app_identities = [identity], app_taken = []\<rparr>"

text \<open>
  The loop of \<open>App.Run\<close>: one step is the whole life of a client, or the whole wait for rotated credentials. When a
  client has returned, no connection is open and each one has reported its end. Time counts from the start of the loop.
  \<open>app_identities\<close> and \<open>app_taken\<close>, the commands that each client handed to workers, are history.
\<close>

inductive app_step ::
  "Config \<Rightarrow> string \<Rightarrow> 'w runtime \<Rightarrow> 'w CredentialStore \<Rightarrow> (Command \<Rightarrow> response \<Rightarrow> bool) \<Rightarrow> app_state \<Rightarrow> app_state \<Rightarrow> bool"
  for cfg :: Config and version :: string and rt :: "'w runtime" and store :: "'w CredentialStore"
    and handles :: "Command \<Rightarrow> response \<Rightarrow> bool" where
  app_revoked: "app_pc a = AppServing i \<Longrightarrow> c = NewClient (app_options cfg i version) \<Longrightarrow> app_clock a \<le> now \<Longrightarrow>
    client_reachable handles c (start_client c ctx now) st \<Longrightarrow> cl_pc st = ClReturned e \<Longrightarrow>
    errors_is e AccessRevoked \<Longrightarrow>
    app_step cfg version rt store handles a
      (a\<lparr>app_pc := AppWaiting i, app_health := SetGatewayConnected False (app_health a), app_clock := cl_clock st,
         app_taken := app_taken a @ [cl_taken st]\<rparr>)"
| app_done: "app_pc a = AppServing i \<Longrightarrow> c = NewClient (app_options cfg i version) \<Longrightarrow> app_clock a \<le> now \<Longrightarrow>
    client_reachable handles c (start_client c ctx now) st \<Longrightarrow> cl_pc st = ClReturned e \<Longrightarrow>
    \<not> errors_is e AccessRevoked \<Longrightarrow>
    app_step cfg version rt store handles a
      (a\<lparr>app_pc := AppReturned e, app_health := SetGatewayConnected False (app_health a), app_clock := cl_clock st,
         app_taken := app_taken a @ [cl_taken st]\<rparr>)"
| app_rotated: "app_pc a = AppWaiting i \<Longrightarrow>
    waitForUpdatedCredentials rt store i (word_of_int (10 * second)) fuel w = Some (w', Inr i') \<Longrightarrow> app_clock a \<le> later \<Longrightarrow>
    app_step cfg version rt store handles a
      (a\<lparr>app_pc := AppServing i', app_health := SetCredentialsReady (Identity_Valid i') (app_health a),
         app_clock := later, app_identities := app_identities a @ [i']\<rparr>)"
| app_wait_done: "app_pc a = AppWaiting i \<Longrightarrow>
    waitForUpdatedCredentials rt store i (word_of_int (10 * second)) fuel w = Some (w', Inl e) \<Longrightarrow>
    app_step cfg version rt store handles a (a\<lparr>app_pc := AppReturned e\<rparr>)"

section \<open>Facts\<close>

lemma App_identity_complete:
  assumes "App_identity cfg http store source v ctx w = (w', Inr i)"
  shows "complete i"
proof -
  obtain w1 r where l: "Credentials_Load store ctx w = (w1, r)" by (cases "Credentials_Load store ctx w")
  show ?thesis
  proof (cases r)
    case (Inl e)
    with l assms show ?thesis by (simp add: App_identity_def)
  next
    case (Inr j)
    show ?thesis
    proof (cases "Identity_Valid j")
      case True
      with assms l Inr show ?thesis
        using kube_credentials.valid_iff_complete [of store ctx w w1 j] by (simp add: App_identity_def)
    next
      case False
      with assms l Inr obtain w2 token registered where
        "Bootstrap (Credentials_Load store) (Credentials_Save store) (Register http (NewRegistrar (cfg_PlatformURL cfg) token))
           ctx token (cfg_ClusterName cfg) v w2 = (w', Inr (i, registered))"
        by (auto simp: App_identity_def split: prod.splits sum.splits if_splits)
      then show ?thesis by (auto simp: kube_credentials.bootstrap_returns split: if_splits)
    qed
  qed
qed

lemma rotated_complete:
  assumes "Credentials_Load store ctx w = (w', r)" and "rotated previous r"
  obtains i where "r = Inr i" "complete i" "id_Token i \<noteq> id_Token previous"
  using assms kube_credentials.valid_iff_complete [of store ctx w w'] by (auto simp: rotated_def split: sum.splits)

definition ctx_error :: "go_error \<Rightarrow> bool" where
  "ctx_error e \<longleftrightarrow> e = Sentinel Canceled \<or> e = Sentinel DeadlineExceeded"

lemma ctx_result_error:
  "runtime_contract rt \<Longrightarrow> rt_ctx rt w \<noteq> None \<Longrightarrow> \<exists>e. ctx_result rt w = Inl e \<and> ctx_error e"
  "runtime_contract rt \<Longrightarrow> rt_ctx rt w = Some x \<Longrightarrow> ctx_error (Sentinel x)"
  by (auto simp: ctx_result_def ctx_error_def runtime_contract_def split: option.split dest: spec [of _ w])

lemma waitForUpdatedCredentials_result:
  assumes "runtime_contract rt"
  shows "waitForUpdatedCredentials rt store previous d fuel w = Some (w', r) \<Longrightarrow>
    (\<exists>e. r = Inl e \<and> ctx_error e) \<or> (\<exists>i. r = Inr i \<and> complete i \<and> id_Token i \<noteq> id_Token previous)"
proof (induction fuel arbitrary: w)
  case (Suc fuel)
  show ?case
  proof (cases "rt_ctx rt w")
    case None
    obtain w1 q where l: "Credentials_Load store None w = (w1, q)" by (cases "Credentials_Load store None w")
    show ?thesis
    proof (cases "rotated previous q")
      case True
      with Suc.prems None l rotated_complete [OF l] show ?thesis by auto
    next
      case False
      obtain w2 b where wt: "waitContext rt d w1 = (w2, b)" by (cases "waitContext rt d w1")
      show ?thesis
      proof (cases b)
        case True
        with Suc None l False wt show ?thesis by simp
      next
        case f: False
        then have "rt_ctx rt w2 \<noteq> None" using assms wt by (auto simp: runtime_contract_def waitContext_def)
        with Suc.prems None l False wt f ctx_result_error(1) [OF assms, of w2] show ?thesis by auto
      qed
    qed
  qed (use Suc.prems ctx_result_error(2) [OF assms] in auto)
qed simp

text \<open>A rotation that the store shows at the next poll ends the wait at once.\<close>

lemma waitForUpdatedCredentials_poll:
  "rt_ctx rt w = None \<Longrightarrow> Credentials_Load store None w = (w', r) \<Longrightarrow> rotated previous r \<Longrightarrow>
    waitForUpdatedCredentials rt store previous d (Suc fuel) w = Some (w', r)"
  by simp

lemma save_registered_result:
  assumes "runtime_contract rt"
  shows "save_registered rt store i d fuel w = Some (w', r) \<Longrightarrow>
    (\<exists>e. r = Inl e \<and> ctx_error e) \<or> (r = Inr i \<and> (\<exists>ctx w1. Credentials_Save store ctx i w1 = (w', None)))"
proof (induction fuel arbitrary: w)
  case (Suc fuel)
  obtain w1 q where s: "Credentials_Save store (rt_ctx rt w) i w = (w1, q)" by (cases "Credentials_Save store (rt_ctx rt w) i w")
  show ?case
  proof (cases q)
    case None
    with Suc.prems s show ?thesis by auto
  next
    case (Some e)
    obtain w2 b where wt: "waitContext rt d w1 = (w2, b)" by (cases "waitContext rt d w1")
    show ?thesis
    proof (cases b)
      case True
      with Suc s Some wt show ?thesis by simp
    next
      case f: False
      then have "rt_ctx rt w2 \<noteq> None" using assms wt by (auto simp: runtime_contract_def waitContext_def)
      with Suc.prems s Some wt f ctx_result_error(1) [OF assms, of w2] show ?thesis by auto
    qed
  qed
qed simp

lemma registration_attempt_complete:
  "registration_attempt cfg http source v rejected w = (w1, Inl i) \<Longrightarrow> complete i"
  by (auto simp: registration_attempt_def complete_def Identity_Valid_def split: prod.splits sum.splits if_splits)

lemma waitForNewRegistration_result:
  assumes "runtime_contract rt"
  shows "waitForNewRegistration cfg http rt store source v d fuel rejected w = Some (w', r) \<Longrightarrow>
    (\<exists>e. r = Inl e \<and> ctx_error e) \<or>
    (\<exists>i ctx w1. r = Inr i \<and> complete i \<and> Credentials_Save store ctx i w1 = (w', None))"
proof (induction fuel arbitrary: rejected w)
  case (Suc fuel)
  show ?case
  proof (cases "rt_ctx rt w")
    case None
    obtain w1 q where a: "registration_attempt cfg http source v rejected w = (w1, q)"
      by (cases "registration_attempt cfg http source v rejected w")
    show ?thesis
    proof (cases q)
      case (Inl i)
      then have "save_registered rt store i d fuel w1 = Some (w', r)" using Suc.prems None a by simp
      from save_registered_result [OF assms this] registration_attempt_complete [OF a [unfolded Inl]] show ?thesis by auto
    next
      case (Inr t)
      obtain rejected' again where t: "t = (rejected', again)" by (cases t)
      obtain w2 b where wt: "waitContext rt d w1 = (w2, b)" by (cases "waitContext rt d w1")
      show ?thesis
      proof (cases "again \<or> b")
        case True
        with Suc None a Inr t wt show ?thesis by (cases again; cases b) auto
      next
        case f: False
        then have "rt_ctx rt w2 \<noteq> None" using assms wt by (auto simp: runtime_contract_def waitContext_def)
        with Suc.prems None a Inr t wt f ctx_result_error(1) [OF assms, of w2] show ?thesis by auto
      qed
    qed
  qed (use Suc.prems ctx_result_error(2) [OF assms] in auto)
qed simp

text \<open>A token that was rejected for good is not sent again while the Secret still holds it.\<close>

lemma rejected_token_not_sent:
  "registrationToken cfg source None w = (w1, Inr rejected) \<Longrightarrow>
    registration_attempt cfg http source v rejected w = (w1, Inr (rejected, False))"
  by (simp add: registration_attempt_def)

inductive app_reachable ::
  "Config \<Rightarrow> string \<Rightarrow> 'w runtime \<Rightarrow> 'w CredentialStore \<Rightarrow> (Command \<Rightarrow> response \<Rightarrow> bool) \<Rightarrow> app_state \<Rightarrow> app_state \<Rightarrow> bool"
  for cfg version rt store handles a0 where
  app_start: "app_reachable cfg version rt store handles a0 a0"
| app_more: "app_reachable cfg version rt store handles a0 a \<Longrightarrow> app_step cfg version rt store handles a a' \<Longrightarrow>
    app_reachable cfg version rt store handles a0 a'"

definition current_identity :: "app_pc \<Rightarrow> Identity option" where
  "current_identity pc = (case pc of AppServing i \<Rightarrow> Some i | AppWaiting i \<Rightarrow> Some i | AppReturned e \<Rightarrow> None)"

definition app_ok :: "app_state \<Rightarrow> bool" where
  "app_ok a \<longleftrightarrow> app_identities a \<noteq> [] \<and> list_all complete (app_identities a) \<and>
     successively (\<lambda>i j. id_Token j \<noteq> id_Token i) (app_identities a) \<and>
     (\<forall>i. current_identity (app_pc a) = Some i \<longrightarrow> i = last (app_identities a)) \<and>
     credentialsReady (app_health a) \<and> \<not> gatewayConnected (app_health a) \<and>
     (\<forall>e. app_pc a = AppReturned e \<longrightarrow> \<not> errors_is e AccessRevoked)"

lemma app_ok_start: "complete i \<Longrightarrow> app_ok (start_app i)"
  by (simp add: app_ok_def start_app_def current_identity_def SetCredentialsReady_def NewHealthState_def
      Identity_Valid_def complete_def)

lemma app_ok_step:
  assumes "app_step cfg version rt store handles a a'" and "app_ok a" and "runtime_contract rt"
  shows "app_ok a'"
  using assms
proof (induction rule: app_step.induct)
  case (app_rotated a i fuel w w' i' later)
  from waitForUpdatedCredentials_result [OF app_rotated(5,2)] have "complete i'" "id_Token i' \<noteq> id_Token i" by auto
  with app_rotated(1,4) show ?case
    by (auto simp: app_ok_def current_identity_def SetCredentialsReady_def Identity_Valid_def complete_def
        successively_append_iff)
next
  case (app_wait_done a i fuel w w' e)
  from waitForUpdatedCredentials_result [OF app_wait_done(4,2)] have "ctx_error e" by auto
  with app_wait_done(3) show ?case by (auto simp: app_ok_def current_identity_def ctx_error_def)
qed (auto simp: app_ok_def current_identity_def SetGatewayConnected_def)


lemma app_ok_reachable:
  "app_reachable cfg version rt store handles (start_app i) a \<Longrightarrow> complete i \<Longrightarrow> runtime_contract rt \<Longrightarrow> app_ok a"
proof (induction rule: app_reachable.induct)
  case app_start
  then show ?case by (intro app_ok_start)
next
  case (app_more a a')
  then show ?case by (intro app_ok_step [OF app_more(2)])
qed

text \<open>The commands of each client on its own keep the ten minutes; nothing is remembered from one client to the next.\<close>

lemma app_taken_spaced:
  "app_reachable cfg version rt store handles (start_app i) a \<Longrightarrow> list_all spaced (app_taken a)"
proof (induction rule: app_reachable.induct)
  case (app_more a a')
  from app_more(2,1,3) show ?case
    by (induction rule: app_step.induct) (auto simp: client_ok_def history_ok_def dest!: client_ok_reachable)
qed (simp add: start_app_def)

text \<open>
  Readiness while a connection is served: \<open>OnHeartbeat\<close> sets the gateway as connected after each heartbeat that was written;
  the state before the connection is the one of \<open>app_health\<close>.
\<close>

definition serving_health :: "HealthState \<Rightarrow> conn \<Rightarrow> HealthState" where
  "serving_health h s = (if c_beats s = 0 then h else SetGatewayConnected True h)"

lemma beats_sent: "conn_step handles limit s s' \<Longrightarrow> count_list (c_sent s) SentHeartbeat = c_beats s \<Longrightarrow>
    count_list (c_sent s') SentHeartbeat = c_beats s'"
  by (induction rule: conn_step.induct) (auto simp: on_message_def split: sum.split option.split prod.split)

lemma beats_reachable:
  "conn_reachable handles limit s0 s \<Longrightarrow> count_list (c_sent s0) SentHeartbeat = c_beats s0 \<Longrightarrow>
    count_list (c_sent s) SentHeartbeat = c_beats s"
  by (induction rule: conn_reachable.induct) (auto dest: beats_sent)

lemma serving_ready:
  assumes "app_ok a" and "conn_reachable handles limit ((start_conn ctx seen now)\<lparr>c_taken := taken\<rparr>) s"
  shows "readyz (Some (serving_health (app_health a) s)) = 200 \<longleftrightarrow> SentHeartbeat \<in> set (c_sent s)"
proof -
  have "count_list (c_sent s) SentHeartbeat = c_beats s"
    using beats_reachable [OF assms(2)] by (simp add: start_conn_def)
  then have "SentHeartbeat \<in> set (c_sent s) \<longleftrightarrow> c_beats s \<noteq> 0" by (metis count_list_0_iff)
  then show ?thesis
    using assms(1) by (simp add: readyz_def serving_health_def Health_Ready_def app_ok_def SetGatewayConnected_def)
qed

text \<open>The worlds at the beginnings of the polls, while no poll ends the loop.\<close>

fun poll_world :: "'w runtime \<Rightarrow> 'w CredentialStore \<Rightarrow> int64 \<Rightarrow> 'w \<Rightarrow> nat \<Rightarrow> 'w" where
  "poll_world rt store d w 0 = w"
| "poll_world rt store d w (Suc n) =
     poll_world rt store d (fst (waitContext rt d (fst (Credentials_Load store None w)))) n"

definition poll_waits :: "'w runtime \<Rightarrow> 'w CredentialStore \<Rightarrow> int64 \<Rightarrow> 'w \<Rightarrow> bool" where
  "poll_waits rt store d w \<longleftrightarrow> rt_ctx rt w = None \<and> snd (waitContext rt d (fst (Credentials_Load store None w)))"

lemma rotation_found:
  "\<forall>k<n. poll_waits rt store d (poll_world rt store d w k) \<Longrightarrow> rt_ctx rt (poll_world rt store d w n) = None \<Longrightarrow>
    rotated previous (snd (Credentials_Load store None (poll_world rt store d w n))) \<Longrightarrow> n < fuel \<Longrightarrow>
    \<exists>w' i. waitForUpdatedCredentials rt store previous d fuel w = Some (w', Inr i) \<and> complete i \<and>
      id_Token i \<noteq> id_Token previous"
proof (induction fuel arbitrary: n w)
  case (Suc fuel)
  obtain w1 q where l: "Credentials_Load store None w = (w1, q)" by (cases "Credentials_Load store None w")
  have live: "rt_ctx rt w = None"
    using Suc.prems(1,2) by (cases n) (auto simp: poll_waits_def dest!: spec [of _ 0])
  show ?case
  proof (cases "rotated previous q")
    case True
    with live l rotated_complete [OF l] show ?thesis by auto
  next
    case False
    with Suc.prems(3) l obtain m where n: "n = Suc m" by (cases n) auto
    obtain w2 where w2: "waitContext rt d w1 = (w2, True)"
      using Suc.prems(1) n l by (cases "waitContext rt d w1") (auto simp: poll_waits_def dest: spec [of _ 0])
    have "poll_world rt store d w (Suc k) = poll_world rt store d w2 k" for k by (simp add: l w2)
    moreover have "poll_waits rt store d (poll_world rt store d w (Suc k))" if "k < m" for k using Suc.prems(1) that n by blast
    ultimately have "\<forall>k<m. poll_waits rt store d (poll_world rt store d w2 k)" by simp
    with Suc.IH [of m w2] Suc.prems(2-4) n l w2 live False show ?thesis by simp
  qed
qed simp

text \<open>A dial succeeds for every identity when the gateway URL does.\<close>

lemma example_app_dial:
  "\<exists>ws. client_dial (NewClient (app_options (read_config (example_env(''INCIDENTFLOW_HEARTBEAT_PERIOD'' := h))) i v)) (Inr ()) = Inr ws"
proof -
  obtain u where u: "url_Parse ''wss://gateway.example.com/ws'' = Inr u" "url_Scheme u = ''wss''" "url_Host u \<noteq> []"
    using example_url by (auto simp: secure_url_def split: sum.splits)
  have "cfg_GatewayURL (read_config (example_env(''INCIDENTFLOW_HEARTBEAT_PERIOD'' := h))) = ''wss://gateway.example.com/ws''"
    by (simp add: read_config_def example_env_def)
  with u show ?thesis
    by (simp add: client_dial_def dialWebSocket_def dial_handshake_def NewClient_def app_options_def Let_def)
qed

lemma zero_duration: "ParseDuration ''0s'' = Some 0"
  by (simp add: ParseDuration_def duration_sum.simps duration_item_def leadingInt_def number_char_def is_digit_def
      digits_val_def digit_val_def duration_units_def Let_def)

section \<open>Properties\<close>



text \<open>One rotation: the handshake is refused with 401, and the next poll finds a new token in the Secret.\<close>

definition secret_world :: "string \<Rightarrow> (string \<rightharpoonup> string) option" where
  "secret_world token = Some [AgentIDKey \<mapsto> ''agent_1'', AgentTokenKey \<mapsto> token]"

definition example_runtime :: "(string \<rightharpoonup> string) option runtime" where
  "example_runtime = \<lparr>rt_ctx = (\<lambda>w. None), rt_wait = (\<lambda>d w. (w, True))\<rparr>"

lemma example_runtime_contract: "runtime_contract example_runtime"
  by (simp add: runtime_contract_def example_runtime_def)

lemma secret_world_loads:
  "token \<noteq> [] \<Longrightarrow> Credentials_Load example_store ctx (secret_world token) =
     (secret_world token, Inr (zero_identity\<lparr>id_AgentID := ''agent_1'', id_Token := token\<rparr>))"
  by (simp add: Credentials_Load_def example_store_def example_secrets_def secret_world_def secret_value_def key_defs Let_def)

lemma example_rotated:
  assumes "app_pc a = AppWaiting (zero_identity\<lparr>id_AgentID := ''agent_1'', id_Token := ''old''\<rparr>)"
    and "j = zero_identity\<lparr>id_AgentID := ''agent_1'', id_Token := ''new''\<rparr>"
  shows "app_step cfg v example_runtime example_store handles a
    (a\<lparr>app_pc := AppServing j, app_health := SetCredentialsReady (Identity_Valid j) (app_health a),
       app_clock := app_clock a, app_identities := app_identities a @ [j]\<rparr>)"
proof (rule app_rotated [OF assms(1)])
  show "waitForUpdatedCredentials example_runtime example_store (zero_identity\<lparr>id_AgentID := ''agent_1'', id_Token := ''old''\<rparr>)
      (word_of_int (10 * second)) (Suc 0) (secret_world ''new'') = Some (secret_world ''new'', Inr j)"
    unfolding assms(2)
    by (rule waitForUpdatedCredentials_poll) (simp_all add: secret_world_loads example_runtime_def rotated_def Identity_Valid_def)
qed simp


text \<open>
  Registering anew ends only with the context or with a complete identity that was saved just before, so a
  registration that the platform accepted is never used without being kept.
\<close>

theorem new_registration_persisted:
  assumes "runtime_contract rt"
    and "waitForNewRegistration cfg http rt store source v d fuel rejected w = Some (w', r)"
  shows "(\<exists>e. r = Inl e \<and> ctx_error e) \<or>
    (\<exists>i ctx w1. r = Inr i \<and> complete i \<and> Credentials_Save store ctx i w1 = (w', None))"
  by (rule waitForNewRegistration_result [OF assms])

text \<open>A platform that answers every registration with the same credentials.\<close>

definition example_platform :: "(string \<rightharpoonup> string) option http_client" where
  "example_platform = (\<lambda>ctx request w. (w, Inr \<lparr>res_StatusCode = 201,
     res_Body = print_json (JObj [(''agent_id'', JStr ''agent_1''), (''agent_token'', JStr ''fresh'')]), res_Error = None\<rparr>))"

lemma example_registration:
  "Register example_platform (NewRegistrar ''https://api.example.com'' token) ctx c v w =
     (w, Inr (zero_identity\<lparr>id_AgentID := ''agent_1'', id_Token := ''fresh''\<rparr>))"
proof -
  let ?j = "JObj [(''agent_id'', JStr ''agent_1''), (''agent_token'', JStr ''fresh'')]"
  let ?b = "print_json ?j"
  have "\<not> (case url_Parse (''https://api.example.com'' @ ''/api/v1/agents/register'') of Inl e \<Rightarrow> True | Inr u \<Rightarrow> False)"
    by code_simp
  then obtain u where u: "url_Parse (''https://api.example.com'' @ ''/api/v1/agents/register'') = Inr u"
    by (cases "url_Parse (''https://api.example.com'' @ ''/api/v1/agents/register'')") auto
  have b: "?b = ''{'' @ [CHR 0x22] @ ''agent_id'' @ [CHR 0x22, CHR '':'', CHR 0x22] @ ''agent_1'' @ [CHR 0x22, CHR '','', CHR 0x22] @
      ''agent_token'' @ [CHR 0x22, CHR '':'', CHR 0x22] @ ''fresh'' @ [CHR 0x22, CHR ''}'']"
    by code_simp
  have s: "skip_ws (take (2 ^ 20) ?b) = ?b" unfolding b by (simp add: skip_ws_def is_ws_def)
  have "parse_value (2 * length ?b + 2) max_nesting ?b = Some (clean_json ?j, [])"
    using reads_back_printable [of max_nesting ?j] unfolding reads_back_def
    by (auto simp: max_nesting_def value_end_def dest!: spec [of _ "[]"])
  moreover have "clean_json ?j = ?j" by code_simp
  ultimately have p: "parse_value (2 * length ?b + 2) max_nesting ?b = Some (?j, [])" by (simp only:)
  have f: "fold_name ''agent_id'' = ''AGENT_ID''" "fold_name ''agent_token'' = ''AGENT_TOKEN''"
    "fold_name ''cluster_id'' = ''CLUSTER_ID''" "fold_name ''gateway_url'' = ''GATEWAY_URL''"
    by code_simp+
  have "unmarshal_value registration_response zero_identity ?j =
      Inr (zero_identity\<lparr>id_AgentID := ''agent_1'', id_Token := ''fresh''\<rparr>)"
    by (simp add: registration_response_def unmarshal_value_def field_decoder_def on_field_def first_error_def f)
  then have "decode_first registration_response zero_identity
      \<lparr>res_StatusCode = 201, res_Body = ?b, res_Error = None\<rparr> =
      Inr (zero_identity\<lparr>id_AgentID := ''agent_1'', id_Token := ''fresh''\<rparr>)"
    unfolding decode_first_def Let_def by (simp only: http_response.simps s p option.case prod.case)
  with u show ?thesis by (simp add: Register_def NewRegistrar_def example_platform_def del: print_json.simps)
qed

theorem new_registration_persisted_witness:
  "\<exists>w' i. waitForNewRegistration (read_config (example_env(''INCIDENTFLOW_REGISTRATION_TOKEN'' := ''t''))) example_platform
       example_runtime example_store None ''v'' 1 2 [] (Some Map.empty) = Some (w', Inr i) \<and> complete i"
proof -
  let ?cfg = "read_config (example_env(''INCIDENTFLOW_REGISTRATION_TOKEN'' := ''t''))"
  let ?i = "zero_identity\<lparr>id_AgentID := ''agent_1'', id_Token := ''fresh''\<rparr>"
  have c: "cfg_PlatformURL ?cfg = ''https://api.example.com''" "cfg_RegistrationToken ?cfg = ''t''"
    by (simp_all add: read_config_def example_env_def TrimRight_byte_def)
  have a: "registration_attempt ?cfg example_platform None ''v'' [] w = (w, Inl ?i)" for w
    by (simp add: registration_attempt_def registrationToken_def c example_registration Identity_Valid_def)
  obtain w' where s: "Credentials_Save example_store None ?i (Some Map.empty) = (w', None)"
    by (simp add: Credentials_Save_def example_store_def example_secrets_def)
  have "waitForNewRegistration ?cfg example_platform example_runtime example_store None ''v'' 1 2 [] (Some Map.empty) = Some (w', Inr ?i)"
    using a s by (simp add: numeral_2_eq_2 example_runtime_def)
  from new_registration_persisted [OF example_runtime_contract this] this show ?thesis by (auto simp: ctx_error_def)
qed





text \<open>A client that is revoked after it took a command, as a step of the application.\<close>

lemma example_env_default: "example_env(''INCIDENTFLOW_HEARTBEAT_PERIOD'' := []) = example_env"
  by (simp add: example_env_def fun_eq_iff)

lemma example_app_serves:
  assumes "app_pc a = AppServing i" and "app_clock a = t" and "cfg = read_config example_env"
  shows "app_step cfg v rt store example_handles a
    (a\<lparr>app_pc := AppWaiting i, app_health := SetGatewayConnected False (app_health a), app_clock := t + 1,
       app_taken := app_taken a @ [[(t + 1, discover_command)]]\<rparr>)"
proof -
  let ?c = "NewClient (app_options cfg i v)"
  obtain ws where "client_dial ?c (Inr ()) = Inr ws"
    using example_app_dial [of "[]" i v] unfolding assms(3) example_env_default by auto
  moreover have "cfg_HeartbeatPeriod cfg = word_of_int (30 * second)"
    by (simp add: assms(3) read_config_def getenvDuration_def example_env_def DefaultHeartbeatPeriod_def)
  then have "NewTicker (client_heartbeatPeriod ?c) = None"
    by (simp add: NewTicker_def NewClient_def app_options_def i64_simps sint_word_of_int_64 wrap64_id second_def)
  moreover have "client_maxConcurrentCommands ?c = 8" "client_seenCommands ?c = Mapping.empty"
    by (simp_all add: NewClient_def app_options_def defaultMaxConcurrentCommands_def)
  ultimately obtain st where st: "client_reachable example_handles ?c (start_client ?c None t) st"
    "cl_pc st = ClReturned (revoked_by (CloseError policy_violation []))" "cl_clock st = t + 1"
    "cl_taken st = [(t + 1, discover_command)]" using example_revoked_client by blast
  have "errors_is (revoked_by (CloseError policy_violation [])) AccessRevoked" by (simp add: revoked_by_def)
  from app_revoked [OF assms(1) refl _ st(1,2) this] st(3,4) assms(2) show ?thesis by simp
qed

text \<open>
  C33: the memory of accepted commands does not survive a rotation of the credentials, and that is a bug: with an accepted
  configuration, an agent may take a command, be revoked, find its new token, and take the same command again within the
  ten minutes for which a repeated id must be refused.
\<close>

theorem rotation_forgets_commands:
  "\<exists>env cfg i a cmd t u. Config_Load env = Inr cfg \<and>
    app_reachable cfg ''v'' example_runtime example_store example_handles (start_app i) a \<and>
    app_taken a = [[(t, cmd)], [(u, cmd)]] \<and> t < u \<and> u - t \<le> 10 * minute"
proof -
  let ?cfg = "read_config example_env" and ?d = discover_command
  let ?i = "zero_identity\<lparr>id_AgentID := ''agent_1'', id_Token := ''old''\<rparr>"
  let ?j = "zero_identity\<lparr>id_AgentID := ''agent_1'', id_Token := ''new''\<rparr>"
  let ?reach = "app_reachable ?cfg ''v'' example_runtime example_store example_handles (start_app ?i)"
  note served = example_app_serves [OF _ _ refl, where rt = example_runtime and store = example_store and v = "''v''"]
  have "app_pc (start_app ?i) = AppServing ?i" "app_clock (start_app ?i) = 0" "app_taken (start_app ?i) = []"
    by (simp_all add: start_app_def)
  with served [of "start_app ?i" ?i 0] obtain a1 where
    1: "?reach a1" "app_pc a1 = AppWaiting ?i" "app_clock a1 = 1" "app_taken a1 = [[(1, ?d)]]"
    using app_more [OF app_start] by force
  from app_more [OF 1(1) example_rotated [OF 1(2) refl]] 1(3,4) obtain a2 where
    2: "?reach a2" "app_pc a2 = AppServing ?j" "app_clock a2 = 1" "app_taken a2 = [[(1, ?d)]]" by force
  from app_more [OF 2(1) served [OF 2(2,3)]] 2(4) obtain a3 where
    3: "?reach a3" "app_taken a3 = [[(1, ?d)], [(2, ?d)]]" by force
  have "Config_Load example_env = Inr ?cfg"
    using example_loads [of "[]"] unfolding example_env_default .
  with 3 show ?thesis by (intro exI conjI) (assumption, assumption, assumption, simp_all add: minute_def second_def)
qed

end
