(* ===== verification/CommandLine.thy ===== *)
theory CommandLine
  imports App
begin

text \<open>
  The command line (\<open>cmd/agent/main.go\<close>): \<open>run\<close> with its one flag, the usage text, what is printed where, and the exit
  codes. The package \<open>flag\<close> of Go's library is modelled for one boolean flag, with its messages.
\<close>

section \<open>Flags\<close>

datatype parsed_args = ArgsHelp | ArgsError string | ArgsOk bool

text \<open>
  \<open>flag.FlagSet.Parse\<close> for the one boolean flag \<open>version\<close>: the name of an argument without its one or two dashes
  and without its value, and the loop over the arguments.
\<close>

definition flag_body :: "string \<Rightarrow> string option" where
  "flag_body s =
     (if length s < 2 \<or> hd s \<noteq> CHR ''-'' then None
      else Some (if s ! 1 = CHR ''-'' then drop 2 s else drop 1 s))"

fun parse_args :: "string list \<Rightarrow> bool \<Rightarrow> parsed_args" where
  "parse_args [] showVersion = ArgsOk showVersion"
| "parse_args (s # args) showVersion =
     (case flag_body s of
        None \<Rightarrow> ArgsOk showVersion
      | Some body \<Rightarrow>
          if s = ''--'' then ArgsOk showVersion
          else if body = [] \<or> hd body = CHR ''-'' \<or> hd body = CHR ''='' then ArgsError (''bad flag syntax: '' @ s)
          else let (name, value) = Cut_byte (CHR ''='') body; has_value = (CHR ''='' \<in> set body) in
            if name \<noteq> ''version''
            then (if name = ''help'' \<or> name = ''h'' then ArgsHelp
                  else ArgsError (''flag provided but not defined: -'' @ name))
            else if has_value
              then (case ParseBool value of
                      None \<Rightarrow> ArgsError (''invalid boolean value '' @ go_quote value @ '' for -'' @ name @ '': parse error'')
                    | Some b \<Rightarrow> parse_args args b)
            else parse_args args True)"

section \<open>Texts\<close>

definition text_lines :: "string list \<Rightarrow> string" where
  "text_lines ls = concat (map (\<lambda>l. l @ [CHR 0x0A]) ls)"

text \<open>\<open>PrintDefaults\<close> for the boolean flag, whose default is false.\<close>

definition flag_defaults :: string where
  "flag_defaults = text_lines [''  -version'', ''    '' @ [CHR 0x09] @ ''print version and exit'']"

definition usage :: string where
  "usage = text_lines [
       ''IncidentFlow Kubernetes Agent'',
       ''Outbound-only, read-only Kubernetes diagnostics agent.'',
       '''',
       ''Usage:'',
       ''  incidentflow-k8s-agent [flags]'',
       '''',
       ''Flags:''] @
     flag_defaults @ text_lines [
       '''',
       ''Required environment:'',
       ''  INCIDENTFLOW_PLATFORM_URL        IncidentFlow Platform API base URL.'',
       ''  INCIDENTFLOW_GATEWAY_URL         IncidentFlow Agent Gateway WebSocket URL.'',
       ''  K8S_NAMESPACE_NAME               Namespace containing the credentials Secret.'',
       '''',
       ''Bootstrap (only when credentials are absent):'',
       ''  INCIDENTFLOW_REGISTRATION_TOKEN  One-time registration token; never logged.'',
       '''',
       ''Persistent credentials:'',
       ''  INCIDENTFLOW_CREDENTIALS_SECRET_NAME  Secret with agent_id and agent_token'',
       ''                                      (default: incidentflow-agent-credentials).'',
       ''  The agent reads this Secret first. After bootstrap, pod restarts need no token.'',
       '''',
       ''Runtime options:'',
       ''  INCIDENTFLOW_CLUSTER_NAME         Cluster label (default: unknown-cluster).'',
       ''  INCIDENTFLOW_LOG_LEVEL            debug, info, warn, or error (default: info).'',
       ''  INCIDENTFLOW_LOG_FORMAT           json or console (default: json).'',
       ''  INCIDENTFLOW_NAMESPACE_ALLOWLIST  Comma-separated allowed namespaces.'',
       ''  INCIDENTFLOW_DEFAULT_TAIL_LINES   Default pod log lines (default: 200).'',
       ''  INCIDENTFLOW_MAX_TAIL_LINES       Maximum pod log lines (default: 1000).'',
       ''  INCIDENTFLOW_MAX_LOG_BYTES        Maximum log response bytes (default: 524288).'',
       ''  INCIDENTFLOW_COMMAND_TIMEOUT      Per-command timeout (default: 30s).'',
       ''  INCIDENTFLOW_HEARTBEAT_PERIOD     Gateway heartbeat interval (default: 30s).'',
       ''  INCIDENTFLOW_METRICS_ADDR         Prometheus listener (default: :9090).'']"

definition version_text :: "environment \<Rightarrow> string" where
  "version_text env = text_lines [''IncidentFlow Kubernetes Agent'', ''Version: '' @ Runtime env, ''Commit:  '' @ Commit]"

section \<open>The program\<close>

text \<open>
  What a run leaves: the exit code and the two streams, without the log, which the logger writes. The logger and the
  application are left to the caller, each asked only on the path that reaches it, and so is the shutdown of the traces
  that is deferred. A failure of tracing is logged and ignored. \<open>started\<close> is history: whether the application ran.
\<close>

record outcome =
  exit_code :: int
  on_stdout :: string
  on_stderr :: string
  started :: bool

definition run :: "environment \<Rightarrow> (Config \<Rightarrow> go_error option) \<Rightarrow> (Config \<Rightarrow> go_error option) \<Rightarrow> string list \<Rightarrow> outcome" where
  "run env new_logger app_run args =
     (case parse_args args False of
        ArgsHelp \<Rightarrow> \<lparr>exit_code = 0, on_stdout = [], on_stderr = usage, started = False\<rparr>
      | ArgsError message \<Rightarrow>
          \<lparr>exit_code = 2, on_stdout = [], on_stderr = text_lines [message] @ usage, started = False\<rparr>
      | ArgsOk True \<Rightarrow> \<lparr>exit_code = 0, on_stdout = version_text env, on_stderr = [], started = False\<rparr>
      | ArgsOk False \<Rightarrow>
          (case Config_Load env of
             Inl e \<Rightarrow>
               \<lparr>exit_code = 1, on_stdout = [],
                on_stderr = text_lines [''configuration error: '' @ error_text e, [],
                  ''Run with --help to see required environment variables.''], started = False\<rparr>
           | Inr cfg \<Rightarrow>
               (case new_logger cfg of
                  Some e \<Rightarrow>
                    \<lparr>exit_code = 1, on_stdout = [], on_stderr = text_lines [''logger error: '' @ error_text e], started = False\<rparr>
                | None \<Rightarrow>
                    (case app_run cfg of
                       None \<Rightarrow> \<lparr>exit_code = 0, on_stdout = [], on_stderr = [], started = True\<rparr>
                     | Some e \<Rightarrow>
                         \<lparr>exit_code = (if errors_is e Canceled then 0 else 1), on_stdout = [], on_stderr = [],
                          started = True\<rparr>))))"

section \<open>Facts\<close>

text \<open>
  The application runs only with a configuration that was accepted, and then nothing is printed; a run that does not reach it
  prints something, on one stream only.
\<close>

lemma run_started:
  "started (run env new_logger app_run args) \<longleftrightarrow>
     parse_args args False = ArgsOk False \<and> (\<exists>cfg. Config_Load env = Inr cfg \<and> new_logger cfg = None)"
  by (auto simp: run_def split: parsed_args.split bool.split sum.split option.split)

lemma run_streams:
  "started (run env new_logger app_run args) \<longleftrightarrow>
     on_stdout (run env new_logger app_run args) = [] \<and> on_stderr (run env new_logger app_run args) = []"
  "on_stdout (run env new_logger app_run args) = [] \<or> on_stderr (run env new_logger app_run args) = []"
  by (auto simp: run_def text_lines_def usage_def flag_defaults_def version_text_def
      split: parsed_args.split bool.split sum.split option.split)

text \<open>The exit code tells a wrong command line, a failure and a success apart.\<close>

lemma run_exit_code:
  "exit_code (run env new_logger app_run args) = 2 \<longleftrightarrow> (\<exists>m. parse_args args False = ArgsError m)"
  "exit_code (run env new_logger app_run args) \<in> {0, 1, 2}"
  by (auto simp: run_def split: parsed_args.split bool.split sum.split option.split)

lemma parse_args_examples:
  "parse_args [] False = ArgsOk False"
  "parse_args [''--version''] False = ArgsOk True"
  "parse_args [''-version=false'', ''x'', ''-bad''] False = ArgsOk False"
  "parse_args [''--help''] False = ArgsHelp"
  "parse_args [''-v''] False = ArgsError ''flag provided but not defined: -v''"
  "parse_args [''---''] False = ArgsError ''bad flag syntax: ---''"
  by code_simp+

end
