(* ===== verification/DecodedText.thy ===== *)
theory DecodedText
  imports GoJsonPrint Policy
begin

text \<open>
  The type of decoded text: whatever bytes arrive, the strings that \<open>DecodeCommand\<close> stores are valid UTF-8, since
  the scanner replaces invalid bytes and lone surrogates. \<open>valid_utf8\<close> is the invariant of strings, \<open>valid_json\<close>
  of trees and \<open>valid_command\<close> of commands; \<open>keeps\<close> states that a decoder preserves an invariant, and has one
  rule for each way of building a decoder. Encoding leaves such strings as they are (\<open>to_utf8_valid\<close>).
\<close>

section \<open>Characters and their encoding\<close>

lemma between_nat: "between lo hi c \<longleftrightarrow> of_char lo \<le> (of_char c :: nat) \<and> of_char c \<le> (of_char hi :: nat)"
  by (simp add: between_def less_eq_char_def)

lemma eq_char_nat: "c = d \<longleftrightarrow> of_char c = (of_char d :: nat)"
  by simp

lemma cont_nat: "cont c \<longleftrightarrow> 128 \<le> (of_char c :: nat) \<and> of_char c \<le> (191::nat)"
  by (simp add: cont_def less_eq_char_def)

lemma utf8_width2: "of_char a = 192 + q \<Longrightarrow> 2 \<le> q \<Longrightarrow> q < 32 \<Longrightarrow> cont b \<Longrightarrow> utf8_width (a # b # t) = 2" for q :: nat
  by (simp add: less_char_def between_nat)

lemma utf8_width3: "of_char a = 224 + q \<Longrightarrow> q < 16 \<Longrightarrow> cont b \<Longrightarrow> cont c \<Longrightarrow>
    (q = 0 \<Longrightarrow> 160 \<le> (of_char b :: nat)) \<Longrightarrow> (q = 13 \<Longrightarrow> of_char b \<le> (159 :: nat)) \<Longrightarrow>
    utf8_width (a # b # c # t) = 3" for q :: nat
  by (simp add: less_char_def less_eq_char_def between_nat eq_char_nat [of a] del: of_char_eq_iff)

lemma utf8_width4: "of_char a = 240 + q \<Longrightarrow> q < 5 \<Longrightarrow> cont b \<Longrightarrow> cont c \<Longrightarrow> cont d \<Longrightarrow>
    (q = 0 \<Longrightarrow> 144 \<le> (of_char b :: nat)) \<Longrightarrow> (q = 4 \<Longrightarrow> of_char b \<le> (143 :: nat)) \<Longrightarrow>
    utf8_width (a # b # c # d # t) = 4" for q :: nat
  by (simp add: less_char_def less_eq_char_def between_nat eq_char_nat [of a] del: of_char_eq_iff)

lemma of_char_small: "n < 256 \<Longrightarrow> of_char (char_of n) = n" for n :: nat
  by simp

lemma cont_char_of: "cont (char_of (128 + n mod 64))" for n :: nat
  by (simp add: cont_nat of_char_small del: of_char_of)

lemma encode_rune_width:
  assumes "n < 0x110000" and "\<not> is_surrogate n"
  shows "utf8_width (encode_rune n @ t) = length (encode_rune n)"
proof -
  consider "n < 128" | "128 \<le> n" "n < 2048" | "2048 \<le> n" "n < 65536" | "65536 \<le> n" by linarith
  then show ?thesis
  proof cases
    case 1
    then show ?thesis by (simp add: encode_rune_def less_char_def)
  next
    case 2
    then have "2 \<le> n div 64" "n div 64 < 32" by linarith+
    with utf8_width2 [of "char_of (192 + n div 64)" "n div 64" "char_of (128 + n mod 64)" t] 2 show ?thesis
      by (simp add: encode_rune_def of_char_small cont_char_of del: of_char_of utf8_width.simps)
  next
    case 3
    define q where "q = n div 4096"
    have q: "q < 16" using 3 by (simp add: q_def)
    have lo: "32 \<le> n div 64 mod 64" if "q = 0"
    proof -
      from that have "n < 4096" by (simp add: q_def div_eq_0_iff)
      then have "n div 64 < 64" "32 \<le> n div 64" using 3 by linarith+
      then show ?thesis by simp
    qed
    have hi: "n div 64 mod 64 \<le> 31" if "q = 13"
    proof -
      from that have b: "13 * 4096 \<le> n" "n < 14 * 4096" unfolding q_def by linarith+
      with assms(2) have "n < 0xD800" by (simp add: is_surrogate_def)
      with b have "832 \<le> n div 64" "n div 64 < 864" by linarith+
      then have "n div 64 mod 64 = n div 64 - 832" by (simp add: mod_nat_eqI)
      then show ?thesis using \<open>n div 64 < 864\<close> by simp
    qed
    have "utf8_width (char_of (224 + q) # char_of (128 + n div 64 mod 64) # char_of (128 + n mod 64) # t) = 3"
      using q lo hi
      by (intro utf8_width3 [of _ q]) (simp_all add: of_char_small cont_char_of del: of_char_of)
    then show ?thesis using 3 by (simp add: encode_rune_def q_def del: utf8_width.simps)
  next
    case 4
    define q where "q = n div 262144"
    have q: "q < 5" using assms(1) by (simp add: q_def)
    have lo: "16 \<le> n div 4096 mod 64" if "q = 0"
    proof -
      from that have "n < 262144" by (simp add: q_def div_eq_0_iff)
      then have "n div 4096 < 64" "16 \<le> n div 4096" using 4 by linarith+
      then show ?thesis by simp
    qed
    have hi: "n div 4096 mod 64 \<le> 15" if "q = 4"
    proof -
      from that have "4 * 262144 \<le> n" unfolding q_def by linarith
      with assms(1) have b: "256 \<le> n div 4096" "n div 4096 < 272" by linarith+
      then have "n div 4096 mod 64 = n div 4096 - 256" by (simp add: mod_nat_eqI)
      then show ?thesis using b by simp
    qed
    have "utf8_width (char_of (240 + q) # char_of (128 + n div 4096 mod 64) # char_of (128 + n div 64 mod 64) #
        char_of (128 + n mod 64) # t) = 4"
      using q lo hi
      by (intro utf8_width4 [of _ q]) (simp_all add: of_char_small cont_char_of del: of_char_of)
    then show ?thesis using 4 by (simp add: encode_rune_def q_def del: utf8_width.simps)
  qed
qed

section \<open>Valid text\<close>

function valid_utf8 :: "string \<Rightarrow> bool" where
  "valid_utf8 [] = True"
| "valid_utf8 (c # cs) =
     (if utf8_width (c # cs) = 0 then False else valid_utf8 (drop (utf8_width (c # cs)) (c # cs)))"
  by pat_completeness auto
termination by (relation "measure length") auto

declare valid_utf8.simps(2) [simp del]

lemma valid_utf8_step:
  "s \<noteq> [] \<Longrightarrow> valid_utf8 s \<longleftrightarrow> utf8_width s \<noteq> 0 \<and> valid_utf8 (drop (utf8_width s) s)"
  by (cases s) (simp_all add: valid_utf8.simps(2) del: utf8_width.simps)

lemma to_utf8_valid: "valid_utf8 s \<Longrightarrow> to_utf8 s = s"
proof (induction s rule: to_utf8.induct)
  case (2 c cs)
  then show ?case by (simp add: valid_utf8.simps(2) to_utf8.simps(2) del: utf8_width.simps split: if_splits)
qed simp

lemma valid_utf8_rune:
  assumes "utf8_width (r @ t) = length r" and "r \<noteq> []" and "valid_utf8 t"
  shows "valid_utf8 (r @ t)"
  using assms valid_utf8_step [of "r @ t"] by simp

lemma valid_utf8_take:
  assumes "utf8_width s \<noteq> 0" and "valid_utf8 t"
  shows "valid_utf8 (take (utf8_width s) s @ t)"
proof (rule valid_utf8_rune)
  have l: "length (take (utf8_width s) s) = utf8_width s" using utf8_width_length [of s] by simp
  with utf8_width_take [OF refl assms(1)] show "utf8_width (take (utf8_width s) s @ t) = length (take (utf8_width s) s)"
    by simp
  show "take (utf8_width s) s \<noteq> []" using l assms(1) by fastforce
qed (rule assms(2))

lemma encode_rune_not_Nil: "encode_rune n \<noteq> []"
  by (simp add: encode_rune_def)

lemma valid_utf8_encode: "n < 0x110000 \<Longrightarrow> \<not> is_surrogate n \<Longrightarrow> valid_utf8 t \<Longrightarrow> valid_utf8 (encode_rune n @ t)"
  by (rule valid_utf8_rune) (simp_all only: encode_rune_width encode_rune_not_Nil not_False_eq_True)

lemma valid_utf8_ascii: "c < CHR 0x80 \<Longrightarrow> valid_utf8 t \<Longrightarrow> valid_utf8 (c # t)"
  by (simp add: valid_utf8.simps(2))

lemma valid_utf8_replacement: "valid_utf8 t \<Longrightarrow> valid_utf8 (replacement @ t)"
  by (rule valid_utf8_rune) (simp_all add: replacement_def between_nat cont_nat less_char_def less_eq_char_def)

section \<open>Parsed text is valid\<close>

lemma hex_val_less: "hex_val c = Some v \<Longrightarrow> v < 16"
  by (auto simp: hex_val_def less_eq_char_def split: if_splits)

lemma hex4_less: "hex4 s = Some (n, r) \<Longrightarrow> n < 0x10000"
proof (induction s rule: hex4.induct)
  case (1 a b c d r')
  then obtain w x y z where v: "hex_val a = Some w" "hex_val b = Some x" "hex_val c = Some y" "hex_val d = Some z"
      and n: "n = 4096 * w + 256 * x + 16 * y + z" by (auto split: option.splits)
  from v [THEN hex_val_less] n show ?case by simp
qed simp_all

lemma unicode_escape_valid:
  assumes "u < 0x10000" and "valid_utf8 t"
  shows "valid_utf8 (fst (unicode_escape u r) @ t)"
proof -
  have "valid_utf8 (encode_rune (0x10000 + (u - 0xD800) * 1024 + (v - 0xDC00)) @ t)"
    if "u < 0xDC00" "0xD800 \<le> u" "0xDC00 \<le> v" "v < 0xE000" for v
    using that by (intro valid_utf8_encode assms(2)) (simp_all add: is_surrogate_def)
  then show ?thesis
    using valid_utf8_encode [of u t] valid_utf8_replacement [of t] assms
    by (auto simp: unicode_escape_def is_surrogate_def split: option.splits)
qed

lemma simple_escape_ascii: "simple_escape e = Some x \<Longrightarrow> x < CHR 0x80"
  by (auto simp: simple_escape_def less_char_def split: if_splits)

lemma parse_string_valid: "parse_string s = Some (v, r) \<Longrightarrow> valid_utf8 v"
proof (induction s arbitrary: v rule: parse_string.induct)
  case 1
  then show ?case by simp
next
  case (2 c cs)
  consider "c = CHR 0x22" | e es where "c = CHR 0x5C" "cs = e # es" | "c = CHR 0x5C" "cs = []"
    | "c \<noteq> CHR 0x22" "c \<noteq> CHR 0x5C" by (cases cs) auto
  then show ?case
  proof cases
    case 1
    with "2.prems" show ?thesis by (simp add: parse_string.simps(2))
  next
    case (2 e es)
    show ?thesis
    proof (cases "e = CHR ''u''")
      case True
      with 2 \<open>parse_string (c # cs) = Some (v, r)\<close> obtain ur v' where
        ur: "hex4 es = Some ur" and v': "parse_string (snd (unicode_escape (fst ur) (snd ur))) = Some (v', r)"
        and v: "v = fst (unicode_escape (fst ur) (snd ur)) @ v'"
        by (auto simp: parse_string.simps(2) split: option.splits)
      have "valid_utf8 v'" using "2.IH"(1) [of e es ur v'] 2 True ur v' by simp
      then show ?thesis unfolding v using hex4_less [of es "fst ur" "snd ur"] ur
        by (intro unicode_escape_valid) simp_all
    next
      case False
      with 2 \<open>parse_string (c # cs) = Some (v, r)\<close> obtain x v' where
        x: "simple_escape e = Some x" "parse_string es = Some (v', r)" "v = x # v'"
        by (auto simp: parse_string.simps(2) split: option.splits)
      then have "valid_utf8 v'" using "2.IH"(2) [of e es x v'] 2 False by simp
      then show ?thesis using x simple_escape_ascii by (simp add: valid_utf8_ascii)
    qed
  next
    case 3
    with "2.prems" show ?thesis by (simp add: parse_string.simps(2))
  next
    case 4
    show ?thesis
    proof (cases "utf8_width (c # cs) = 0")
      case True
      with 4 "2.prems" obtain v' where v': "parse_string cs = Some (v', r)" "\<not> c < CHR 0x20" "v = replacement @ v'"
        by (auto simp: parse_string.simps(2) split: if_splits)
      then show ?thesis using "2.IH"(3) [of v'] 4 True valid_utf8_replacement by simp
    next
      case False
      with 4 "2.prems" obtain v' where "parse_string (drop (utf8_width (c # cs)) (c # cs)) = Some (v', r)"
        "\<not> c < CHR 0x20" "v = take (utf8_width (c # cs)) (c # cs) @ v'"
        by (auto simp: parse_string.simps(2) split: if_splits)
      then show ?thesis using "2.IH"(4) [of v'] 4 False valid_utf8_take [OF False, of v'] by simp
    qed
  qed
qed

fun valid_json :: "json \<Rightarrow> bool" where
  "valid_json (JStr s) = valid_utf8 s"
| "valid_json (JArr es) = (\<forall>e\<in>set es. valid_json e)"
| "valid_json (JObj ms) = (\<forall>m\<in>set ms. valid_utf8 (fst m) \<and> valid_json (snd m))"
| "valid_json j = True"

lemma parse_valid:
  "parse_value f d s = Some (j, r) \<Longrightarrow> valid_json j"
  "parse_elems f d s = Some (es, r) \<Longrightarrow> \<forall>e\<in>set es. valid_json e"
  "parse_members f d s = Some (ms, r) \<Longrightarrow> \<forall>m\<in>set ms. valid_utf8 (fst m) \<and> valid_json (snd m)"
proof (induction f d s and f d s and f d s arbitrary: j r and es r and ms r
    rule: parse_value_parse_elems_parse_members.induct)
  case (2 f d s)
  from "2.prems" obtain c cs where s: "s = c # cs" by (cases s) (auto simp: parse_value.simps(2))
  show ?case
  proof (cases "c = CHR ''{'' \<or> c = CHR ''[''")
    case False
    with "2.prems" s show ?thesis by (auto simp: parse_value.simps(2) dest: parse_string_valid split: if_splits)
  next
    case True
    with "2.prems" s obtain x xs where x: "skip_ws cs = x # xs" "d \<noteq> 0"
      by (auto simp: parse_value.simps(2) split: if_splits list.splits)
    with True "2.prems" "2.IH" [OF s] s show ?thesis by (auto simp: parse_value.simps(2) split: if_splits)
  qed
next
  case (4 f d s)
  then show ?case by (auto simp: parse_elems.simps(2) split: option.splits list.splits if_splits)
next
  case (6 f d s)
  from "6.prems" obtain qs k r1 cs v r2 e es where
    q: "s = CHR 0x22 # qs" "parse_string qs = Some (k, r1)" "skip_ws r1 = CHR '':'' # cs"
    "parse_value f d (skip_ws cs) = Some (v, r2)" "skip_ws r2 = e # es"
    by (auto simp: parse_members.simps(2) split: list.splits option.splits if_splits)
  have kv: "valid_utf8 k" "valid_json v" using parse_string_valid [OF q(2)] "6.IH"(1) q by simp_all
  show ?case
  proof (cases "e = CHR ''}''")
    case True
    then show ?thesis using "6.prems" q kv by (auto simp: parse_members.simps(2))
  next
    case False
    with "6.prems" q obtain ms' where
      m: "e = CHR '',''" "parse_members f d (skip_ws es) = Some (ms', r)" "ms = (k, v) # ms'"
      by (auto simp: parse_members.simps(2) split: if_splits)
    then have "\<forall>m\<in>set ms'. valid_utf8 (fst m) \<and> valid_json (snd m)" using "6.IH"(2) q by simp
    with m kv show ?thesis by simp
  qed
qed simp_all

lemma parse_json_valid: "parse_json s = Some j \<Longrightarrow> valid_json j"
  by (auto simp: parse_json_def dest: parse_valid(1) split: option.splits if_splits)

section \<open>Decoders keep validity\<close>

text \<open>A decoder keeps an invariant of its variable on trees of valid text.\<close>

definition keeps :: "('s \<Rightarrow> bool) \<Rightarrow> 's decoder \<Rightarrow> bool" where
  "keeps P d \<longleftrightarrow> (\<forall>j s. valid_json j \<longrightarrow> P s \<longrightarrow> P (snd (d j s)))"

lemma keepsD: "keeps P d \<Longrightarrow> valid_json j \<Longrightarrow> P s \<Longrightarrow> P (snd (d j s))"
  by (simp add: keeps_def)

lemma keepsI: "(\<And>j s. valid_json j \<Longrightarrow> P s \<Longrightarrow> P (snd (d j s))) \<Longrightarrow> keeps P d"
  by (simp add: keeps_def)

lemma keeps_any: "keeps (\<lambda>x. True) d"
  by (simp add: keeps_def)

lemma keeps_dec_string: "keeps valid_utf8 dec_string"
proof (rule keepsI)
  fix j s assume "valid_json j" "valid_utf8 s"
  then show "valid_utf8 (snd (dec_string j s))" by (cases j) simp_all
qed

lemma dec_elems_valid:
  "\<forall>j\<in>set js. valid_json j \<Longrightarrow> list_all valid_utf8 old \<Longrightarrow> list_all valid_utf8 (snd (dec_elems js old))"
proof (induction js arbitrary: old)
  case (Cons j js)
  have "valid_utf8 (case old of [] \<Rightarrow> [] | o1 # x \<Rightarrow> o1)" "list_all valid_utf8 (tl old)"
    using Cons.prems(2) by (cases old; simp)+
  with Cons.IH [of "tl old"] keepsD [OF keeps_dec_string, of j] Cons.prems(1) show ?case
    by (simp add: split_beta)
qed simp

definition valid_slice :: "string list \<times> string list \<Rightarrow> bool" where
  "valid_slice x \<longleftrightarrow> list_all valid_utf8 (fst x @ snd x)"

lemma keeps_dec_strings: "keeps valid_slice dec_strings"
proof (rule keepsI)
  fix j s
  assume j: "valid_json j" and s: "valid_slice s"
  obtain xs spare where x: "s = (xs, spare)" by (cases s)
  show "valid_slice (snd (dec_strings j s))"
  proof (cases j)
    case (JArr js)
    have "list_all valid_utf8 (xs @ spare)" using s x by (simp add: valid_slice_def)
    with JArr j dec_elems_valid [of js "xs @ spare"] x show ?thesis
      by (auto simp: valid_slice_def split_beta list_all_iff dest: in_set_dropD)
  qed (use s x in \<open>simp_all add: valid_slice_def\<close>)
qed

lemma keeps_on_field:
  assumes "keeps P d" and "\<And>s. Q s \<Longrightarrow> P (get s)" and "\<And>s x. Q s \<Longrightarrow> P x \<Longrightarrow> Q (put x s)"
  shows "keeps Q (on_field get put d)"
  using assms by (auto simp: keeps_def on_field_def split_beta)

lemma keeps_dec_members:
  assumes "\<And>name d. (name, d) \<in> set fs \<Longrightarrow> keeps Q d"
  shows "\<forall>m\<in>set ms. valid_json (snd m) \<Longrightarrow> Q s \<Longrightarrow> Q (snd (dec_members fs ms s))"
proof (induction ms arbitrary: s)
  case (Cons m ms)
  obtain k v where m: "m = (k, v)" by (cases m)
  have "Q (snd (case field_decoder fs k of None \<Rightarrow> (None, s) | Some d \<Rightarrow> d v s))"
  proof (cases "field_decoder fs k")
    case (Some d)
    then obtain name where "(name, d) \<in> set fs"
      by (auto simp: field_decoder_def find_Some_iff dest: nth_mem)
    from keepsD [OF assms [OF this], of v s] Some Cons.prems m show ?thesis by simp
  qed (use Cons.prems in simp)
  with Cons.IH Cons.prems m show ?case by (simp add: split_beta)
qed simp

lemma keeps_dec_struct:
  assumes "\<And>name d. (name, d) \<in> set fs \<Longrightarrow> keeps Q d"
  shows "keeps Q (dec_struct ty fs)"
proof (rule keepsI)
  fix j s assume "valid_json j" "Q s"
  with keeps_dec_members [of fs Q, OF assms] show "Q (snd (dec_struct ty fs j s))" by (cases j) auto
qed

lemma keeps_dec_pointer:
  assumes "keeps Q d" and "Q zero"
  shows "keeps (pred_option Q) (dec_pointer d zero)"
  using assms by (auto simp: keeps_def dec_pointer_def split_beta split: option.split)

lemma unmarshal_keeps:
  assumes "keeps Q d" and "Q zero" and "unmarshal d zero data = Inr s"
  shows "Q s"
  using assms parse_json_valid keepsD [OF assms(1) _ assms(2)]
  by (fastforce simp: unmarshal_def unmarshal_value_def split: option.splits prod.splits)

section \<open>Commands are valid text\<close>

definition valid_policy :: "AccessPolicy \<Rightarrow> bool" where
  "valid_policy p \<longleftrightarrow> valid_utf8 (policy_NamespaceMode p) \<and>
     valid_slice (policy_Namespaces p, policy_Namespaces_spare p)"

definition valid_command :: "Command \<Rightarrow> bool" where
  "valid_command c \<longleftrightarrow> list_all valid_utf8 [cmd_ID c, cmd_Type c, cmd_Action c, cmd_Traceparent c, cmd_Tracestate c] \<and>
     pred_option valid_json (cmd_Params c) \<and> pred_option valid_policy (cmd_AccessPolicy c)"

lemma keeps_dec_raw: "keeps (pred_option valid_json) dec_raw"
  by (simp add: keeps_def dec_raw_def)

lemma keeps_policy: "keeps valid_policy (dec_struct ty policy_fields)"
  by (rule keeps_dec_struct)
    (auto simp: policy_fields_def valid_policy_def
      intro: keeps_on_field [OF keeps_dec_string] keeps_on_field [OF keeps_dec_strings] keeps_on_field [OF keeps_any])

lemma keeps_command: "keeps valid_command (dec_struct ty command_fields)"
proof -
  have p: "keeps (pred_option valid_policy) (dec_pointer (dec_struct ''v1.AccessPolicy'' policy_fields) zero_policy)"
    by (rule keeps_dec_pointer [OF keeps_policy]) (simp add: valid_policy_def valid_slice_def zero_policy_def)
  show ?thesis
    by (rule keeps_dec_struct)
      (auto simp: command_fields_def valid_command_def
        intro: keeps_on_field [OF keeps_dec_string] keeps_on_field [OF keeps_dec_raw] keeps_on_field [OF p])
qed

lemma decoded_valid: "DecodeCommand data = Inr cmd \<Longrightarrow> valid_command cmd"
  using unmarshal_keeps [OF keeps_command, of zero_command "''v1.Command''" data]
  by (auto simp: DecodeCommand_def valid_command_def zero_command_def split: sum.splits if_splits)

end
