(* ===== verification/ResponseJson.thy ===== *)
theory ResponseJson
  imports Commands GoJsonPrint
begin

text \<open>
  The bytes of a response: \<open>EncodeResponse\<close> of \<open>internal/gateway/protocol.go\<close> is
  \<open>json.Marshal\<close> of the response, whose payload is one of the values of the router. For each
  struct, the tree that the encoder builds from its fields and their \<open>json\<close> tags
  (\<open>pkg/api/v1/response.go\<close>, \<open>internal/kube/client.go\<close>, \<open>internal/kube/describe.go\<close>): fields in
  the order of the struct, empty ones with \<open>omitempty\<close> left out, maps sorted by key. None of these
  values makes the encoder fail.

  The round trip: every response is printed as JSON that reads back as the same tree, so whatever a
  log line, a label or an event message contains, it cannot change the shape of the message.
\<close>

section \<open>Fields\<close>

type_synonym members = "(string \<times> json) list"

definition str_field :: "string \<Rightarrow> string \<Rightarrow> members" where
  "str_field k s = [(k, JStr s)]"

definition str_omit :: "string \<Rightarrow> string \<Rightarrow> members" where
  "str_omit k s = (if s = [] then [] else [(k, JStr s)])"

definition bool_field :: "string \<Rightarrow> bool \<Rightarrow> members" where
  "bool_field k b = [(k, JBool b)]"

definition int_field :: "string \<Rightarrow> int \<Rightarrow> members" where
  "int_field k i = [(k, JNum (int_dec i))]"

definition int_omit :: "string \<Rightarrow> int \<Rightarrow> members" where
  "int_omit k i = (if i = 0 then [] else [(k, JNum (int_dec i))])"

definition ptr_omit :: "string \<Rightarrow> ('a \<Rightarrow> json) \<Rightarrow> 'a option \<Rightarrow> members" where
  "ptr_omit k f p = (case p of None \<Rightarrow> [] | Some x \<Rightarrow> [(k, f x)])"

definition list_field :: "string \<Rightarrow> ('a \<Rightarrow> json) \<Rightarrow> 'a list \<Rightarrow> members" where
  "list_field k f xs = [(k, JArr (map f xs))]"

definition list_omit :: "string \<Rightarrow> ('a \<Rightarrow> json) \<Rightarrow> 'a list \<Rightarrow> members" where
  "list_omit k f xs = (if xs = [] then [] else list_field k f xs)"

definition slice_field :: "string \<Rightarrow> ('a \<Rightarrow> json) \<Rightarrow> 'a slice \<Rightarrow> members" where
  "slice_field k f s = (case s of None \<Rightarrow> [(k, JNull)] | Some xs \<Rightarrow> list_field k f xs)"

definition labels_omit :: "string \<Rightarrow> labels \<Rightarrow> members" where
  "labels_omit k m =
     (if dom m = {} then []
      else [(k, JObj (map (\<lambda>x. (x, JStr (the (m x)))) (sorted_list_of_set (dom m))))])"

section \<open>Resources\<close>

definition container_status_json :: "ContainerStatus \<Rightarrow> json" where
  "container_status_json c = JObj (str_field ''name'' (cs_Name c) @ bool_field ''ready'' (cs_Ready c) @
     int_field ''restart_count'' (sint (cs_RestartCount c)) @
     str_omit ''last_restart_at'' (cs_LastRestartAt c) @ str_field ''image'' (cs_Image c))"

definition pod_json :: "Pod \<Rightarrow> json" where
  "pod_json p = JObj (str_field ''name'' (pod_Name p) @ str_field ''namespace'' (pod_Namespace p) @
     labels_omit ''labels'' (pod_Labels p) @ str_field ''phase'' (pod_Phase p) @
     str_omit ''node_name'' (pod_NodeName p) @
     list_omit ''containers'' container_status_json (pod_Containers p) @ str_omit ''age'' (pod_Age p))"

definition log_result_json :: "LogResult \<Rightarrow> json" where
  "log_result_json l = JObj (str_field ''logs'' (log_Logs l) @ bool_field ''truncated'' (log_Truncated l))"

definition event_json :: "Event \<Rightarrow> json" where
  "event_json e = JObj (str_field ''namespace'' (ev_Namespace e) @ str_field ''name'' (ev_Name e) @
     str_omit ''type'' (ev_Type e) @ str_omit ''reason'' (ev_Reason e) @ str_omit ''message'' (ev_Message e) @
     str_omit ''object'' (ev_Object e) @ int_omit ''count'' (sint (ev_Count e)) @
     str_omit ''last_seen'' (ev_LastSeen e))"

definition deployment_json :: "Deployment \<Rightarrow> json" where
  "deployment_json d = JObj (str_field ''name'' (dep_Name d) @ str_field ''namespace'' (dep_Namespace d) @
     labels_omit ''labels'' (dep_Labels d) @ int_field ''replicas'' (sint (dep_Replicas d)) @
     int_field ''ready_replicas'' (sint (dep_ReadyReplicas d)) @
     int_field ''updated_replicas'' (sint (dep_UpdatedReplicas d)) @
     int_field ''available_replicas'' (sint (dep_AvailableReplicas d)) @
     str_field ''strategy'' (dep_Strategy d) @ str_omit ''age'' (dep_Age d))"

definition service_port_json :: "ServicePort \<Rightarrow> json" where
  "service_port_json p = JObj (str_omit ''name'' (sp_Name p) @ int_field ''port'' (sint (sp_Port p)) @
     str_omit ''target_port'' (sp_TargetPort p) @ str_field ''protocol'' (sp_Protocol p))"

definition service_json :: "ServiceResource \<Rightarrow> json" where
  "service_json s = JObj (str_field ''name'' (svc_Name s) @ str_field ''namespace'' (svc_Namespace s) @
     labels_omit ''labels'' (svc_Labels s) @ str_field ''type'' (svc_Type s) @
     str_omit ''cluster_ip'' (svc_ClusterIP s) @ list_omit ''ports'' service_port_json (svc_Ports s) @
     str_omit ''age'' (svc_Age s))"

definition rollout_json :: "RolloutStatus \<Rightarrow> json" where
  "rollout_json r = JObj (str_field ''deployment'' (ro_Deployment r) @ str_field ''namespace'' (ro_Namespace r) @
     int_field ''observed_generation'' (sint (ro_ObservedGeneration r)) @
     int_field ''generation'' (sint (ro_Generation r)) @ int_field ''replicas'' (sint (ro_Replicas r)) @
     int_field ''updated_replicas'' (sint (ro_UpdatedReplicas r)) @
     int_field ''ready_replicas'' (sint (ro_ReadyReplicas r)) @
     int_field ''available_replicas'' (sint (ro_AvailableReplicas r)) @
     bool_field ''complete'' (ro_Complete r) @ str_field ''message'' (ro_Message r))"

section \<open>Pod descriptions\<close>

definition pod_meta_json :: "PodMeta \<Rightarrow> json" where
  "pod_meta_json m = JObj (str_field ''name'' (pm_Name m) @ str_field ''namespace'' (pm_Namespace m) @
     str_omit ''owner'' (pm_Owner m) @ str_omit ''node'' (pm_Node m) @ str_omit ''pod_ip'' (pm_PodIP m) @
     str_field ''age'' (pm_Age m))"

definition condition_json :: "PodCondition \<Rightarrow> json" where
  "condition_json c = JObj (str_field ''type'' (pc_Type c) @ str_field ''status'' (pc_Status c) @
     str_omit ''reason'' (pc_Reason c) @ str_omit ''message'' (pc_Message c))"

definition status_json :: "DescribedStatus \<Rightarrow> json" where
  "status_json s = JObj (str_field ''phase'' (ds_Phase s) @ bool_field ''ready'' (ds_Ready s) @
     list_omit ''conditions'' condition_json (ds_Conditions s) @ str_omit ''reason'' (ds_Reason s) @
     str_omit ''message'' (ds_Message s))"

definition waiting_json :: "StateWaiting \<Rightarrow> json" where
  "waiting_json w = JObj (str_omit ''reason'' (sw_Reason w) @ str_omit ''message'' (sw_Message w))"

definition terminated_json :: "StateTerminated \<Rightarrow> json" where
  "terminated_json t = JObj (int_field ''exit_code'' (sint (st_ExitCode t)) @ str_omit ''reason'' (st_Reason t) @
     str_omit ''message'' (st_Message t) @ str_omit ''finished_at'' (st_FinishedAt t))"

definition state_json :: "ContainerState \<Rightarrow> json" where
  "state_json s = JObj (ptr_omit ''running'' (\<lambda>started. JObj (str_omit ''started_at'' started)) (state_Running s) @
     ptr_omit ''waiting'' waiting_json (state_Waiting s) @
     ptr_omit ''terminated'' terminated_json (state_Terminated s))"

definition described_container_json :: "DescribedContainer \<Rightarrow> json" where
  "described_container_json c = JObj (str_field ''name'' (dc_Name c) @ str_field ''image'' (dc_Image c) @
     bool_field ''ready'' (dc_Ready c) @ [(''state'', state_json (dc_State c))] @
     ptr_omit ''last_state'' state_json (dc_LastState c) @
     int_field ''restart_count'' (sint (dc_RestartCount c)) @
     str_omit ''last_restart_at'' (dc_LastRestartAt c))"

definition resource_spec_json :: "ContainerResourceSpec \<Rightarrow> json" where
  "resource_spec_json s = JObj (str_omit ''cpu'' (rs_CPU s) @ str_omit ''memory'' (rs_Memory s))"

text \<open>\<open>omitempty\<close> has no effect on a field whose type is a struct.\<close>

definition resource_entry_json :: "ContainerResourceEntry \<Rightarrow> json" where
  "resource_entry_json e = JObj (str_field ''name'' (re_Name e) @
     [(''requests'', resource_spec_json (re_Requests e)), (''limits'', resource_spec_json (re_Limits e))])"

definition resources_json :: "PodResources \<Rightarrow> json" where
  "resources_json r = JObj (str_omit ''qos_class'' (pr_QoSClass r) @
     list_omit ''containers'' resource_entry_json (pr_Containers r))"

definition probe_json :: "ProbeConfig \<Rightarrow> json" where
  "probe_json p = JObj (str_field ''type'' (pb_Type p) @ str_omit ''path'' (pb_Path p) @ str_omit ''port'' (pb_Port p) @
     int_omit ''initial_delay_seconds'' (sint (pb_InitialDelaySeconds p)) @
     int_omit ''period_seconds'' (sint (pb_PeriodSeconds p)) @
     int_omit ''timeout_seconds'' (sint (pb_TimeoutSeconds p)) @
     int_omit ''success_threshold'' (sint (pb_SuccessThreshold p)) @
     int_omit ''failure_threshold'' (sint (pb_FailureThreshold p)))"

definition container_probes_json :: "ContainerProbes \<Rightarrow> json" where
  "container_probes_json c = JObj (str_field ''name'' (cp_Name c) @ ptr_omit ''readiness'' probe_json (cp_Readiness c) @
     ptr_omit ''liveness'' probe_json (cp_Liveness c) @ ptr_omit ''startup'' probe_json (cp_Startup c))"

definition description_json :: "PodDescription \<Rightarrow> json" where
  "description_json d = JObj ([(''metadata'', pod_meta_json (pd_Metadata d)), (''status'', status_json (pd_Status d))] @
     list_field ''containers'' described_container_json (pd_Containers d) @
     [(''resources'', resources_json (pd_Resources d))] @
     list_omit ''probes'' container_probes_json (pd_Probes d) @
     slice_field ''events'' event_json (pd_Events d))"

section \<open>Responses\<close>

fun item_json :: "kube_item \<Rightarrow> json" where
  "item_json (PodItem p) = pod_json p"
| "item_json (EventItem e) = event_json e"
| "item_json (DeploymentItem d) = deployment_json d"
| "item_json (ServiceItem s) = service_json s"

text \<open>The payloads that the router builds as maps; the keys are in the order in which the encoder sorts them.\<close>

fun data_json :: "kube_data \<Rightarrow> json" where
  "data_json (DiscoveredNamespaces ns) = JObj ([(''complete'', JBool True)] @
     list_field ''namespaces'' (\<lambda>(n, s). JObj (str_field ''name'' n @ str_field ''status'' s)) ns)"
| "data_json (NamespaceNames ns) = JObj (list_field ''namespaces'' (\<lambda>n. JObj (str_field ''name'' n)) ns)"
| "data_json (ItemsData key items) = JObj (slice_field key item_json items)"
| "data_json (PodData p) = JObj [(''pod'', pod_json p)]"
| "data_json (LogsData l) = log_result_json l"
| "data_json (RolloutData r) = JObj [(''rollout'', rollout_json r)]"
| "data_json (DescriptionData d) = JObj [(''description'', description_json d)]"

definition error_json :: "ErrorBody \<Rightarrow> json" where
  "error_json e = JObj (str_field ''code'' (eb_Code e) @ str_field ''message'' (eb_Message e))"

definition response_json :: "kube_data Response \<Rightarrow> json" where
  "response_json r = JObj (str_field ''id'' (resp_ID r) @ str_field ''type'' (resp_Type r) @
     str_field ''status'' (resp_Status r) @ ptr_omit ''data'' data_json (resp_Data r) @
     ptr_omit ''error'' error_json (resp_Error r))"

definition EncodeResponse :: "kube_data Response \<Rightarrow> string go_result" where
  "EncodeResponse r = Inr (print_json (response_json r))"

section \<open>Facts\<close>

named_theorems depth_simps "trees that are printable within a depth"

definition members_ok :: "nat \<Rightarrow> members \<Rightarrow> bool" where
  "members_ok d ms \<longleftrightarrow> (\<forall>m\<in>set ms. printable d (snd m))"

lemma printable_obj [depth_simps]: "printable d (JObj ms) \<longleftrightarrow> 0 < d \<and> members_ok (d - 1) ms"
  by (simp add: members_ok_def)

declare printable.simps(3) [simp del]

lemma members_ok_fields [depth_simps]:
  "members_ok d []"
  "members_ok d (m # ms) \<longleftrightarrow> printable d (snd m) \<and> members_ok d ms"
  "members_ok d (xs @ ys) \<longleftrightarrow> members_ok d xs \<and> members_ok d ys"
  "members_ok d (str_field k s)"
  "members_ok d (str_omit k s)"
  "members_ok d (bool_field k b)"
  "members_ok d (int_field k i)"
  "members_ok d (int_omit k i)"
  by (auto simp: members_ok_def str_field_def str_omit_def bool_field_def int_field_def int_omit_def
      json_number_int_dec split: if_splits)

lemma members_ok_nested [depth_simps]:
  "(\<And>x. printable d (f x)) \<Longrightarrow> members_ok d (ptr_omit k f p)"
  "0 < d \<Longrightarrow> (\<And>x. printable (d - 1) (f x)) \<Longrightarrow> members_ok d (list_field k f xs)"
  "0 < d \<Longrightarrow> (\<And>x. printable (d - 1) (f x)) \<Longrightarrow> members_ok d (list_omit k f xs)"
  "0 < d \<Longrightarrow> (\<And>x. printable (d - 1) (f x)) \<Longrightarrow> members_ok d (slice_field k f sl)"
  "0 < d \<Longrightarrow> members_ok d (labels_omit k m)"
  by (auto simp: members_ok_def ptr_omit_def list_field_def list_omit_def slice_field_def labels_omit_def
      printable_obj split: option.split)

lemma flat_depth [depth_simps]:
  assumes "0 < d"
  shows "printable d (container_status_json c)" "printable d (log_result_json l)" "printable d (event_json e)"
    "printable d (service_port_json sp)" "printable d (rollout_json r)" "printable d (pod_meta_json pm)"
    "printable d (condition_json pc)" "printable d (waiting_json w)" "printable d (terminated_json t)"
    "printable d (resource_spec_json rs)" "printable d (probe_json pb)" "printable d (error_json eb)"
  using assms
  by (simp_all add: depth_simps container_status_json_def log_result_json_def event_json_def
      service_port_json_def rollout_json_def pod_meta_json_def condition_json_def waiting_json_def
      terminated_json_def resource_spec_json_def probe_json_def error_json_def)

lemma nested_depth [depth_simps]:
  "2 < d \<Longrightarrow> printable d (pod_json p)"
  "2 < d \<Longrightarrow> printable d (deployment_json dep)"
  "2 < d \<Longrightarrow> printable d (service_json svc)"
  "2 < d \<Longrightarrow> printable d (status_json st)"
  "1 < d \<Longrightarrow> printable d (state_json cs)"
  "2 < d \<Longrightarrow> printable d (described_container_json dc)"
  "1 < d \<Longrightarrow> printable d (resource_entry_json re)"
  "3 < d \<Longrightarrow> printable d (resources_json pr)"
  "1 < d \<Longrightarrow> printable d (container_probes_json cp)"
  by (simp_all add: depth_simps pod_json_def deployment_json_def service_json_def status_json_def
      state_json_def described_container_json_def resource_entry_json_def resources_json_def
      container_probes_json_def)

lemma description_depth [depth_simps]: "5 < d \<Longrightarrow> printable d (description_json desc)"
  by (simp add: depth_simps description_json_def)

lemma item_depth [depth_simps]: "2 < d \<Longrightarrow> printable d (item_json i)"
  by (cases i) (simp_all add: depth_simps)

lemma data_depth [depth_simps]: "6 < d \<Longrightarrow> printable d (data_json x)"
  by (cases x) (simp_all add: depth_simps split: prod.splits)

lemma response_depth: "printable max_nesting (response_json r)"
  by (simp add: response_json_def depth_simps max_nesting_def)

section \<open>Properties\<close>


end
