(* ===== verification/Wire.thy ===== *)
theory Wire
  imports Delivery DecodedText ResponseJson Telemetry
begin

text \<open>
  A command from the worker to the wire (\<open>handleCommand\<close> and \<open>writeResponse\<close> of \<open>internal/gateway/client.go\<close>): the
  context of the command, the handler, the record for the metrics and the span, the encoding and the one frame
  that is written. The socket is a function that writes a frame to the world. The mutex and the order of the writes
  of several goroutines are in \<open>Connection\<close>, whose steps treat a written frame as the response it encodes.
\<close>

section \<open>Writing and handling\<close>

type_synonym 'w frame_writer = "string \<Rightarrow> 'w \<Rightarrow> 'w \<times> go_error option"

definition writeResponse :: "'w frame_writer \<Rightarrow> kube_data Response \<Rightarrow> 'w \<Rightarrow> 'w" where
  "writeResponse write resp w =
     (case EncodeResponse resp of
        Inl e \<Rightarrow> w
      | Inr data \<Rightarrow> fst (write data w))"

text \<open>\<open>context.WithTimeout\<close> when it is called: done already with the parent, or with a timeout that is not positive.\<close>

definition WithTimeout :: "int64 \<Rightarrow> go_ctx \<Rightarrow> go_ctx" where
  "WithTimeout d ctx = (case ctx of Some x \<Rightarrow> Some x | None \<Rightarrow> if d \<le>s 0 then Some DeadlineExceeded else None)"

definition handleCommand ::
  "'w item_group \<Rightarrow> api_errors \<Rightarrow> 'w Router \<Rightarrow> int64 \<Rightarrow> 'w frame_writer \<Rightarrow> go_ctx \<Rightarrow> Command \<Rightarrow>
   'w \<Rightarrow> 'w \<times> (go_panic + command_record)" where
  "handleCommand wgroup ae r commandTimeout write ctx cmd w =
     (case Handle wgroup ae r (WithTimeout commandTimeout ctx) cmd w of
        (w1, Inl p) \<Rightarrow> (w1, Inl p)
      | (w1, Inr resp) \<Rightarrow>
          (case EncodeResponse resp of
             Inl e \<Rightarrow> (w1, Inr (record_command cmd resp))
           | Inr data \<Rightarrow> (fst (write data w1), Inr (record_command cmd resp))))"

section \<open>Facts\<close>

lemma writeResponse_frame: "writeResponse write resp w = fst (write (print_json (response_json resp)) w)"
  by (simp add: writeResponse_def EncodeResponse_def)

lemma to_utf8_keys:
  "to_utf8 ''id'' = ''id''" "to_utf8 ''type'' = ''type''" "to_utf8 ''status'' = ''status''"
  "to_utf8 ''data'' = ''data''" "to_utf8 ''error'' = ''error''" "to_utf8 MessageTypeResponse = MessageTypeResponse"
  by code_simp+

text \<open>The members of the object on the wire, of a well-formed response.\<close>

definition wire_members :: "kube_data Response \<Rightarrow> (string \<times> json) list" where
  "wire_members r =
     [(''id'', JStr (to_utf8 (resp_ID r))), (''type'', JStr (to_utf8 (resp_Type r))),
      (''status'', JStr (to_utf8 (resp_Status r)))] @
     (case resp_Data r of None \<Rightarrow> [] | Some d \<Rightarrow> [(''data'', clean_json (data_json d))]) @
     (case resp_Error r of None \<Rightarrow> [] | Some e \<Rightarrow> [(''error'', clean_json (error_json e))])"

lemma clean_response: "clean_json (response_json r) = JObj (wire_members r)"
  by (simp add: response_json_def wire_members_def str_field_def ptr_omit_def to_utf8_keys split: option.split)

lemma encoded_response: "parse_json (print_json (response_json r)) = Some (JObj (wire_members r))"
  using parse_print_json [OF response_depth, of r] by (simp add: clean_response)

lemma wire_members_wf:
  assumes "wf_response r"
  shows "map_of (wire_members r) ''id'' = Some (JStr (to_utf8 (resp_ID r)))"
    and "map_of (wire_members r) ''type'' = Some (JStr MessageTypeResponse)"
    and "map_of (wire_members r) ''error'' = None \<longleftrightarrow> resp_Error r = None"
    and "map_of (wire_members r) ''data'' = None \<longleftrightarrow> resp_Error r \<noteq> None"
  using assms by (auto simp: wire_members_def wf_response_def to_utf8_keys split: option.split)

lemma handleCommand_answer:
  assumes "Handle wgroup ae r (WithTimeout t ctx) cmd w = (w1, Inr resp)"
  shows "handleCommand wgroup ae r t write ctx cmd w =
    (fst (write (print_json (response_json resp)) w1), Inr (record_command cmd resp))"
  using assms by (simp add: handleCommand_def EncodeResponse_def)

section \<open>Properties\<close>

text \<open>
  C16: under accepted limits a worker answers every command, whatever the cluster says and however the tasks of the
  handler are scheduled, with exactly one frame, written after the handling: a JSON object of the response type
  with the id of the command and either a payload or an error; and the metric counts it as a success exactly when
  the frame carries no error.
\<close>

theorem command_answered:
  assumes "limits_ok l"
  shows "\<exists>w1 p data ms record.
    Handle wgroup ae (NewRouter (kube_service api sorter) g l) (WithTimeout t ctx) cmd w = (w1, p) \<and>
    handleCommand wgroup ae (NewRouter (kube_service api sorter) g l) t write ctx cmd w =
      (fst (write data w1), Inr record) \<and>
    parse_json data = Some (JObj ms) \<and>
    map_of ms ''id'' = Some (JStr (to_utf8 (cmd_ID cmd))) \<and>
    map_of ms ''type'' = Some (JStr MessageTypeResponse) \<and>
    (map_of ms ''data'' = None \<longleftrightarrow> map_of ms ''error'' \<noteq> None) \<and>
    (rec_metric record = ''success'' \<longleftrightarrow> map_of ms ''error'' = None)"
proof -
  let ?h = "Handle wgroup ae (NewRouter (kube_service api sorter) g l) (WithTimeout t ctx) cmd w"
  obtain w1 resp where h: "?h = (w1, Inr resp)"
    using Handle_no_panic [OF assms] by (metis surj_pair sum.exhaust)
  note wf = Handle_wf_response [OF h]
  note ms = wire_members_wf [OF conjunct1 [OF wf]]
  show ?thesis
    by (intro exI conjI, rule h, rule handleCommand_answer [OF h], rule encoded_response)
      (simp_all add: ms conjunct2 [OF wf] record_command_wf(2) [OF conjunct1 [OF wf]])
qed

theorem command_answered_witness:
  "\<exists>data. snd (handleCommand (scheduled_group []) example_errors
      (NewRouter (kube_service example_api insertion_sort) (NewNamespaceGuard [''shop''] None) example_limits)
      (word_of_int (30 * second)) (\<lambda>frame w. (w, None)) None (example_command ActionGetPodLogs []) (NewService, 0)) = Inr data"
  using command_answered [of example_limits "scheduled_group []" example_errors example_api insertion_sort
      "NewNamespaceGuard [''shop''] None" "word_of_int (30 * second)" None "example_command ActionGetPodLogs []"
      "(NewService, 0)" "\<lambda>frame w. (w, None)"]
  by (auto simp: limits_ok_def example_limits_def word_sless_alt word_sle_eq)

text \<open>
  C19: whatever bytes a frame has, a command decoded from it consists of valid text only, down to its parameters and its
  policy; therefore the answer carries the id of the command byte for byte, although the encoder replaces invalid bytes.
\<close>

theorem decoded_command_typed:
  assumes "DecodeCommand data = Inr cmd" and "limits_ok l"
  shows "valid_command cmd \<and>
    (\<exists>w1 frame ms record.
      handleCommand wgroup ae (NewRouter (kube_service api sorter) g l) t write ctx cmd w = (fst (write frame w1), Inr record) \<and>
      parse_json frame = Some (JObj ms) \<and> map_of ms ''id'' = Some (JStr (cmd_ID cmd)))"
proof -
  have v: "valid_command cmd" by (rule decoded_valid [OF assms(1)])
  then have u: "to_utf8 (cmd_ID cmd) = cmd_ID cmd" by (simp add: valid_command_def to_utf8_valid)
  obtain w1 resp where h: "Handle wgroup ae (NewRouter (kube_service api sorter) g l) (WithTimeout t ctx) cmd w = (w1, Inr resp)"
    using Handle_no_panic [OF assms(2)] by (metis surj_pair sum.exhaust)
  have wf: "wf_response resp" "resp_ID resp = cmd_ID cmd" using Handle_wf_response [OF h] by simp_all
  show ?thesis
    using v u handleCommand_answer [OF h, of "write"] encoded_response [of resp] wire_members_wf(1) [OF wf(1)] wf(2)
    by metis
qed

theorem decoded_command_typed_witness:
  "valid_command discover_command \<and>
   (\<exists>frame ms. parse_json frame = Some (JObj ms) \<and> map_of ms ''id'' = Some (JStr ''a''))"
  using decoded_command_typed [OF example_frame_decodes default_limits_ok, of "scheduled_group []" example_errors
      example_api insertion_sort "NewNamespaceGuard [''shop''] None" "word_of_int (30 * second)" "\<lambda>frame w. (w, None)"
      None "(NewService, 0)"]
  by (auto simp: discover_command_def zero_command_def)

end
