(* ===== verification/NamespaceCache.thy ===== *)
theory NamespaceCache
  imports KubeService
begin

text \<open>
  The namespace list under concurrency (\<open>internal/kube/namespaces.go\<close>): several commands call \<open>ListNamespaces\<close> at
  once; they share the cache under a mutex, and a miss joins the one fetch in flight. \<open>KubeService\<close> has the same
  method for one caller at a time; here its blocking points are the states of a caller, and a critical section of
  the mutex is one step.

  The fetch is shared by \<open>golang.org/x/sync/singleflight\<close>, which is not part of the repository: the group is an argument of
  the model, and the locale \<open>singleflight\<close> states its documented behaviour for one key. A caller of \<open>Do\<close> executes the
  function if no other caller does and otherwise waits for that one's result, which all of them get.
  What the API server may answer to a context is the relation \<open>cluster\<close>.
\<close>

section \<open>The contract of the shared call\<close>

record 'f flight_group =
  sf_start :: 'f
  sf_leader :: "'f \<Rightarrow> nat option"
  sf_waiting :: "'f \<Rightarrow> nat set"
  sf_enter :: "nat \<Rightarrow> 'f \<Rightarrow> 'f"
  sf_finish :: "'f \<Rightarrow> 'f"

locale singleflight =
  fixes g :: "'f flight_group"
  assumes start_idle: "sf_leader g (sf_start g) = None"
    and enter_leads: "sf_leader g f = None \<Longrightarrow>
      sf_leader g (sf_enter g i f) = Some i \<and> sf_waiting g (sf_enter g i f) = {}"
    and enter_waits: "sf_leader g f = Some j \<Longrightarrow>
      sf_leader g (sf_enter g i f) = Some j \<and> sf_waiting g (sf_enter g i f) = insert i (sf_waiting g f)"
    and finish_idle: "sf_leader g (sf_finish g f) = None"

section \<open>Callers\<close>

datatype ns_pc =
    NsCheck
  | NsDo
  | NsFetch
  | NsStore "Namespace list"
  | NsReturn "Namespace list go_result"
  | NsWait
  | NsDone "Namespace list go_result"

record ns_caller =
  nc_ctx :: go_ctx
  nc_pc :: ns_pc
  nc_start :: instant

record 'f ns_state =
  ns_service :: Service
  ns_now :: instant
  ns_callers :: "ns_caller list"
  ns_flight :: 'f
  ns_stored :: "(instant \<times> Namespace list) list"
  ns_ended :: "(instant \<times> Namespace list go_result) list"

definition ns_init :: "'f flight_group \<Rightarrow> instant \<Rightarrow> 'f ns_state" where
  "ns_init g now = \<lparr>ns_service = NewService, ns_now = now, ns_callers = [], ns_flight = sf_start g,
     ns_stored = [], ns_ended = []\<rparr>"

definition at_pc :: "'f ns_state \<Rightarrow> nat \<Rightarrow> ns_pc \<Rightarrow> bool" where
  "at_pc s i pc \<longleftrightarrow> i < length (ns_callers s) \<and> nc_pc (ns_callers s ! i) = pc"

definition go_to :: "nat \<Rightarrow> ns_pc \<Rightarrow> 'f ns_state \<Rightarrow> 'f ns_state" where
  "go_to i pc s = s\<lparr>ns_callers := (ns_callers s)[i := (ns_callers s ! i)\<lparr>nc_pc := pc\<rparr>]\<rparr>"

definition live_cache :: "'f ns_state \<Rightarrow> bool" where
  "live_cache s \<longleftrightarrow> nsCache (ns_service s) \<noteq> [] \<and>
     time_sub (ns_now s) (nsCachedAt (ns_service s)) < namespaceCacheTTL"

text \<open>The result of the fetch goes to its leader and to everyone who waits.\<close>

definition deliver :: "nat set \<Rightarrow> Namespace list go_result \<Rightarrow> ns_caller list \<Rightarrow> ns_caller list" where
  "deliver who r cs = map (\<lambda>(k, c). if k \<in> who then c\<lparr>nc_pc := NsDone r\<rparr> else c) (enumerate 0 cs)"

section \<open>Steps\<close>

text \<open>The environment: calls arrive, their contexts end, time passes.\<close>

inductive ns_env :: "'f ns_state \<Rightarrow> 'f ns_state \<Rightarrow> bool" where
  ns_arrive: "ns_env s (s\<lparr>ns_callers := ns_callers s @ [\<lparr>nc_ctx = ctx, nc_pc = NsCheck, nc_start = ns_now s\<rparr>]\<rparr>)"
| ns_cancel: "i < length (ns_callers s) \<Longrightarrow> nc_ctx (ns_callers s ! i) = None \<Longrightarrow>
    ns_env s (s\<lparr>ns_callers := (ns_callers s)[i := (ns_callers s ! i)\<lparr>nc_ctx := Some x\<rparr>]\<rparr>)"
| ns_tick: "ns_now s \<le> now \<Longrightarrow> ns_env s (s\<lparr>ns_now := now\<rparr>)"

inductive ns_call :: "(go_ctx \<Rightarrow> k8s_namespace list go_result \<Rightarrow> bool) \<Rightarrow> 'f flight_group \<Rightarrow>
    'f ns_state \<Rightarrow> 'f ns_state \<Rightarrow> bool"
  for cluster :: "go_ctx \<Rightarrow> k8s_namespace list go_result \<Rightarrow> bool" and g :: "'f flight_group" where
  ns_hit: "at_pc s i NsCheck \<Longrightarrow> live_cache s \<Longrightarrow>
    ns_call cluster g s (go_to i (NsDone (Inr (nsCache (ns_service s)))) s)"
| ns_miss: "at_pc s i NsCheck \<Longrightarrow> \<not> live_cache s \<Longrightarrow> ns_call cluster g s (go_to i NsDo s)"
| ns_lead: "at_pc s i NsDo \<Longrightarrow> sf_leader g (ns_flight s) = None \<Longrightarrow>
    ns_call cluster g s ((go_to i NsFetch s)\<lparr>ns_flight := sf_enter g i (ns_flight s)\<rparr>)"
| ns_follow: "at_pc s i NsDo \<Longrightarrow> sf_leader g (ns_flight s) = Some j \<Longrightarrow>
    ns_call cluster g s ((go_to i NsWait s)\<lparr>ns_flight := sf_enter g i (ns_flight s)\<rparr>)"
| ns_list_err: "at_pc s i NsFetch \<Longrightarrow> cluster (nc_ctx (ns_callers s ! i)) (Inl e) \<Longrightarrow>
    ns_call cluster g s (go_to i (NsReturn (Inl e)) s)"
| ns_list_ok: "at_pc s i NsFetch \<Longrightarrow> cluster (nc_ctx (ns_callers s ! i)) (Inr items) \<Longrightarrow>
    ns_call cluster g s (go_to i (NsStore (map toNamespace items)) s)"
| ns_store: "at_pc s i (NsStore out) \<Longrightarrow>
    ns_call cluster g s ((go_to i (NsReturn (Inr out)) s)
      \<lparr>ns_service := \<lparr>nsCache = out, nsCachedAt = ns_now s\<rparr>, ns_stored := ns_stored s @ [(ns_now s, out)]\<rparr>)"
| ns_finish: "at_pc s i (NsReturn r) \<Longrightarrow>
    ns_call cluster g s (s\<lparr>ns_callers := deliver (insert i (sf_waiting g (ns_flight s))) r (ns_callers s),
      ns_flight := sf_finish g (ns_flight s), ns_ended := ns_ended s @ [(ns_now s, r)]\<rparr>)"

inductive ns_reachable :: "(go_ctx \<Rightarrow> k8s_namespace list go_result \<Rightarrow> bool) \<Rightarrow> 'f flight_group \<Rightarrow>
    'f ns_state \<Rightarrow> 'f ns_state \<Rightarrow> bool"
  for cluster g s0 where
  ns_start: "ns_reachable cluster g s0 s0"
| ns_env_step: "ns_reachable cluster g s0 s \<Longrightarrow> ns_env s s' \<Longrightarrow> ns_reachable cluster g s0 s'"
| ns_call_step: "ns_reachable cluster g s0 s \<Longrightarrow> ns_call cluster g s s' \<Longrightarrow> ns_reachable cluster g s0 s'"

section \<open>One fetch at a time\<close>

definition pc_of :: "'f ns_state \<Rightarrow> nat \<Rightarrow> ns_pc option" where
  "pc_of s k = (if k < length (ns_callers s) then Some (nc_pc (ns_callers s ! k)) else None)"

lemma at_pc_iff: "at_pc s i pc \<longleftrightarrow> pc_of s i = Some pc"
  by (simp add: at_pc_def pc_of_def)

lemma length_deliver [simp]: "length (deliver who r cs) = length cs"
  by (simp add: deliver_def)

lemma nth_deliver: "k < length cs \<Longrightarrow> deliver who r cs ! k = (if k \<in> who then (cs ! k)\<lparr>nc_pc := NsDone r\<rparr> else cs ! k)"
  by (simp add: deliver_def nth_enumerate_eq)

lemma go_to_sel [simp]:
  "ns_service (go_to i pc s) = ns_service s" "ns_now (go_to i pc s) = ns_now s" "ns_flight (go_to i pc s) = ns_flight s"
  "ns_stored (go_to i pc s) = ns_stored s" "ns_ended (go_to i pc s) = ns_ended s"
  "length (ns_callers (go_to i pc s)) = length (ns_callers s)"
  by (simp_all add: go_to_def)

lemma pc_of_go_to [simp]: "pc_of s i \<noteq> None \<Longrightarrow> pc_of (go_to i pc s) = (pc_of s)(i \<mapsto> pc)"
  by (auto simp: pc_of_def go_to_def fun_eq_iff nth_list_update split: if_splits)

lemma pc_of_more [simp]:
  "pc_of (s\<lparr>ns_service := x\<rparr>) = pc_of s" "pc_of (s\<lparr>ns_now := t\<rparr>) = pc_of s" "pc_of (s\<lparr>ns_flight := f\<rparr>) = pc_of s"
  "pc_of (s\<lparr>ns_stored := st\<rparr>) = pc_of s" "pc_of (s\<lparr>ns_ended := en\<rparr>) = pc_of s"
  by (simp_all add: pc_of_def fun_eq_iff)

lemma pc_of_deliver [simp]:
  "pc_of (s\<lparr>ns_callers := deliver who r (ns_callers s)\<rparr>) =
     (\<lambda>k. if k \<in> who then map_option (\<lambda>p. NsDone r) (pc_of s k) else pc_of s k)"
  by (auto simp: pc_of_def fun_eq_iff nth_deliver)

lemma pc_of_arrive [simp]:
  "pc_of (s\<lparr>ns_callers := ns_callers s @ [c]\<rparr>) = (pc_of s)(length (ns_callers s) \<mapsto> nc_pc c)"
  by (auto simp: pc_of_def fun_eq_iff nth_append)

lemma pc_of_cancel [simp]:
  "pc_of (s\<lparr>ns_callers := (ns_callers s)[i := (ns_callers s ! i)\<lparr>nc_ctx := x\<rparr>]\<rparr>) = pc_of s"
  by (cases "i < length (ns_callers s)") (auto simp: pc_of_def fun_eq_iff nth_list_update)

lemma pc_of_fresh [simp]: "pc_of s (length (ns_callers s)) = None"
  by (simp add: pc_of_def)

fun fetching :: "ns_pc \<Rightarrow> bool" where
  "fetching NsFetch = True"
| "fetching (NsStore out) = True"
| "fetching (NsReturn r) = True"
| "fetching pc = False"

definition flight_ok :: "'f flight_group \<Rightarrow> 'f ns_state \<Rightarrow> bool" where
  "flight_ok g s \<longleftrightarrow>
     (\<forall>k. (\<exists>p. pc_of s k = Some p \<and> fetching p) \<longleftrightarrow> sf_leader g (ns_flight s) = Some k) \<and>
     (\<forall>k. pc_of s k = Some NsWait \<longleftrightarrow> sf_leader g (ns_flight s) \<noteq> None \<and> k \<in> sf_waiting g (ns_flight s))"

lemma flight_ok_leader: "flight_ok g s \<Longrightarrow> pc_of s k = Some pc \<Longrightarrow> fetching pc \<longleftrightarrow> sf_leader g (ns_flight s) = Some k"
  unfolding flight_ok_def by (metis option.inject)

lemma flight_ok_move:
  assumes "flight_ok g s" and "pc_of s i = Some p" and "fetching p = fetching p'" and "p \<noteq> NsWait" "p' \<noteq> NsWait"
    and "pc_of s' = (pc_of s)(i \<mapsto> p')" and "ns_flight s' = ns_flight s"
  shows "flight_ok g s'"
proof -
  have "(\<exists>q. pc_of s' k = Some q \<and> fetching q) \<longleftrightarrow> (\<exists>q. pc_of s k = Some q \<and> fetching q)"
    "pc_of s' k = Some NsWait \<longleftrightarrow> pc_of s k = Some NsWait" for k
    using assms(2-6) by auto
  with assms(1,7) show ?thesis by (simp add: flight_ok_def)
qed

lemma flight_ok_env: "ns_env s s' \<Longrightarrow> flight_ok g s \<Longrightarrow> flight_ok g s'"
proof (induction rule: ns_env.induct)
  case (ns_arrive s ctx)
  then have "sf_leader g (ns_flight s) \<noteq> Some (length (ns_callers s))"
    "\<not> (sf_leader g (ns_flight s) \<noteq> None \<and> length (ns_callers s) \<in> sf_waiting g (ns_flight s))"
    unfolding flight_ok_def by (metis pc_of_fresh option.simps(3))+
  with ns_arrive show ?case by (auto simp: flight_ok_def)
qed (simp_all add: flight_ok_def)

context singleflight begin

lemma flight_ok_start: "flight_ok g (ns_init g now)"
  by (simp add: flight_ok_def ns_init_def pc_of_def start_idle)

lemma flight_ok_call: "ns_call cluster g s s' \<Longrightarrow> flight_ok g s \<Longrightarrow> flight_ok g s'"
proof (induction rule: ns_call.induct)
  case (ns_lead s i)
  then show ?case using enter_leads [OF ns_lead(2), of i] by (auto simp: flight_ok_def at_pc_iff)
next
  case (ns_follow s i j)
  then have "i \<noteq> j" using flight_ok_leader [of g s i NsDo] by (auto simp: at_pc_iff)
  with ns_follow show ?case using enter_waits [OF ns_follow(2), of i] by (auto simp: flight_ok_def at_pc_iff)
next
  case (ns_finish s i r)
  then have l: "sf_leader g (ns_flight s) = Some i" using flight_ok_leader [of g s i "NsReturn r"] by (simp add: at_pc_iff)
  have "pc_of s k \<noteq> Some NsWait" "\<nexists>p. pc_of s k = Some p \<and> fetching p"
    if "k \<notin> insert i (sf_waiting g (ns_flight s))" for k
    using that l ns_finish(2) by (auto simp: flight_ok_def)
  then show ?case using finish_idle
    by (auto simp: flight_ok_def split: if_splits)
next
  case (ns_hit s i)
  then show ?case by (auto simp: at_pc_iff intro: flight_ok_move [OF ns_hit(3), of i "NsCheck" "NsDone (Inr (nsCache (ns_service s)))"])
next
  case (ns_miss s i)
  then show ?case by (auto simp: at_pc_iff intro: flight_ok_move [OF ns_miss(3), of i "NsCheck" "NsDo"])
next
  case (ns_list_err s i e)
  then show ?case by (auto simp: at_pc_iff intro: flight_ok_move [OF ns_list_err(3), of i "NsFetch" "NsReturn (Inl e)"])
next
  case (ns_list_ok s i items)
  then show ?case by (auto simp: at_pc_iff intro: flight_ok_move [OF ns_list_ok(3), of i "NsFetch" "NsStore (map toNamespace items)"])
next
  case (ns_store s i out)
  then show ?case by (auto simp: at_pc_iff intro: flight_ok_move [OF ns_store(2), of i "NsStore out" "NsReturn (Inr out)"])
qed

lemma flight_ok_reachable: "ns_reachable cluster g (ns_init g now) s \<Longrightarrow> flight_ok g s"
  by (induction rule: ns_reachable.induct) (blast intro: flight_ok_start flight_ok_env flight_ok_call)+

end

section \<open>Where the answers come from\<close>

definition answered :: "'f ns_state \<Rightarrow> instant \<Rightarrow> Namespace list go_result \<Rightarrow> bool" where
  "answered s start r \<longleftrightarrow>
     (\<exists>t\<ge>start. (t, r) \<in> set (ns_ended s)) \<or>
     (\<exists>ns t. r = Inr ns \<and> (t, ns) \<in> set (ns_stored s) \<and> start - t < namespaceCacheTTL)"

definition caller_ok :: "'f ns_state \<Rightarrow> ns_caller \<Rightarrow> bool" where
  "caller_ok s c \<longleftrightarrow> nc_start c \<le> ns_now s \<and>
     (case nc_pc c of
        NsReturn (Inr ns) \<Rightarrow> \<exists>t. (t, ns) \<in> set (ns_stored s)
      | NsDone r \<Rightarrow> answered s (nc_start c) r
      | _ \<Rightarrow> True)"

definition stored_ok :: "'f ns_state \<Rightarrow> bool" where
  "stored_ok s \<longleftrightarrow>
     (nsCache (ns_service s) = [] \<or> (nsCachedAt (ns_service s), nsCache (ns_service s)) \<in> set (ns_stored s)) \<and>
     (\<forall>t ns. (t, Inr ns) \<in> set (ns_ended s) \<longrightarrow> (\<exists>t'. (t', ns) \<in> set (ns_stored s)))"

definition ns_answers_ok :: "'f ns_state \<Rightarrow> bool" where
  "ns_answers_ok s \<longleftrightarrow> stored_ok s \<and> list_all (caller_ok s) (ns_callers s)"

lemma caller_ok_mono:
  assumes "caller_ok s c" and "ns_now s \<le> ns_now s'" and "set (ns_stored s) \<subseteq> set (ns_stored s')"
    and "set (ns_ended s) \<subseteq> set (ns_ended s')"
  shows "caller_ok s' c"
  using assms unfolding caller_ok_def answered_def
  by (auto split: ns_pc.splits sum.splits)

lemma callers_go_to:
  assumes "list_all (caller_ok s) (ns_callers s)" and "i < length (ns_callers s)"
    and "ns_callers s' = (ns_callers s)[i := (ns_callers s ! i)\<lparr>nc_pc := pc\<rparr>]"
    and "ns_now s \<le> ns_now s'" "set (ns_stored s) \<subseteq> set (ns_stored s')" "set (ns_ended s) \<subseteq> set (ns_ended s')"
    and "caller_ok s' ((ns_callers s ! i)\<lparr>nc_pc := pc\<rparr>)"
  shows "list_all (caller_ok s') (ns_callers s')"
proof -
  have "caller_ok s' c" if "c \<in> set (ns_callers s)" for c
    using caller_ok_mono [OF _ assms(4-6)] assms(1) that by (simp add: list_all_iff)
  then show ?thesis using set_update_subset_insert [of "ns_callers s" i] assms(3,7)
    by (fastforce simp: list_all_iff)
qed

lemma callers_go_to':
  assumes "ns_answers_ok s" and "at_pc s i p" and "ns_callers s' = ns_callers (go_to i pc s)"
    and "ns_now s \<le> ns_now s'" "set (ns_stored s) \<subseteq> set (ns_stored s')" "set (ns_ended s) \<subseteq> set (ns_ended s')"
    and "nc_start (ns_callers s ! i) \<le> ns_now s \<Longrightarrow> caller_ok s' ((ns_callers s ! i)\<lparr>nc_pc := pc\<rparr>)"
  shows "list_all (caller_ok s') (ns_callers s')"
proof (rule callers_go_to [OF _ _ _ assms(4-6)])
  show "list_all (caller_ok s) (ns_callers s)" using assms(1) by (simp add: ns_answers_ok_def)
  show i: "i < length (ns_callers s)" using assms(2) by (simp add: at_pc_def)
  show "ns_callers s' = (ns_callers s)[i := (ns_callers s ! i)\<lparr>nc_pc := pc\<rparr>]" using assms(3) by (simp add: go_to_def)
  show "caller_ok s' ((ns_callers s ! i)\<lparr>nc_pc := pc\<rparr>)"
    using assms(1,7) i by (simp add: ns_answers_ok_def list_all_length caller_ok_def)
qed

lemma live_cache_age: "live_cache s \<Longrightarrow> ns_now s - nsCachedAt (ns_service s) < namespaceCacheTTL"
  using time_sub_le [of "ns_now s" "nsCachedAt (ns_service s)" "namespaceCacheTTL - 1"]
  by (simp add: live_cache_def namespaceCacheTTL_def second_def int64_max_def)

lemma ns_answers_ok_call: "ns_call cluster g s s' \<Longrightarrow> ns_answers_ok s \<Longrightarrow> ns_answers_ok s'"
proof (induction rule: ns_call.induct)
  case (ns_hit s i)
  have "(nsCachedAt (ns_service s), nsCache (ns_service s)) \<in> set (ns_stored s)"
    using ns_hit(2,3) by (auto simp: ns_answers_ok_def stored_ok_def live_cache_def)
  then have "answered s t (Inr (nsCache (ns_service s)))" if "t \<le> ns_now s" for t
    using that live_cache_age [OF ns_hit(2)] by (fastforce simp: answered_def)
  with callers_go_to' [OF ns_hit(3,1) refl] ns_hit(3) show ?case
    by (simp add: ns_answers_ok_def stored_ok_def caller_ok_def answered_def)
next
  case (ns_miss s i)
  with callers_go_to' [OF ns_miss(3,1) refl] show ?case
    by (simp add: ns_answers_ok_def stored_ok_def caller_ok_def)
next
  case (ns_lead s i)
  with callers_go_to' [OF ns_lead(3,1), of "(go_to i NsFetch s)\<lparr>ns_flight := sf_enter g i (ns_flight s)\<rparr>"] show ?case
    by (simp add: ns_answers_ok_def stored_ok_def caller_ok_def)
next
  case (ns_follow s i j)
  with callers_go_to' [OF ns_follow(3,1), of "(go_to i NsWait s)\<lparr>ns_flight := sf_enter g i (ns_flight s)\<rparr>"] show ?case
    by (simp add: ns_answers_ok_def stored_ok_def caller_ok_def)
next
  case (ns_list_err s i e)
  with callers_go_to' [OF ns_list_err(3,1) refl] show ?case
    by (simp add: ns_answers_ok_def stored_ok_def caller_ok_def)
next
  case (ns_list_ok s i items)
  with callers_go_to' [OF ns_list_ok(3,1) refl] show ?case
    by (simp add: ns_answers_ok_def stored_ok_def caller_ok_def)
next
  case (ns_store s i out)
  let ?s' = "(go_to i (NsReturn (Inr out)) s)
    \<lparr>ns_service := \<lparr>nsCache = out, nsCachedAt = ns_now s\<rparr>, ns_stored := ns_stored s @ [(ns_now s, out)]\<rparr>"
  have "list_all (caller_ok ?s') (ns_callers ?s')"
    by (rule callers_go_to' [OF ns_store(2,1), where pc = "NsReturn (Inr out)"]) (auto simp: caller_ok_def)
  moreover have "stored_ok ?s'" using ns_store(2) by (fastforce simp: ns_answers_ok_def stored_ok_def)
  ultimately show ?case by (simp add: ns_answers_ok_def)
next
  case (ns_finish s i r)
  let ?s' = "s\<lparr>ns_callers := deliver (insert i (sf_waiting g (ns_flight s))) r (ns_callers s),
      ns_flight := sf_finish g (ns_flight s), ns_ended := ns_ended s @ [(ns_now s, r)]\<rparr>"
  have c: "caller_ok s c" if "c \<in> set (ns_callers s)" for c
    using that ns_finish(2) by (simp add: ns_answers_ok_def list_all_iff)
  have "caller_ok ?s' (deliver who r (ns_callers s) ! k)" if "k < length (ns_callers s)" for k who
  proof -
    have "caller_ok s (ns_callers s ! k)" using that c by simp
    moreover from this have "caller_ok ?s' (ns_callers s ! k)" by (rule caller_ok_mono) auto
    ultimately show ?thesis using that
      by (auto simp: nth_deliver caller_ok_def answered_def)
  qed
  then have "list_all (caller_ok ?s') (ns_callers ?s')" by (simp add: list_all_length)
  moreover have "\<exists>t. (t, ns) \<in> set (ns_stored s)" if "r = Inr ns" for ns
    using c [of "ns_callers s ! i"] ns_finish(1) that by (auto simp: at_pc_def caller_ok_def)
  then have "stored_ok ?s'" using ns_finish(2) by (fastforce simp: ns_answers_ok_def stored_ok_def)
  ultimately show ?case by (simp add: ns_answers_ok_def)
qed

lemma ns_answers_ok_env: "ns_env s s' \<Longrightarrow> ns_answers_ok s \<Longrightarrow> ns_answers_ok s'"
proof (induction rule: ns_env.induct)
  case (ns_arrive s ctx)
  let ?s' = "s\<lparr>ns_callers := ns_callers s @ [\<lparr>nc_ctx = ctx, nc_pc = NsCheck, nc_start = ns_now s\<rparr>]\<rparr>"
  have "caller_ok ?s' c" if "caller_ok s c" for c by (rule caller_ok_mono [OF that]) simp_all
  with ns_arrive show ?case by (auto simp: ns_answers_ok_def stored_ok_def caller_ok_def list_all_iff)
next
  case (ns_cancel i s x)
  let ?s' = "s\<lparr>ns_callers := (ns_callers s)[i := (ns_callers s ! i)\<lparr>nc_ctx := Some x\<rparr>]\<rparr>"
  have "caller_ok ?s' c = caller_ok s c" "caller_ok s (c\<lparr>nc_ctx := y\<rparr>) = caller_ok s c" for c y
    by (auto simp: caller_ok_def answered_def split: ns_pc.split sum.split)
  with ns_cancel show ?case using set_update_subset_insert [of "ns_callers s" i]
    by (fastforce simp: ns_answers_ok_def stored_ok_def list_all_iff)
next
  case (ns_tick s now)
  then have "caller_ok (s\<lparr>ns_now := now\<rparr>) c" if "c \<in> set (ns_callers s)" for c
    using that caller_ok_mono [of s c "s\<lparr>ns_now := now\<rparr>"] by (simp add: ns_answers_ok_def list_all_iff)
  with ns_tick show ?case by (simp add: ns_answers_ok_def stored_ok_def list_all_iff)
qed

lemma ns_answers_ok_reachable: "ns_reachable cluster g (ns_init g now) s \<Longrightarrow> ns_answers_ok s"
proof (induction rule: ns_reachable.induct)
  case ns_start
  show ?case by (simp add: ns_answers_ok_def stored_ok_def ns_init_def NewService_def)
qed (blast intro: ns_answers_ok_env ns_answers_ok_call)+

lemma done_answer:
  assumes "caller_ok s c" and "stored_ok s"
  shows "nc_pc c = NsDone (Inr ns) \<Longrightarrow> \<exists>t. (t, ns) \<in> set (ns_stored s) \<and>
      (nc_start c - t < 30 * second \<or> (\<exists>t'\<ge>nc_start c. (t', Inr ns) \<in> set (ns_ended s)))"
    and "nc_pc c = NsDone (Inl e) \<Longrightarrow> \<exists>t'\<ge>nc_start c. (t', Inl e) \<in> set (ns_ended s)"
proof -
  assume "nc_pc c = NsDone (Inr ns)"
  then have "answered s (nc_start c) (Inr ns)" using assms(1) by (simp add: caller_ok_def)
  then show "\<exists>t. (t, ns) \<in> set (ns_stored s) \<and>
      (nc_start c - t < 30 * second \<or> (\<exists>t'\<ge>nc_start c. (t', Inr ns) \<in> set (ns_ended s)))"
    using assms(2) unfolding answered_def stored_ok_def namespaceCacheTTL_def by blast
next
  assume "nc_pc c = NsDone (Inl e)"
  then show "\<exists>t'\<ge>nc_start c. (t', Inl e) \<in> set (ns_ended s)" using assms(1) by (simp add: caller_ok_def answered_def)
qed

section \<open>Every call is answered\<close>

fun pc_rank :: "ns_pc \<Rightarrow> nat" where
  "pc_rank NsCheck = 6"
| "pc_rank NsDo = 5"
| "pc_rank NsFetch = 4"
| "pc_rank (NsStore out) = 3"
| "pc_rank (NsReturn r) = 2"
| "pc_rank NsWait = 1"
| "pc_rank (NsDone r) = 0"

definition ns_rank :: "'f ns_state \<Rightarrow> nat" where
  "ns_rank s = sum_list (map (\<lambda>c. pc_rank (nc_pc c)) (ns_callers s))"

lemma rank_sum: "ns_rank s = (\<Sum>k<length (ns_callers s). pc_rank (nc_pc (ns_callers s ! k)))"
  by (simp add: ns_rank_def sum_list_sum_nth atLeast0LessThan)

lemma rank_less:
  assumes "length (ns_callers s') = length (ns_callers s)" and "i < length (ns_callers s)"
    and "\<And>k. k < length (ns_callers s) \<Longrightarrow> pc_rank (nc_pc (ns_callers s' ! k)) \<le> pc_rank (nc_pc (ns_callers s ! k))"
    and "pc_rank (nc_pc (ns_callers s' ! i)) < pc_rank (nc_pc (ns_callers s ! i))"
  shows "ns_rank s' < ns_rank s"
  unfolding rank_sum assms(1) using assms(2-4) by (intro sum_strict_mono_ex1) auto

lemma rank_go_to:
  assumes "at_pc s i p" and "pc_rank p' < pc_rank p" and "ns_callers s' = ns_callers (go_to i p' s)"
  shows "ns_rank s' < ns_rank s"
  using assms by (intro rank_less [of _ _ i]) (auto simp: at_pc_def go_to_def nth_list_update)

lemma rank_call: "ns_call cluster g s s' \<Longrightarrow> ns_rank s' < ns_rank s"
proof (induction rule: ns_call.induct)
  case (ns_finish s i r)
  then show ?case by (intro rank_less [of _ _ i]) (auto simp: at_pc_def nth_deliver)
qed (erule rank_go_to; simp)+

lemma rank_run: "(ns_call cluster g ^^ n) s s' \<Longrightarrow> n \<le> ns_rank s"
proof (induction n arbitrary: s)
  case (Suc n)
  then obtain s1 where "ns_call cluster g s s1" "(ns_call cluster g ^^ n) s1 s'" by (blast elim: relpowp_Suc_E2)
  with Suc.IH [of s1] rank_call [of cluster g s s1] show ?case by simp
qed simp

lemma fetching_moves:
  assumes "\<forall>ctx. \<exists>r. cluster ctx r" and "pc_of s i = Some p" and "fetching p"
  shows "\<exists>t. ns_call cluster g s t"
proof (cases p)
  case NsFetch
  obtain r where "cluster (nc_ctx (ns_callers s ! i)) r" using assms(1) by blast
  with NsFetch assms(2) show ?thesis using ns_list_err [of s i cluster] ns_list_ok [of s i cluster]
    by (cases r) (auto simp: at_pc_iff, blast+)
next
  case (NsStore out)
  with assms(2) show ?thesis using ns_store [of s i out cluster g] by (auto simp: at_pc_iff)
next
  case (NsReturn r)
  with assms(2) show ?thesis using ns_finish [of s i r cluster g] by (auto simp: at_pc_iff)
qed (use assms(3) in simp_all)

lemma caller_moves:
  assumes "\<forall>ctx. \<exists>r. cluster ctx r" and "flight_ok g s" and "pc_of s i = Some p" and "\<nexists>r. p = NsDone r"
  shows "\<exists>t. ns_call cluster g s t"
proof (cases "fetching p")
  case True
  then show ?thesis using fetching_moves [OF assms(1,3)] by simp
next
  case False
  then consider "p = NsCheck" | "p = NsDo" | "p = NsWait" using assms(4) by (cases p) auto
  then show ?thesis
  proof cases
    case 1
    with assms(3) show ?thesis using ns_hit [of s i cluster g] ns_miss [of s i cluster g]
      by (cases "live_cache s") (auto simp: at_pc_iff)
  next
    case 2
    with assms(3) show ?thesis using ns_lead [of s i g] ns_follow [of s i g]
      by (cases "sf_leader g (ns_flight s)") (auto simp: at_pc_iff)
  next
    case 3
    with assms(2,3) obtain j where "sf_leader g (ns_flight s) = Some j" by (auto simp: flight_ok_def)
    with assms(2) obtain q where "pc_of s j = Some q" "fetching q" by (auto simp: flight_ok_def)
    then show ?thesis using fetching_moves [OF assms(1)] by blast
  qed
qed

section \<open>The library's group\<close>

text \<open>One key of the group: the caller that executes the function and the callers that wait for it.\<close>

definition call_group :: "(nat \<times> nat set) option flight_group" where
  "call_group =
     \<lparr>sf_start = None, sf_leader = map_option fst,
      sf_waiting = (\<lambda>f. case f of None \<Rightarrow> {} | Some (j, ks) \<Rightarrow> ks),
      sf_enter = (\<lambda>i f. case f of None \<Rightarrow> Some (i, {}) | Some (j, ks) \<Rightarrow> Some (j, insert i ks)),
      sf_finish = (\<lambda>f. None)\<rparr>"

interpretation group_of_key: singleflight call_group
  by unfold_locales (auto simp: call_group_def split: option.split)

section \<open>The sequential method is a run\<close>

text \<open>What an API server may answer to a context, in some world.\<close>

definition api_answers :: "'w k8s_api \<Rightarrow> go_ctx \<Rightarrow> k8s_namespace list go_result \<Rightarrow> bool" where
  "api_answers api ctx r \<longleftrightarrow> (\<exists>w w'. k8s_list_namespaces api ctx w = (w', r))"

lemma live_cache_hit: "ns_now s = k8s_mono api w \<Longrightarrow> live_cache s \<longleftrightarrow> cache_hit api (ns_service s, w)"
  by (simp add: live_cache_def cache_hit_def)

lemma at_pc_go_to [simp]: "at_pc (go_to i q s) i q \<longleftrightarrow> i < length (ns_callers s)"
  by (auto simp: at_pc_def go_to_def)

lemma at_pc_more [simp]:
  "at_pc (s\<lparr>ns_service := x\<rparr>) = at_pc s" "at_pc (s\<lparr>ns_now := t\<rparr>) = at_pc s" "at_pc (s\<lparr>ns_flight := f\<rparr>) = at_pc s"
  "at_pc (s\<lparr>ns_stored := st\<rparr>) = at_pc s" "at_pc (s\<lparr>ns_ended := en\<rparr>) = at_pc s"
  by (simp_all add: at_pc_def fun_eq_iff)

lemma ctx_go_to [simp]: "nc_ctx (ns_callers (go_to i p s) ! i) = nc_ctx (ns_callers s ! i)"
  by (cases "i < length (ns_callers s)") (simp_all add: go_to_def list_update_beyond)

lemma at_pc_deliver: "at_pc s i p \<Longrightarrow> i \<in> who \<Longrightarrow> at_pc (s\<lparr>ns_callers := deliver who r (ns_callers s)\<rparr>) i (NsDone r)"
  by (simp add: at_pc_def nth_deliver)

text \<open>
  A caller that meets no fetch in flight can do exactly what \<open>Service_ListNamespaces\<close> does: it gets the same result and
  leaves the same cache, where time passes as it does there.
\<close>

lemma sequential_call_is_run:
  assumes "Service_ListNamespaces api ctx (ns_service s, w) = ((svc, w'), r)"
    and at: "at_pc s i NsCheck" and ctx: "nc_ctx (ns_callers s ! i) = ctx" and idle: "sf_leader g (ns_flight s) = None"
    and now: "ns_now s = k8s_mono api w" and later: "k8s_mono api w \<le> k8s_mono api w'"
  shows "\<exists>s'. ns_reachable (api_answers api) g s s' \<and> at_pc s' i (NsDone r) \<and> ns_service s' = svc"
proof (cases "cache_hit api (ns_service s, w)")
  case True
  with assms(1) have r: "r = Inr (nsCache (ns_service s))" "svc = ns_service s"
    by (auto simp: Service_ListNamespaces_def)
  show ?thesis
    using ns_call_step [OF ns_start ns_hit [OF at]] True at
    by (intro exI [of _ "go_to i (NsDone r) s"]) (simp add: live_cache_hit [OF now] r at_pc_def go_to_def)
next
  case False
  have at': "i < length (ns_callers s)" using at by (simp add: at_pc_def)
  let ?f = "sf_enter g i (ns_flight s)"
  let ?s2 = "(go_to i NsFetch (go_to i NsDo s))\<lparr>ns_flight := ?f\<rparr>"
  have 1: "ns_reachable (api_answers api) g s (go_to i NsDo s)"
    using ns_call_step [OF ns_start ns_miss [OF at]] False by (simp add: live_cache_hit [OF now])
  have 2: "ns_reachable (api_answers api) g s ?s2"
    using ns_call_step [OF 1 ns_lead [of _ i]] at' idle by simp
  obtain w1 res where k: "k8s_list_namespaces api ctx w = (w1, res)" by fastforce
  have a: "api_answers api (nc_ctx (ns_callers ?s2 ! i)) res" using k ctx by (auto simp: api_answers_def)
  have ends: "\<exists>s'. ns_reachable (api_answers api) g s s' \<and> at_pc s' i (NsDone r) \<and> ns_service s' = svc"
    if "ns_reachable (api_answers api) g s s1" "at_pc s1 i (NsReturn r)" "ns_service s1 = svc" for s1
    by (intro exI conjI, rule ns_call_step [OF that(1) ns_finish [OF that(2)]])
      (simp_all add: that(3) at_pc_deliver [OF that(2)])
  show ?thesis
  proof (cases res)
    case (Inl e)
    with assms(1) k False have "r = Inl e" "svc = ns_service s"
      by (simp_all add: Service_ListNamespaces_def fetchNamespaces_def)
    then show ?thesis
      using ends [of "go_to i (NsReturn r) ?s2"] ns_call_step [OF 2 ns_list_err [of _ i _ e]] a at' Inl by simp
  next
    case (Inr items)
    let ?out = "map toNamespace items"
    let ?s3 = "(go_to i (NsStore ?out) ?s2)\<lparr>ns_now := k8s_mono api w1\<rparr>"
    from assms(1) k False Inr have r: "r = Inr ?out" "w' = w1"
        "svc = \<lparr>nsCache = ?out, nsCachedAt = k8s_mono api w1\<rparr>"
      by (auto simp: Service_ListNamespaces_def fetchNamespaces_def Let_def)
    have 3: "ns_reachable (api_answers api) g s (go_to i (NsStore ?out) ?s2)"
      using ns_call_step [OF 2 ns_list_ok [of _ i _ items]] a at' Inr by simp
    have 4: "ns_reachable (api_answers api) g s ?s3"
      using ns_env_step [OF 3 ns_tick [of _ "k8s_mono api w1"]] later now r(2) by simp
    have "at_pc ?s3 i (NsStore ?out)" using at' by simp
    from ns_call_step [OF 4 ns_store [OF this]] show ?thesis
      using ends [of "(go_to i (NsReturn r) ?s3)\<lparr>ns_service := \<lparr>nsCache = ?out, nsCachedAt = ns_now ?s3\<rparr>,
          ns_stored := ns_stored ?s3 @ [(ns_now ?s3, ?out)]\<rparr>"] at' r by simp
  qed
qed

section \<open>A cancelled leader\<close>

text \<open>A cluster that fails a request only because its context is done, with the error of the context.\<close>

definition faithful_cluster :: "go_ctx \<Rightarrow> k8s_namespace list go_result \<Rightarrow> bool" where
  "faithful_cluster ctx r = (case ctx of None \<Rightarrow> \<not> isl r | Some x \<Rightarrow> r = Inl (Sentinel x))"

definition example_caller :: "go_ctx \<Rightarrow> ns_pc \<Rightarrow> ns_caller" where
  "example_caller ctx pc = \<lparr>nc_ctx = ctx, nc_pc = pc, nc_start = 0\<rparr>"

lemmas example_simps = example_caller_def go_to_def at_pc_def live_cache_def ns_init_def NewService_def

context singleflight begin

lemma two_callers:
  "ns_reachable cluster g (ns_init g 0) ((ns_init g 0)\<lparr>ns_callers := [example_caller None NsWait, example_caller None NsFetch],
     ns_flight := sf_enter g 0 (sf_enter g 1 (sf_start g))\<rparr>)"
proof -
  let ?s = "\<lambda>a b f. (ns_init g 0)\<lparr>ns_callers := [example_caller None a, example_caller None b], ns_flight := f\<rparr>"
  have 1: "ns_reachable cluster g (ns_init g 0) ((ns_init g 0)\<lparr>ns_callers := [example_caller None NsCheck]\<rparr>)"
    using ns_env_step [OF ns_start ns_arrive, of cluster g "ns_init g 0" None] by (simp add: example_simps)
  have 2: "ns_reachable cluster g (ns_init g 0) (?s NsCheck NsCheck (sf_start g))"
    using ns_env_step [OF 1 ns_arrive, of None] by (simp add: example_simps)
  have 3: "ns_reachable cluster g (ns_init g 0) (?s NsCheck NsDo (sf_start g))"
    using ns_call_step [OF 2 ns_miss [of _ 1]] by (simp add: example_simps)
  have 4: "ns_reachable cluster g (ns_init g 0) (?s NsCheck NsFetch (sf_enter g 1 (sf_start g)))"
    using ns_call_step [OF 3 ns_lead [of _ 1]] by (simp add: example_simps start_idle)
  have 5: "ns_reachable cluster g (ns_init g 0) (?s NsDo NsFetch (sf_enter g 1 (sf_start g)))"
    using ns_call_step [OF 4 ns_miss [of _ 0]] by (simp add: example_simps)
  have l: "sf_leader g (sf_enter g 1 (sf_start g)) = Some 1" using enter_leads [OF start_idle] by simp
  show ?thesis
    using ns_call_step [OF 5 ns_follow [of _ 0 g 1]] l by (simp add: example_simps)
qed

lemma cancelled_leader:
  "\<exists>s. ns_reachable faithful_cluster g (ns_init g 0) s \<and>
     ns_callers s = [example_caller None (NsDone (Inl (Sentinel Canceled))),
       example_caller (Some Canceled) (NsDone (Inl (Sentinel Canceled)))]"
proof -
  let ?f = "sf_enter g 0 (sf_enter g 1 (sf_start g))"
  let ?s = "\<lambda>c. (ns_init g 0)\<lparr>ns_callers := [example_caller None NsWait, c], ns_flight := ?f\<rparr>"
  have 1: "ns_reachable faithful_cluster g (ns_init g 0) (?s (example_caller (Some Canceled) NsFetch))"
    using ns_env_step [OF two_callers ns_cancel [of 1], of faithful_cluster Canceled] by (simp add: example_simps)
  have 2: "ns_reachable faithful_cluster g (ns_init g 0) (?s (example_caller (Some Canceled) (NsReturn (Inl (Sentinel Canceled)))))"
    using ns_call_step [OF 1 ns_list_err [of _ 1 faithful_cluster "Sentinel Canceled"]]
    by (simp add: example_simps faithful_cluster_def)
  have w: "sf_waiting g ?f = {0}" using enter_leads [OF start_idle, of 1] enter_waits [of "sf_enter g 1 (sf_start g)" 1 0] by simp
  show ?thesis
    using ns_call_step [OF 2 ns_finish [of _ 1 "Inl (Sentinel Canceled)"]] w
    by (intro exI conjI, simp add: example_simps, simp add: example_simps deliver_def)
qed

end

section \<open>Properties\<close>

text \<open>
  C22: under any interleaving of calls at most one fetch is in flight, and a list that a call returns was stored by a
  fetch that ended after the call began, or was in the cache for less than thirty seconds when it began.
\<close>

theorem shared_namespace_fetch:
  assumes "singleflight g" and "ns_reachable cluster g (ns_init g now) s"
  shows "(\<forall>j k p q. pc_of s j = Some p \<longrightarrow> fetching p \<longrightarrow> pc_of s k = Some q \<longrightarrow> fetching q \<longrightarrow> j = k) \<and>
    list_all (\<lambda>c. case nc_pc c of
        NsDone (Inr ns) \<Rightarrow> \<exists>t. (t, ns) \<in> set (ns_stored s) \<and>
          (nc_start c - t < 30 * second \<or> (\<exists>t'\<ge>nc_start c. (t', Inr ns) \<in> set (ns_ended s)))
      | NsDone (Inl e) \<Rightarrow> \<exists>t'\<ge>nc_start c. (t', Inl e) \<in> set (ns_ended s)
      | _ \<Rightarrow> True) (ns_callers s)"
proof -
  have f: "flight_ok g s" by (rule singleflight.flight_ok_reachable [OF assms])
  have a: "ns_answers_ok s" by (rule ns_answers_ok_reachable [OF assms(2)])
  have "j = k" if "pc_of s j = Some p" "fetching p" "pc_of s k = Some q" "fetching q" for j k p q
    using flight_ok_leader [OF f that(1)] flight_ok_leader [OF f that(3)] that by simp
  moreover have "case nc_pc c of
        NsDone (Inr ns) \<Rightarrow> \<exists>t. (t, ns) \<in> set (ns_stored s) \<and>
          (nc_start c - t < 30 * second \<or> (\<exists>t'\<ge>nc_start c. (t', Inr ns) \<in> set (ns_ended s)))
      | NsDone (Inl e) \<Rightarrow> \<exists>t'\<ge>nc_start c. (t', Inl e) \<in> set (ns_ended s)
      | _ \<Rightarrow> True" if "c \<in> set (ns_callers s)" for c
    using that a done_answer [of s c] by (auto simp: ns_answers_ok_def list_all_iff split: ns_pc.split sum.split)
  ultimately show ?thesis by (auto simp: list_all_iff)
qed

text \<open>
  C23: where the cluster answers every request, the callers take boundedly many steps, and when none of them can go on
  every call has its answer: no caller waits for ever, whoever fetches and however its fetch ends.
\<close>

theorem namespace_calls_answered:
  assumes "singleflight g" and "ns_reachable cluster g (ns_init g now) s" and "\<forall>ctx. \<exists>r. cluster ctx r"
    and "(ns_call cluster g ^^ n) s s'"
  shows "n \<le> ns_rank s \<and>
    (list_all (\<lambda>c. \<exists>r. nc_pc c = NsDone r) (ns_callers s') \<or> (\<exists>t. ns_call cluster g s' t))"
proof -
  have "ns_reachable cluster g (ns_init g now) s'"
    using assms(4)
  proof (induction n arbitrary: s')
    case 0
    then show ?case using assms(2) by simp
  next
    case (Suc n)
    then obtain s1 where "(ns_call cluster g ^^ n) s s1" "ns_call cluster g s1 s'" by auto
    with Suc.IH show ?case by (blast intro: ns_call_step)
  qed
  then have f: "flight_ok g s'" by (rule singleflight.flight_ok_reachable [OF assms(1)])
  have "list_all (\<lambda>c. \<exists>r. nc_pc c = NsDone r) (ns_callers s')" if "\<nexists>t. ns_call cluster g s' t"
    unfolding list_all_length using that caller_moves [OF assms(3) f] by (metis pc_of_def)
  then show ?thesis using rank_run [OF assms(4)] by blast
qed

text \<open>
  C38: the fetch runs under the context of the caller that leads it, and that is a bug: a call whose own context is alive
  fails with the cancellation of another command, although the cluster answers every live request.
\<close>

theorem follower_inherits_cancellation:
  assumes "singleflight g"
  shows "\<exists>s c. ns_reachable faithful_cluster g (ns_init g 0) s \<and> c \<in> set (ns_callers s) \<and>
    nc_ctx c = None \<and> nc_pc c = NsDone (Inl (Sentinel Canceled))"
proof -
  obtain s where s: "ns_reachable faithful_cluster g (ns_init g 0) s"
    "ns_callers s = [example_caller None (NsDone (Inl (Sentinel Canceled))),
       example_caller (Some Canceled) (NsDone (Inl (Sentinel Canceled)))]"
    using singleflight.cancelled_leader [OF assms] by blast
  then show ?thesis
    by (intro exI [of _ s] exI [of _ "example_caller None (NsDone (Inl (Sentinel Canceled)))"])
      (simp add: example_caller_def)
qed

theorem follower_inherits_cancellation_witness:
  "\<exists>s. ns_reachable faithful_cluster call_group (ns_init call_group 0) s \<and>
     (\<exists>c\<in>set (ns_callers s). nc_ctx c = None \<and> nc_pc c = NsDone (Inl (Sentinel Canceled)))"
  using follower_inherits_cancellation [OF group_of_key.singleflight_axioms] by blast

theorem shared_namespace_fetch_witness:
  "\<exists>s. ns_reachable faithful_cluster call_group (ns_init call_group 0) s \<and> length (ns_callers s) = 2 \<and>
     (\<forall>c\<in>set (ns_callers s). \<forall>e. nc_pc c = NsDone (Inl e) \<longrightarrow> (\<exists>t. (t, Inl e) \<in> set (ns_ended s)))"
proof -
  obtain s where s: "ns_reachable faithful_cluster call_group (ns_init call_group 0) s" "length (ns_callers s) = 2"
    using group_of_key.cancelled_leader by fastforce
  from shared_namespace_fetch [OF group_of_key.singleflight_axioms s(1)]
  have "list_all (\<lambda>c. case nc_pc c of
        NsDone (Inr ns) \<Rightarrow> \<exists>t. (t, ns) \<in> set (ns_stored s) \<and>
          (nc_start c - t < 30 * second \<or> (\<exists>t'\<ge>nc_start c. (t', Inr ns) \<in> set (ns_ended s)))
      | NsDone (Inl e) \<Rightarrow> \<exists>t'\<ge>nc_start c. (t', Inl e) \<in> set (ns_ended s)
      | _ \<Rightarrow> True) (ns_callers s)" by (rule conjunct2)
  then have "\<exists>t. (t, Inl e) \<in> set (ns_ended s)" if "c \<in> set (ns_callers s)" "nc_pc c = NsDone (Inl e)" for c e
    using that by (fastforce simp: list_all_iff)
  with s show ?thesis by blast
qed

theorem namespace_calls_answered_witness:
  "\<exists>s t. ns_reachable faithful_cluster call_group (ns_init call_group 0) s \<and> length (ns_callers s) = 2 \<and>
     ns_call faithful_cluster call_group s t"
proof -
  let ?s = "(ns_init call_group 0)\<lparr>ns_callers := [example_caller None NsWait, example_caller None NsFetch],
     ns_flight := sf_enter call_group 0 (sf_enter call_group 1 (sf_start call_group))\<rparr>"
  have r: "ns_reachable faithful_cluster call_group (ns_init call_group 0) ?s" by (rule group_of_key.two_callers)
  have "\<forall>ctx. \<exists>r. faithful_cluster ctx r"
  proof
    show "\<exists>r. faithful_cluster ctx r" for ctx
      by (cases ctx) (auto simp: faithful_cluster_def intro: exI [of _ "Inr []"])
  qed
  from namespace_calls_answered [OF group_of_key.singleflight_axioms r this, of 0 ?s]
  have "\<exists>t. ns_call faithful_cluster call_group ?s t" by (auto simp: example_simps)
  moreover have "length (ns_callers ?s) = 2" by simp
  ultimately show ?thesis using r by blast
qed

end
